(* ===== verification/Jwtlet_Prelude.thy ===== *)
theory Jwtlet_Prelude
  imports Main "HOL-Library.AList" "HOL-Library.FSet" "HOL-Library.List_Lexorder" "HOL-Library.Word"
begin

section \<open>Shared vocabulary of the Jwtlet development\<close>

text \<open>
  This theory holds what every component uses: Rust strings as lists of Unicode scalar
  values with the operations of \<^verbatim>\<open>str\<close> the program calls, Rust's \<^verbatim>\<open>Result\<close>
  and the \<^verbatim>\<open>?\<close> operator, hash maps as association lists, ordered maps and sets as
  sorted lists, and the lemmas about them that the component proofs rest on.

  A Rust \<^verbatim>\<open>String\<close> is a list of code points. The order of \<^verbatim>\<open>BTreeSet<String>\<close> is
  the byte order of the UTF-8 encodings, which is the lexicographic order of the code
  points; the library's order on lists is that order.
\<close>

named_theorems rust_str \<open>evaluation rules for string operations on literals\<close>
named_theorems result_defs \<open>unfolding of the result combinators\<close>

subsection \<open>Machine integers and strings\<close>

type_synonym i64 = "64 word"
type_synonym u16 = "16 word"
type_synonym u32 = "32 word"
type_synonym u64 = "64 word"
type_synonym str = "nat list"

definition lit :: "string \<Rightarrow> str" where
  "lit s = map of_char s"

lemma of_char_eq_nat: "(of_char c :: nat) = of_char d \<longleftrightarrow> c = d"
  by (metis char_of_char)

lemma lit_eq [simp]: "lit a = lit b \<longleftrightarrow> a = b"
  unfolding lit_def by (rule inj_map_eq_map) (auto intro: injI simp: of_char_eq_nat)

lemma lit_Nil_iff [simp]: "lit a = [] \<longleftrightarrow> a = []" "[] = lit a \<longleftrightarrow> a = []"
  by (auto simp: lit_def)

lemma length_lit [simp]: "length (lit a) = length a"
  by (simp add: lit_def)

lemma lit_append: "lit (a @ b) = lit a @ lit b"
  by (simp add: lit_def)

declare lit_def [rust_str]

text \<open>Unicode \<^verbatim>\<open>White_Space\<close>, which \<^verbatim>\<open>char::is_whitespace\<close> tests.\<close>

definition is_whitespace :: "nat \<Rightarrow> bool" where
  "is_whitespace c \<longleftrightarrow> (9 \<le> c \<and> c \<le> 13) \<or> c = 32 \<or> c = 133 \<or> c = 160 \<or> c = 5760
     \<or> (8192 \<le> c \<and> c \<le> 8202) \<or> c = 8232 \<or> c = 8233 \<or> c = 8239 \<or> c = 8287 \<or> c = 12288"

text \<open>The test on ASCII does not look at the large code points.\<close>

lemma is_whitespace_code [code]:
  "is_whitespace c =
     (if c < 128 then (9 \<le> c \<and> c \<le> 13) \<or> c = 32
      else c = 133 \<or> c = 160 \<or> c = 5760 \<or> (8192 \<le> c \<and> c \<le> 8202) \<or> c = 8232 \<or> c = 8233
        \<or> c = 8239 \<or> c = 8287 \<or> c = 12288)"
  by (auto simp: is_whitespace_def)

definition trim_start :: "str \<Rightarrow> str" where
  "trim_start s = dropWhile is_whitespace s"

definition trim_end :: "str \<Rightarrow> str" where
  "trim_end s = rev (dropWhile is_whitespace (rev s))"

definition trim :: "str \<Rightarrow> str" where
  "trim s = trim_end (trim_start s)"

definition trim_end_matches :: "nat \<Rightarrow> str \<Rightarrow> str" where
  "trim_end_matches c s = rev (dropWhile (\<lambda>x. x = c) (rev s))"

definition to_ascii_lowercase :: "str \<Rightarrow> str" where
  "to_ascii_lowercase s = map (\<lambda>c. if 65 \<le> c \<and> c \<le> 90 then c + 32 else c) s"

definition starts_with :: "str \<Rightarrow> str \<Rightarrow> bool" where
  "starts_with s p \<longleftrightarrow> take (length p) s = p"

definition strip_prefix :: "str \<Rightarrow> str \<Rightarrow> str option" where
  "strip_prefix s p = (if take (length p) s = p then Some (drop (length p) s) else None)"

text \<open>
  \<^verbatim>\<open>str::split\<close> by a predicate yields the pieces between separators, empty ones
  included; \<^verbatim>\<open>split_whitespace\<close> keeps the nonempty pieces.
\<close>

fun split_pred :: "('a \<Rightarrow> bool) \<Rightarrow> 'a list \<Rightarrow> 'a list list" where
  "split_pred p [] = [[]]"
| "split_pred p (x # xs) =
     (if p x then [] # split_pred p xs
      else (case split_pred p xs of [] \<Rightarrow> [[x]] | w # ws \<Rightarrow> (x # w) # ws))"

definition split_whitespace :: "str \<Rightarrow> str list" where
  "split_whitespace s = filter (\<lambda>w. w \<noteq> []) (split_pred is_whitespace s)"

fun join :: "str \<Rightarrow> str list \<Rightarrow> str" where
  "join sep [] = []"
| "join sep [w] = w"
| "join sep (w # v # ws) = w @ sep @ join sep (v # ws)"

text \<open>Decimal rendering, as \<^verbatim>\<open>Display\<close> for the integer types.\<close>

fun show_nat :: "nat \<Rightarrow> str" where
  "show_nat n = (if n < 10 then [48 + n] else show_nat (n div 10) @ [48 + n mod 10])"

declare show_nat.simps [simp del]

definition show_int :: "int \<Rightarrow> str" where
  "show_int i = (if i < 0 then 45 # show_nat (nat (- i)) else show_nat (nat i))"

text \<open>The apostrophe, which the program's messages put around a name.\<close>

abbreviation sq :: str where
  "sq \<equiv> [39]"

subsection \<open>Results\<close>

text \<open>
  Rust's \<^verbatim>\<open>Result\<close> and the combinators the program uses: \<^verbatim>\<open>?\<close> is
  \<open>and_then\<close>. An operation on a state returns its result and the new state, also when the
  result is an error, so that what an early return leaves behind is visible.
\<close>

datatype ('a, 'e) result = Ok 'a | Err 'e

definition and_then :: "('a, 'e) result \<Rightarrow> ('a \<Rightarrow> ('b, 'e) result) \<Rightarrow> ('b, 'e) result" where
  "and_then r f = (case r of Ok a \<Rightarrow> f a | Err e \<Rightarrow> Err e)"

definition map_err :: "('e \<Rightarrow> 'f) \<Rightarrow> ('a, 'e) result \<Rightarrow> ('a, 'f) result" where
  "map_err f r = (case r of Ok a \<Rightarrow> Ok a | Err e \<Rightarrow> Err (f e))"

definition ok_or :: "'a option \<Rightarrow> 'e \<Rightarrow> ('a, 'e) result" where
  "ok_or x e = (case x of Some a \<Rightarrow> Ok a | None \<Rightarrow> Err e)"

fun is_ok :: "('a, 'e) result \<Rightarrow> bool" where
  "is_ok (Ok _) = True"
| "is_ok (Err _) = False"

lemma and_then_simps [simp]: "and_then (Ok a) f = f a" "and_then (Err e) f = Err e"
  by (simp_all add: and_then_def)

lemma and_then_Ok_iff: "and_then r f = Ok b \<longleftrightarrow> (\<exists>a. r = Ok a \<and> f a = Ok b)"
  by (cases r) auto

lemma map_err_simps [simp]: "map_err f (Ok a) = Ok a" "map_err f (Err e) = Err (f e)"
  by (simp_all add: map_err_def)

lemma map_err_Ok_iff [simp]: "map_err f r = Ok a \<longleftrightarrow> r = Ok a" "Ok a = map_err f r \<longleftrightarrow> r = Ok a"
  by (cases r; auto)+

lemma map_err_Err_iff [simp]: "map_err f r = Err e \<longleftrightarrow> (\<exists>e'. r = Err e' \<and> e = f e')"
  by (cases r) auto

lemma ok_or_simps [simp]: "ok_or (Some a) e = Ok a" "ok_or None e = Err e"
  by (simp_all add: ok_or_def)

lemma is_ok_iff: "is_ok r \<longleftrightarrow> (\<exists>a. r = Ok a)"
  by (cases r) auto

declare and_then_def [result_defs] map_err_def [result_defs] ok_or_def [result_defs]

text \<open>The \<^verbatim>\<open>?\<close> operator on a computation that acts on a state.\<close>

definition bind_io :: "('a, 'e) result \<times> 'w \<Rightarrow> ('a \<Rightarrow> 'w \<Rightarrow> ('b, 'e) result \<times> 'w) \<Rightarrow> ('b, 'e) result \<times> 'w" where
  "bind_io rw f = (case rw of (Ok a, w) \<Rightarrow> f a w | (Err e, w) \<Rightarrow> (Err e, w))"

definition map_err_io :: "('e \<Rightarrow> 'f) \<Rightarrow> ('a, 'e) result \<times> 'w \<Rightarrow> ('a, 'f) result \<times> 'w" where
  "map_err_io f rw = (map_err f (fst rw), snd rw)"

lemma bind_io_simps [simp]: "bind_io (Ok a, w) f = f a w" "bind_io (Err e, w) f = (Err e, w)"
  by (simp_all add: bind_io_def)

lemma map_err_io_simps [simp]: "map_err_io f (Ok a, w) = (Ok a, w)" "map_err_io f (Err e, w) = (Err (f e), w)"
  by (simp_all add: map_err_io_def)

lemma bind_io_Ok_iff: "bind_io rw f = (Ok b, w') \<longleftrightarrow> (\<exists>a w. rw = (Ok a, w) \<and> f a w = (Ok b, w'))"
  by (cases rw; cases "fst rw") auto

lemma map_err_io_Ok_iff: "map_err_io f rw = (Ok a, w) \<longleftrightarrow> rw = (Ok a, w)"
  by (cases rw) (auto simp: map_err_io_def)

text \<open>The loop \<^verbatim>\<open>for x in xs { check(x)?; }\<close>.\<close>

fun for_each_check :: "('a \<Rightarrow> (unit, 'e) result) \<Rightarrow> 'a list \<Rightarrow> (unit, 'e) result" where
  "for_each_check f [] = Ok ()"
| "for_each_check f (x # xs) = and_then (f x) (\<lambda>_. for_each_check f xs)"

lemma for_each_check_Ok_iff: "for_each_check f xs = Ok () \<longleftrightarrow> (\<forall>x\<in>set xs. f x = Ok ())"
  by (induction xs) (auto simp: and_then_Ok_iff)

lemma for_each_check_ErrD: "for_each_check f xs = Err e \<Longrightarrow> \<exists>x\<in>set xs. f x = Err e"
proof (induction xs)
  case (Cons x xs)
  then show ?case by (cases "f x") auto
qed simp

subsection \<open>Hash maps, hash sets and ordered maps\<close>

text \<open>
  A \<^verbatim>\<open>HashMap\<close> is an association list with distinct keys; \<^verbatim>\<open>get\<close> is
  \<open>map_of\<close>, \<^verbatim>\<open>insert\<close> is \<open>AList.update\<close>, \<^verbatim>\<open>remove\<close> is \<open>AList.delete\<close>.
  A \<^verbatim>\<open>HashSet<String>\<close> is a finite set. Where the code iterates over a hash set and the
  order is observable, the order is an argument of the model (\<open>hash_iter\<close>), since the
  standard library leaves it open.
\<close>

type_synonym ('k, 'v) hash_map = "('k \<times> 'v) list"
type_synonym hash_iter = "str fset \<Rightarrow> str list"

definition hash_map_ok :: "('k, 'v) hash_map \<Rightarrow> bool" where
  "hash_map_ok m \<longleftrightarrow> distinct (map fst m)"

definition valid_iter :: "hash_iter \<Rightarrow> bool" where
  "valid_iter it \<longleftrightarrow> (\<forall>X. set (it X) = fset X \<and> distinct (it X))"

lemma valid_iter_set [simp]: "valid_iter it \<Longrightarrow> set (it X) = fset X"
  by (simp add: valid_iter_def)

lemma valid_iter_sorted: "valid_iter sorted_list_of_fset"
  by (auto simp: valid_iter_def sorted_list_of_fset.rep_eq)

text \<open>\<^verbatim>\<open>HashMap::retain\<close> on the key.\<close>

definition retain_keys :: "('k \<Rightarrow> bool) \<Rightarrow> ('k, 'v) hash_map \<Rightarrow> ('k, 'v) hash_map" where
  "retain_keys p m = filter (\<lambda>kv. p (fst kv)) m"

lemma map_of_retain_keys: "map_of (retain_keys p m) k = (if p k then map_of m k else None)"
  by (induction m) (auto simp: retain_keys_def)

lemma hash_map_ok_Nil [simp]: "hash_map_ok []"
  by (simp add: hash_map_ok_def)

lemma hash_map_ok_update [simp]: "hash_map_ok m \<Longrightarrow> hash_map_ok (AList.update k v m)"
  by (simp add: hash_map_ok_def distinct_update)

lemma hash_map_ok_delete [simp]: "hash_map_ok m \<Longrightarrow> hash_map_ok (AList.delete k m)"
  by (simp add: hash_map_ok_def distinct_delete)

lemma hash_map_ok_retain [simp]: "hash_map_ok m \<Longrightarrow> hash_map_ok (retain_keys p m)"
  by (simp add: hash_map_ok_def retain_keys_def distinct_map_filter)

lemma hash_map_values: "hash_map_ok m \<Longrightarrow> snd ` set m = ran (map_of m)"
  by (simp add: hash_map_ok_def ran_distinct)

text \<open>Every value of the map sits under the key it names itself.\<close>

definition filed_by :: "('v \<Rightarrow> 'k) \<Rightarrow> ('k, 'v) hash_map \<Rightarrow> bool" where
  "filed_by f m \<longleftrightarrow> (\<forall>(k, v)\<in>set m. f v = k)"

lemma filed_by_Nil [simp]: "filed_by f []"
  by (simp add: filed_by_def)

lemma filed_by_update [simp]: "filed_by f m \<Longrightarrow> filed_by f (AList.update (f v) v m)"
  by (induction m) (auto simp: filed_by_def)

lemma filed_by_delete [simp]: "filed_by f m \<Longrightarrow> filed_by f (AList.delete k m)"
  by (auto simp: filed_by_def AList.delete_eq)

lemma filed_by_retain [simp]: "filed_by f m \<Longrightarrow> filed_by f (retain_keys p m)"
  by (auto simp: filed_by_def retain_keys_def)

lemma filed_by_lookup: "filed_by f m \<Longrightarrow> map_of m k = Some v \<Longrightarrow> f v = k"
  by (auto simp: filed_by_def dest: map_of_SomeD)

lemma filed_by_keys: "filed_by f m \<Longrightarrow> map f (map snd m) = map fst m"
  by (auto simp: filed_by_def)

text \<open>\<^verbatim>\<open>BTreeSet\<close> from an iterator: the sorted list of the distinct elements.\<close>

definition btree_set :: "'a::linorder list \<Rightarrow> 'a list" where
  "btree_set xs = sort (remdups xs)"

lemma set_btree_set [simp]: "set (btree_set xs) = set xs"
  by (simp add: btree_set_def)

lemma btree_set_cong: "set xs = set ys \<Longrightarrow> btree_set xs = btree_set ys"
  unfolding btree_set_def by (rule sorted_distinct_set_unique) auto

lemma btree_set_sorted [simp]: "sorted (btree_set xs)" "distinct (btree_set xs)"
  by (simp_all add: btree_set_def)

lemma btree_set_idem [simp]: "btree_set (btree_set xs) = btree_set xs"
  by (rule btree_set_cong) simp

lemma btree_set_Nil_iff [simp]: "btree_set xs = [] \<longleftrightarrow> xs = []"
  by (metis set_btree_set set_empty)

text \<open>
  \<^verbatim>\<open>serde_json::Map\<close> is a \<^verbatim>\<open>BTreeMap\<close> (the lock file builds \<^verbatim>\<open>serde_json\<close> without
  the \<^verbatim>\<open>preserve_order\<close> feature): an association list strictly sorted by key.
\<close>

fun map_insert :: "'k::linorder \<Rightarrow> 'v \<Rightarrow> ('k \<times> 'v) list \<Rightarrow> ('k \<times> 'v) list" where
  "map_insert k v [] = [(k, v)]"
| "map_insert k v (e # es) =
     (if k = fst e then (k, v) # es
      else if k < fst e then (k, v) # e # es
      else e # map_insert k v es)"

definition btree_ok :: "('k::linorder \<times> 'v) list \<Rightarrow> bool" where
  "btree_ok m \<longleftrightarrow> sorted_wrt (<) (map fst m)"

lemma btree_ok_Nil [simp]: "btree_ok []"
  by (simp add: btree_ok_def)

lemma keys_map_insert [simp]: "fst ` set (map_insert k v m) = insert k (fst ` set m)"
  by (induction m) (auto split: if_splits)

lemma btree_ok_insert [simp]: "btree_ok m \<Longrightarrow> btree_ok (map_insert k v m)"
proof (induction m)
  case (Cons e es)
  have keys: "set (map fst (map_insert k v es)) = insert k (set (map fst es))"
    by simp
  from Cons show ?case
    by (auto simp: btree_ok_def keys simp del: set_map)
qed (simp add: btree_ok_def)

lemma map_of_map_insert [simp]: "map_of (map_insert k v m) = (map_of m)(k \<mapsto> v)"
  by (induction m) auto

lemma btree_ok_distinct: "btree_ok m \<Longrightarrow> distinct (map fst m)"
  by (simp add: btree_ok_def strict_sorted_iff)

lemma alist_from_keys: "distinct (map fst m) \<Longrightarrow> m = map (\<lambda>k. (k, the (map_of m k))) (map fst m)"
  by (auto intro!: map_idI [symmetric])

lemma btree_ok_unique:
  assumes "btree_ok m" "btree_ok n" "map_of m = map_of n"
  shows "m = n"
proof -
  have "set (map fst m) = set (map fst n)"
    using assms(3) by (metis dom_map_of_conv_image_fst set_map)
  with assms have "map fst m = map fst n"
    by (metis btree_ok_def strict_sorted_equal)
  with assms alist_from_keys [of m] alist_from_keys [of n] show ?thesis
    by (metis btree_ok_distinct)
qed

subsection \<open>Laws of the string operations\<close>

definition is_word :: "str \<Rightarrow> bool" where
  "is_word w \<longleftrightarrow> w \<noteq> [] \<and> (\<forall>c\<in>set w. \<not> is_whitespace c)"

lemma trim_Nil_iff: "trim s = [] \<longleftrightarrow> (\<forall>c\<in>set s. is_whitespace c)"
proof
  assume "trim s = []"
  then have "\<forall>c\<in>set (dropWhile is_whitespace s). is_whitespace c"
    by (simp add: trim_def trim_end_def trim_start_def dropWhile_eq_Nil_conv)
  then show "\<forall>c\<in>set s. is_whitespace c"
    by (metis dropWhile_eq_Nil_conv hd_dropWhile list.set_sel(1))
qed (auto simp: trim_def trim_end_def trim_start_def dest: set_dropWhileD)

lemma trim_end_idem [simp]: "trim_end (trim_end s) = trim_end s"
  by (simp add: trim_end_def dropWhile_idem)

lemma dropWhile_trim_end:
  "dropWhile is_whitespace (trim_end (dropWhile is_whitespace s)) = trim_end (dropWhile is_whitespace s)"
proof (cases "dropWhile is_whitespace s")
  case (Cons c t)
  then have c: "\<not> is_whitespace c"
    by (metis hd_dropWhile list.discI list.sel(1))
  have "trim_end (c # t) = c # trim_end t"
    using c by (cases "\<forall>x\<in>set t. is_whitespace x")
      (auto simp: trim_end_def dropWhile_append dropWhile_eq_Nil_conv)
  with c Cons show ?thesis by simp
next
  case Nil
  then show ?thesis by (simp only: trim_end_def) simp
qed

lemma trim_idem [simp]: "trim (trim s) = trim s"
  by (simp add: trim_def trim_start_def dropWhile_trim_end)

lemma split_pred_nonempty: "split_pred p xs \<noteq> []"
  by (induction xs) (auto split: list.splits)

lemma split_pred_no_sep: "(\<forall>x\<in>set xs. \<not> p x) \<Longrightarrow> split_pred p xs = [xs]"
  by (induction xs) auto

lemma split_pred_sep: "(\<forall>x\<in>set w. \<not> p x) \<Longrightarrow> p c \<Longrightarrow> split_pred p (w @ c # s) = w # split_pred p s"
  by (induction w) auto

lemma split_pred_pieces: "w \<in> set (split_pred p xs) \<Longrightarrow> x \<in> set w \<Longrightarrow> \<not> p x"
proof (induction xs arbitrary: w x)
  case (Cons y ys)
  then show ?case
    by (cases "split_pred p ys") (auto simp: split_pred_nonempty split: if_splits, blast)
qed simp

lemma split_whitespace_words: "w \<in> set (split_whitespace s) \<Longrightarrow> is_word w"
  by (auto simp: split_whitespace_def is_word_def dest: split_pred_pieces)

lemma split_whitespace_join:
  "\<forall>w\<in>set ws. is_word w \<Longrightarrow> split_whitespace (join [32] ws) = ws"
proof (induction "[32::nat]" ws rule: join.induct)
  case (2 w)
  then show ?case by (simp add: split_whitespace_def is_word_def split_pred_no_sep)
next
  case (3 w v ws)
  then have "split_pred is_whitespace (w @ 32 # join [32] (v # ws))
      = w # split_pred is_whitespace (join [32] (v # ws))"
    by (intro split_pred_sep) (auto simp: is_word_def is_whitespace_def)
  with 3 show ?case by (simp add: split_whitespace_def is_word_def)
qed (simp add: split_whitespace_def)

lemma btree_set_sorted_id: "sorted xs \<Longrightarrow> distinct xs \<Longrightarrow> btree_set xs = xs"
  by (simp add: btree_set_def sort_key_id_if_sorted distinct_remdups_id)

text \<open>Two pieces joined by a separator that neither contains are recovered from the whole.\<close>

lemma append_sep_inject:
  "c \<notin> set a \<Longrightarrow> c \<notin> set b \<Longrightarrow> a @ c # x = b @ c # y \<Longrightarrow> a = b \<and> x = y"
proof (induction a arbitrary: b)
  case Nil
  then show ?case by (cases b) auto
next
  case (Cons d a)
  then show ?case by (cases b) auto
qed

end
