(* ===== verification/Json_Value.thy ===== *)
theory Json_Value
  imports Jwtlet_Prelude
begin

section \<open>JSON values\<close>

text \<open>
  The values of \<^verbatim>\<open>serde_json\<close> as the program handles them: claims are maps from
  names to values, and the program only copies values, tests whether one is a string and
  builds objects. A number keeps the three shapes the library stores (an unsigned, a
  negative or a floating-point number, the last as its bit pattern).
\<close>

datatype json_number = PosInt u64 | NegInt i64 | Float "64 word"

datatype json =
    JNull
  | JBool bool
  | JNumber json_number
  | JString str
  | JArray "json list"
  | JObject "(str \<times> json) list"

type_synonym json_map = "(str \<times> json) list"

fun is_json_string :: "json \<Rightarrow> bool" where
  "is_json_string (JString _) = True"
| "is_json_string _ = False"

fun json_string :: "json \<Rightarrow> str" where
  "json_string (JString s) = s"
| "json_string _ = []"

text \<open>Object indexing for writing, \<^verbatim>\<open>v[key] = x\<close> on an object value.\<close>

fun json_set :: "str \<Rightarrow> json \<Rightarrow> json \<Rightarrow> json" where
  "json_set k x (JObject m) = JObject (map_insert k x m)"
| "json_set k x v = v"

fun json_get :: "str \<Rightarrow> json \<Rightarrow> json option" where
  "json_get k (JObject m) = map_of m k"
| "json_get k _ = None"

definition json_object :: "(str \<times> json) list \<Rightarrow> json" where
  "json_object kvs = JObject (fold (\<lambda>(k, v) m. map_insert k v m) kvs [])"

lemma is_json_string_iff: "is_json_string v \<longleftrightarrow> (\<exists>s. v = JString s)"
  by (cases v) auto

lemma JString_json_string [simp]: "is_json_string v \<Longrightarrow> JString (json_string v) = v"
  by (cases v) auto

lemma btree_ok_fold_insert [simp]:
  "btree_ok m \<Longrightarrow> btree_ok (fold (\<lambda>(k, v) m. map_insert k v m) kvs m)"
  by (induction kvs arbitrary: m) auto

lemma map_of_fold_insert:
  "map_of (fold (\<lambda>(k, v) m. map_insert k v m) kvs m) = map_of m ++ map_of (rev kvs)"
proof (induction kvs arbitrary: m)
  case (Cons kv kvs)
  obtain k v where kv: "kv = (k, v)" by (cases kv)
  show ?case
    by (rule ext) (simp add: Cons.IH kv map_add_def split: option.splits)
qed simp

end
