(* ===== verification/Resource_Model.thy ===== *)
theory Resource_Model
  imports Json_Value
begin

section \<open>The policy data and its validation\<close>

text \<open>
  The data types of \<^verbatim>\<open>crates/jwtlet-core/src/resource/mod.rs\<close>: errors, resource
  mappings, scope mappings, the pair a lookup returns, the result of a verification, and
  the trait of the stores as a record of operations. The validation functions follow the
  code branch by branch with their messages.
\<close>

datatype resource_error =
    DatabaseError str
  | NotFound str
  | Conflict str
  | ClaimConflict str
  | ReservedClaim str
  | InvalidMapping str

fun show_resource_error :: "resource_error \<Rightarrow> str" where
  "show_resource_error (DatabaseError m) = lit ''Database error: '' @ m"
| "show_resource_error (NotFound c) = lit ''Mapping not found for client: '' @ c"
| "show_resource_error (Conflict c) = lit ''Mapping already exists for client: '' @ c"
| "show_resource_error (ClaimConflict m) = lit ''Scope claim key conflict: '' @ m"
| "show_resource_error (ReservedClaim k) = lit ''Reserved JWT claim key used in scope mapping: '' @ k"
| "show_resource_error (InvalidMapping m) = lit ''Invalid mapping: '' @ m"

record resource_mapping =
  rm_client_identifier :: str
  rm_participant_context :: str
  rm_scopes :: "str fset"
  rm_audiences :: "str fset"

record scope_mapping =
  sm_scope :: str
  sm_claims :: json_map

record mapping_pair =
  mp_resource_mapping :: resource_mapping
  mp_scope_mappings :: "str \<rightharpoonup> scope_mapping"

record verification_result =
  vr_verified :: bool
  vr_claims :: "(str, json) hash_map"
  vr_audiences :: "str fset"

abbreviation rm_key :: "resource_mapping \<Rightarrow> str \<times> str" where
  "rm_key m \<equiv> (rm_client_identifier m, rm_participant_context m)"

text \<open>
  \<^verbatim>\<open>trait ResourceStore\<close>: a store behind \<^verbatim>\<open>Arc<dyn ResourceStore>\<close> is its table of
  operations over its own state type.
\<close>

record 's resource_store =
  st_resolve_mapping :: "str \<Rightarrow> str \<Rightarrow> 's \<Rightarrow> (mapping_pair option, resource_error) result \<times> 's"
  st_save_mapping :: "resource_mapping \<Rightarrow> 's \<Rightarrow> (unit, resource_error) result \<times> 's"
  st_update_mapping :: "resource_mapping \<Rightarrow> 's \<Rightarrow> (unit, resource_error) result \<times> 's"
  st_remove_mapping :: "str \<Rightarrow> str \<Rightarrow> 's \<Rightarrow> (unit, resource_error) result \<times> 's"
  st_remove_mappings_for :: "str \<Rightarrow> 's \<Rightarrow> (unit, resource_error) result \<times> 's"
  st_save_scope_mappings :: "scope_mapping list \<Rightarrow> 's \<Rightarrow> (unit, resource_error) result \<times> 's"
  st_update_scope_mapping :: "scope_mapping \<Rightarrow> 's \<Rightarrow> (unit, resource_error) result \<times> 's"
  st_remove_scope_mapping :: "str \<Rightarrow> 's \<Rightarrow> (unit, resource_error) result \<times> 's"
  st_list_mappings :: "'s \<Rightarrow> (resource_mapping list, resource_error) result \<times> 's"
  st_list_scope_mappings :: "'s \<Rightarrow> (scope_mapping list, resource_error) result \<times> 's"

subsection \<open>Validation\<close>

definition RESERVED_CLAIMS :: "str list" where
  "RESERVED_CLAIMS = map lit [''sub'', ''iss'', ''aud'', ''exp'', ''iat'', ''nbf'', ''act'', ''jti'']"

definition is_reserved_claim :: "str \<Rightarrow> bool" where
  "is_reserved_claim key \<longleftrightarrow> key \<in> set RESERVED_CLAIMS"

definition validate_scope_name :: "str \<Rightarrow> (unit, resource_error) result" where
  "validate_scope_name s =
     (if s = [] \<or> (\<exists>c\<in>set s. is_whitespace c)
      then Err (InvalidMapping (lit ''scope '' @ sq @ s @ sq
             @ lit '' must be non-empty and contain no whitespace''))
      else Ok ())"

definition validate_resource_mapping :: "hash_iter \<Rightarrow> resource_mapping \<Rightarrow> (unit, resource_error) result" where
  "validate_resource_mapping it m =
     (if trim (rm_client_identifier m) = []
      then Err (InvalidMapping (lit ''clientIdentifier must not be empty''))
      else if trim (rm_participant_context m) = []
      then Err (InvalidMapping (lit ''participantContext must not be empty''))
      else and_then (for_each_check validate_scope_name (it (rm_scopes m))) (\<lambda>_.
        if \<exists>a\<in>fset (rm_audiences m). trim a = []
        then Err (InvalidMapping (lit ''audiences must not contain empty values''))
        else Ok ()))"

definition validate_scope_claims :: "json_map \<Rightarrow> (unit, resource_error) result" where
  "validate_scope_claims cs =
     for_each_check (\<lambda>key. if is_reserved_claim key then Err (ReservedClaim key) else Ok ()) (map fst cs)"

definition validate_scope_mapping :: "scope_mapping \<Rightarrow> (unit, resource_error) result" where
  "validate_scope_mapping m =
     and_then (validate_scope_name (sm_scope m)) (\<lambda>_. validate_scope_claims (sm_claims m))"

subsection \<open>What validation accepts\<close>

text \<open>The mappings that may be written, as predicates without the order of the checks.\<close>

definition valid_resource_mapping :: "resource_mapping \<Rightarrow> bool" where
  "valid_resource_mapping m \<longleftrightarrow>
     trim (rm_client_identifier m) \<noteq> [] \<and> trim (rm_participant_context m) \<noteq> []
     \<and> (\<forall>s\<in>fset (rm_scopes m). is_word s) \<and> (\<forall>a\<in>fset (rm_audiences m). trim a \<noteq> [])"

definition valid_scope_mapping :: "scope_mapping \<Rightarrow> bool" where
  "valid_scope_mapping m \<longleftrightarrow>
     is_word (sm_scope m) \<and> (\<forall>k\<in>fst ` set (sm_claims m). \<not> is_reserved_claim k)"

lemma is_reserved_claim_iff:
  "is_reserved_claim k \<longleftrightarrow> k \<in> {lit ''sub'', lit ''iss'', lit ''aud'', lit ''exp'', lit ''iat'',
     lit ''nbf'', lit ''act'', lit ''jti''}"
  by (simp add: is_reserved_claim_def RESERVED_CLAIMS_def)

lemma validate_scope_name_Ok_iff [simp]: "validate_scope_name s = Ok () \<longleftrightarrow> is_word s"
  by (auto simp: validate_scope_name_def is_word_def)

lemma validate_scope_name_ErrD:
  "validate_scope_name s = Err e \<Longrightarrow> (\<exists>m. e = InvalidMapping m) \<and> \<not> is_word s"
  by (auto simp: validate_scope_name_def is_word_def split: if_splits)

lemma validate_resource_mapping_Ok_iff:
  assumes "valid_iter it"
  shows "validate_resource_mapping it m = Ok () \<longleftrightarrow> valid_resource_mapping m"
  using assms
  by (auto simp: validate_resource_mapping_def valid_resource_mapping_def and_then_Ok_iff
      for_each_check_Ok_iff split: if_splits)

lemma validate_resource_mapping_ErrD:
  "validate_resource_mapping it m = Err e \<Longrightarrow> \<exists>msg. e = InvalidMapping msg"
  by (auto simp: validate_resource_mapping_def and_then_def
      split: if_splits result.splits dest!: for_each_check_ErrD validate_scope_name_ErrD)

lemma validate_scope_claims_Ok_iff:
  "validate_scope_claims cs = Ok () \<longleftrightarrow> (\<forall>k\<in>fst ` set cs. \<not> is_reserved_claim k)"
  by (auto simp: validate_scope_claims_def for_each_check_Ok_iff)

lemma validate_scope_mapping_Ok_iff:
  "validate_scope_mapping m = Ok () \<longleftrightarrow> valid_scope_mapping m"
  by (simp add: validate_scope_mapping_def valid_scope_mapping_def and_then_Ok_iff
      validate_scope_claims_Ok_iff)

lemma validate_scope_mapping_ErrD:
  "validate_scope_mapping m = Err e \<Longrightarrow>
     (\<exists>msg. e = InvalidMapping msg) \<or> (\<exists>k\<in>fst ` set (sm_claims m). e = ReservedClaim k \<and> is_reserved_claim k)"
  by (auto simp: validate_scope_mapping_def validate_scope_claims_def and_then_def
      split: result.splits if_splits dest!: for_each_check_ErrD validate_scope_name_ErrD)

lemma invalid_resource_mapping:
  assumes "valid_iter it" "\<not> valid_resource_mapping m"
  obtains msg where "validate_resource_mapping it m = Err (InvalidMapping msg)"
  using assms validate_resource_mapping_Ok_iff [OF assms(1), of m] validate_resource_mapping_ErrD [of it m]
  by (cases "validate_resource_mapping it m") auto

lemma invalid_scope_mapping:
  assumes "\<not> valid_scope_mapping m"
  obtains e where "validate_scope_mapping m = Err e"
  using assms validate_scope_mapping_Ok_iff [of m] by (cases "validate_scope_mapping m") auto

lemma invalid_scope_batch:
  assumes "\<not> (\<forall>m\<in>set ms. valid_scope_mapping m)"
  obtains m e where "m \<in> set ms" "validate_scope_mapping m = Err e"
    "for_each_check validate_scope_mapping ms = Err e"
  using assms for_each_check_Ok_iff [of validate_scope_mapping ms]
    for_each_check_ErrD [of validate_scope_mapping ms]
  by (cases "for_each_check validate_scope_mapping ms") (auto simp: validate_scope_mapping_Ok_iff)

end
