(* ===== verification/Store_Contract.thy ===== *)
theory Store_Contract
  imports Resource_Model
begin

section \<open>The contract of a resource store\<close>

text \<open>
  What \<^verbatim>\<open>trait ResourceStore\<close> promises, independent of where the data lives: an
  abstract policy (two finite maps), the effect of every operation on it, and a locale
  that relates a concrete table of operations to the policy through an abstraction and an
  invariant. A store may answer any call with a database error; then the call took effect
  entirely or not at all. The reliable stores, which never do, are a locale of their own.
\<close>

record policy =
  pol_mappings :: "str \<times> str \<rightharpoonup> resource_mapping"
  pol_scopes :: "str \<rightharpoonup> scope_mapping"

definition empty_policy :: policy where
  "empty_policy = \<lparr>pol_mappings = Map.empty, pol_scopes = Map.empty\<rparr>"

text \<open>Every entry is filed under its own key and the maps are finite.\<close>

definition policy_wf :: "policy \<Rightarrow> bool" where
  "policy_wf pol \<longleftrightarrow>
     finite (dom (pol_mappings pol)) \<and> finite (dom (pol_scopes pol))
     \<and> (\<forall>k m. pol_mappings pol k = Some m \<longrightarrow> rm_key m = k)
     \<and> (\<forall>s m. pol_scopes pol s = Some m \<longrightarrow> sm_scope m = s)"

subsection \<open>The abstract operations\<close>

definition spec_resolve :: "policy \<Rightarrow> str \<Rightarrow> str \<Rightarrow> mapping_pair option" where
  "spec_resolve pol c p =
     (case pol_mappings pol (c, p) of
        None \<Rightarrow> None
      | Some m \<Rightarrow> Some \<lparr>mp_resource_mapping = m, mp_scope_mappings = pol_scopes pol |` fset (rm_scopes m)\<rparr>)"

definition spec_save :: "resource_mapping \<Rightarrow> policy \<Rightarrow> (unit, resource_error) result \<times> policy" where
  "spec_save m pol =
     (if pol_mappings pol (rm_key m) \<noteq> None then (Err (Conflict (rm_client_identifier m)), pol)
      else (Ok (), pol\<lparr>pol_mappings := (pol_mappings pol)(rm_key m \<mapsto> m)\<rparr>))"

definition spec_update :: "resource_mapping \<Rightarrow> policy \<Rightarrow> (unit, resource_error) result \<times> policy" where
  "spec_update m pol =
     (if pol_mappings pol (rm_key m) = None then (Err (NotFound (rm_client_identifier m)), pol)
      else (Ok (), pol\<lparr>pol_mappings := (pol_mappings pol)(rm_key m \<mapsto> m)\<rparr>))"

definition spec_remove :: "str \<Rightarrow> str \<Rightarrow> policy \<Rightarrow> (unit, resource_error) result \<times> policy" where
  "spec_remove c p pol = (Ok (), pol\<lparr>pol_mappings := (pol_mappings pol)((c, p) := None)\<rparr>)"

definition spec_remove_for :: "str \<Rightarrow> policy \<Rightarrow> (unit, resource_error) result \<times> policy" where
  "spec_remove_for c pol =
     (Ok (), pol\<lparr>pol_mappings := pol_mappings pol |` {k. fst k \<noteq> c}\<rparr>)"

text \<open>The first scope of a batch that is taken already, by the policy or earlier in the batch.\<close>

fun first_conflict :: "str set \<Rightarrow> scope_mapping list \<Rightarrow> str option" where
  "first_conflict taken [] = None"
| "first_conflict taken (m # ms) =
     (if sm_scope m \<in> taken then Some (sm_scope m)
      else first_conflict (insert (sm_scope m) taken) ms)"

definition add_scopes :: "scope_mapping list \<Rightarrow> (str \<rightharpoonup> scope_mapping) \<Rightarrow> (str \<rightharpoonup> scope_mapping)" where
  "add_scopes ms f = fold (\<lambda>m g. g(sm_scope m \<mapsto> m)) ms f"

definition spec_save_scopes :: "scope_mapping list \<Rightarrow> policy \<Rightarrow> (unit, resource_error) result \<times> policy" where
  "spec_save_scopes ms pol =
     (case first_conflict (dom (pol_scopes pol)) ms of
        Some s \<Rightarrow> (Err (Conflict s), pol)
      | None \<Rightarrow> (Ok (), pol\<lparr>pol_scopes := add_scopes ms (pol_scopes pol)\<rparr>))"

definition spec_update_scope :: "scope_mapping \<Rightarrow> policy \<Rightarrow> (unit, resource_error) result \<times> policy" where
  "spec_update_scope m pol =
     (if pol_scopes pol (sm_scope m) = None then (Err (NotFound (sm_scope m)), pol)
      else (Ok (), pol\<lparr>pol_scopes := (pol_scopes pol)(sm_scope m \<mapsto> m)\<rparr>))"

definition spec_remove_scope :: "str \<Rightarrow> policy \<Rightarrow> (unit, resource_error) result \<times> policy" where
  "spec_remove_scope s pol = (Ok (), pol\<lparr>pol_scopes := (pol_scopes pol)(s := None)\<rparr>)"

lemmas spec_mapping_defs = spec_save_def spec_update_def spec_remove_def spec_remove_for_def
lemmas spec_scope_defs = spec_save_scopes_def spec_update_scope_def spec_remove_scope_def

subsection \<open>Facts about batches\<close>

lemma first_conflict_None_iff:
  "first_conflict taken ms = None \<longleftrightarrow> distinct (map sm_scope ms) \<and> sm_scope ` set ms \<inter> taken = {}"
  by (induction ms arbitrary: taken) auto

lemma first_conflict_SomeD:
  "first_conflict taken ms = Some s \<Longrightarrow> s \<in> sm_scope ` set ms"
  by (induction ms arbitrary: taken) (auto split: if_splits)

lemma add_scopes_simps [simp]:
  "add_scopes [] f = f"
  "add_scopes (m # ms) f = add_scopes ms (f(sm_scope m \<mapsto> m))"
  by (simp_all add: add_scopes_def)

lemma add_scopes_other: "s \<notin> sm_scope ` set ms \<Longrightarrow> add_scopes ms f s = f s"
  by (induction ms arbitrary: f) auto

lemma dom_add_scopes: "dom (add_scopes ms f) = dom f \<union> sm_scope ` set ms"
  by (induction ms arbitrary: f) auto

lemma add_scopes_mem:
  "distinct (map sm_scope ms) \<Longrightarrow> m \<in> set ms \<Longrightarrow> add_scopes ms f (sm_scope m) = Some m"
proof (induction ms arbitrary: f)
  case (Cons a ms)
  show ?case
  proof (cases "m = a")
    case True
    with Cons.prems show ?thesis by (simp add: add_scopes_other)
  next
    case False
    with Cons show ?thesis by simp
  qed
qed simp

lemma add_scopes_SomeD: "add_scopes ms f s = Some m \<Longrightarrow> f s = Some m \<or> (m \<in> set ms \<and> sm_scope m = s)"
proof (induction ms arbitrary: f)
  case (Cons a ms)
  then show ?case by (fastforce split: if_splits)
qed simp

subsection \<open>The abstract operations keep the policy well formed\<close>

lemma policy_wf_empty [simp]: "policy_wf empty_policy"
  by (simp add: policy_wf_def empty_policy_def)

lemma policy_wf_save [simp]: "policy_wf pol \<Longrightarrow> policy_wf (snd (spec_save m pol))"
  by (auto simp: policy_wf_def spec_save_def)

lemma policy_wf_update [simp]: "policy_wf pol \<Longrightarrow> policy_wf (snd (spec_update m pol))"
  by (auto simp: policy_wf_def spec_update_def)

lemma policy_wf_remove [simp]: "policy_wf pol \<Longrightarrow> policy_wf (snd (spec_remove c p pol))"
  by (auto simp: policy_wf_def spec_remove_def)

lemma policy_wf_remove_for [simp]: "policy_wf pol \<Longrightarrow> policy_wf (snd (spec_remove_for c pol))"
  by (auto simp: policy_wf_def spec_remove_for_def restrict_map_def dom_def split: if_splits
      elim!: rev_finite_subset)

lemma policy_wf_save_scopes [simp]: "policy_wf pol \<Longrightarrow> policy_wf (snd (spec_save_scopes ms pol))"
  by (auto simp: policy_wf_def spec_save_scopes_def dom_add_scopes split: option.split dest: add_scopes_SomeD)

lemma policy_wf_update_scope [simp]: "policy_wf pol \<Longrightarrow> policy_wf (snd (spec_update_scope m pol))"
  by (auto simp: policy_wf_def spec_update_scope_def)

lemma policy_wf_remove_scope [simp]: "policy_wf pol \<Longrightarrow> policy_wf (snd (spec_remove_scope s pol))"
  by (auto simp: policy_wf_def spec_remove_scope_def)

lemma spec_resolve_wf:
  "policy_wf pol \<Longrightarrow> spec_resolve pol c p = Some mp \<Longrightarrow> rm_key (mp_resource_mapping mp) = (c, p)"
  by (auto simp: policy_wf_def spec_resolve_def split: option.splits)

subsection \<open>The locales\<close>

text \<open>
  A read answers what the abstract policy says and leaves it alone, or it fails; a write
  answers and acts as the abstract operation, or it fails with a database error and has
  acted entirely or not at all.
\<close>

definition read_meets :: "('a \<Rightarrow> bool) \<Rightarrow> policy \<Rightarrow> policy \<Rightarrow> ('a, resource_error) result \<Rightarrow> bool" where
  "read_meets good pol pol' r \<longleftrightarrow>
     pol' = pol \<and> (case r of Ok a \<Rightarrow> good a | Err e \<Rightarrow> (\<exists>msg. e = DatabaseError msg))"

definition write_meets ::
    "(policy \<Rightarrow> (unit, resource_error) result \<times> policy) \<Rightarrow> policy \<Rightarrow> policy
       \<Rightarrow> (unit, resource_error) result \<Rightarrow> bool" where
  "write_meets spec pol pol' r \<longleftrightarrow>
     (r, pol') = spec pol
     \<or> (\<exists>msg. r = Err (DatabaseError msg)) \<and> (pol' = pol \<or> pol' = snd (spec pol))"

text \<open>The lists a store returns: every entry once, in an order of its own.\<close>

definition lists_mappings :: "policy \<Rightarrow> resource_mapping list \<Rightarrow> bool" where
  "lists_mappings pol ms \<longleftrightarrow> distinct (map rm_key ms) \<and> set ms = ran (pol_mappings pol)"

definition lists_scopes :: "policy \<Rightarrow> scope_mapping list \<Rightarrow> bool" where
  "lists_scopes pol ms \<longleftrightarrow> distinct (map sm_scope ms) \<and> set ms = ran (pol_scopes pol)"

lemma write_meets_spec: "(r, pol') = spec pol \<Longrightarrow> write_meets spec pol pol' r"
  by (simp add: write_meets_def)

lemma write_meets_cases:
  assumes "write_meets spec pol pol' r"
  obtains (acted) "(r, pol') = spec pol"
    | (failed) msg where "r = Err (DatabaseError msg)" "pol' = pol"
    | (unknown) msg where "r = Err (DatabaseError msg)" "pol' = snd (spec pol)"
  using assms unfolding write_meets_def by blast

lemma write_meets_preserves:
  assumes "write_meets spec pol pol' r" "P pol" "P (snd (spec pol))"
  shows "P pol'"
  using assms by (auto elim!: write_meets_cases) (metis snd_conv)

text \<open>
  A store may rewrite the claim values it is given (a database column has its own notion of
  a number); \<open>keep\<close> is what it keeps of a scope mapping, with the scope and the claim names
  unchanged.
\<close>

locale store_contract =
  fixes ops :: "'s resource_store"
    and policy_of :: "'s \<Rightarrow> policy"
    and invar :: "'s \<Rightarrow> bool"
    and keep :: "scope_mapping \<Rightarrow> scope_mapping"
  assumes keep_scope: "sm_scope (keep sm) = sm_scope sm"
    and keep_claims: "fst ` set (sm_claims (keep sm)) = fst ` set (sm_claims sm)"
    and invar_wf: "invar s \<Longrightarrow> policy_wf (policy_of s)"
    and resolve_law: "invar s \<Longrightarrow> st_resolve_mapping ops c p s = (r1, s') \<Longrightarrow>
        invar s' \<and> read_meets (\<lambda>x. x = spec_resolve (policy_of s) c p) (policy_of s) (policy_of s') r1"
    and save_law: "invar s \<Longrightarrow> st_save_mapping ops m s = (r, s') \<Longrightarrow>
        invar s' \<and> write_meets (spec_save m) (policy_of s) (policy_of s') r"
    and update_law: "invar s \<Longrightarrow> st_update_mapping ops m s = (r, s') \<Longrightarrow>
        invar s' \<and> write_meets (spec_update m) (policy_of s) (policy_of s') r"
    and remove_law: "invar s \<Longrightarrow> st_remove_mapping ops c p s = (r, s') \<Longrightarrow>
        invar s' \<and> write_meets (spec_remove c p) (policy_of s) (policy_of s') r"
    and remove_for_law: "invar s \<Longrightarrow> st_remove_mappings_for ops c s = (r, s') \<Longrightarrow>
        invar s' \<and> write_meets (spec_remove_for c) (policy_of s) (policy_of s') r"
    and save_scopes_law: "invar s \<Longrightarrow> st_save_scope_mappings ops ms s = (r, s') \<Longrightarrow>
        invar s' \<and> write_meets (spec_save_scopes (map keep ms)) (policy_of s) (policy_of s') r"
    and update_scope_law: "invar s \<Longrightarrow> st_update_scope_mapping ops sm s = (r, s') \<Longrightarrow>
        invar s' \<and> write_meets (spec_update_scope (keep sm)) (policy_of s) (policy_of s') r"
    and remove_scope_law: "invar s \<Longrightarrow> st_remove_scope_mapping ops sc s = (r, s') \<Longrightarrow>
        invar s' \<and> write_meets (spec_remove_scope sc) (policy_of s) (policy_of s') r"
    and list_law: "invar s \<Longrightarrow> st_list_mappings ops s = (r2, s') \<Longrightarrow>
        invar s' \<and> read_meets (lists_mappings (policy_of s)) (policy_of s) (policy_of s') r2"
    and list_scopes_law: "invar s \<Longrightarrow> st_list_scope_mappings ops s = (r3, s') \<Longrightarrow>
        invar s' \<and> read_meets (lists_scopes (policy_of s)) (policy_of s) (policy_of s') r3"
begin

lemma save_scopes_all_or_nothing:
  assumes "invar s" "st_save_scope_mappings ops ms s = (r, s')"
  shows "pol_scopes (policy_of s') = pol_scopes (policy_of s)
       \<or> pol_scopes (policy_of s') = add_scopes (map keep ms) (pol_scopes (policy_of s))"
  using save_scopes_law [OF assms]
  by (auto simp: write_meets_def spec_save_scopes_def split: option.splits)

lemma resolve_after_save:
  assumes "invar s" "st_save_mapping ops m s = (Ok (), s1)"
    and "st_resolve_mapping ops (rm_client_identifier m) (rm_participant_context m) s1 = (Ok mp, s2)"
  shows "\<exists>pair. mp = Some pair \<and> mp_resource_mapping pair = m"
proof -
  have s1: "invar s1" "policy_of s1 = snd (spec_save m (policy_of s))" "fst (spec_save m (policy_of s)) = Ok ()"
    using save_law [OF assms(1,2)] by (auto simp: write_meets_def) (metis fst_conv snd_conv)+
  then have "mp = spec_resolve (policy_of s1) (rm_client_identifier m) (rm_participant_context m)"
    using resolve_law [OF s1(1) assms(3)] by (simp add: read_meets_def)
  with s1(2,3) show ?thesis
    by (auto simp: spec_save_def spec_resolve_def split: if_splits)
qed

end

text \<open>
  The writes as data, so that two stores can be driven by the same sequence of them.
\<close>

datatype store_write =
    SaveMapping resource_mapping
  | UpdateMappingTo resource_mapping
  | RemoveMapping str str
  | RemoveMappingsFor str
  | SaveScopes "scope_mapping list"
  | UpdateScopeTo scope_mapping
  | RemoveScope str

fun apply_write :: "'s resource_store \<Rightarrow> store_write \<Rightarrow> 's \<Rightarrow> (unit, resource_error) result \<times> 's" where
  "apply_write ops (SaveMapping m) = st_save_mapping ops m"
| "apply_write ops (UpdateMappingTo m) = st_update_mapping ops m"
| "apply_write ops (RemoveMapping c p) = st_remove_mapping ops c p"
| "apply_write ops (RemoveMappingsFor c) = st_remove_mappings_for ops c"
| "apply_write ops (SaveScopes ms) = st_save_scope_mappings ops ms"
| "apply_write ops (UpdateScopeTo m) = st_update_scope_mapping ops m"
| "apply_write ops (RemoveScope sc) = st_remove_scope_mapping ops sc"

fun spec_write ::
    "(scope_mapping \<Rightarrow> scope_mapping) \<Rightarrow> store_write \<Rightarrow> policy \<Rightarrow> (unit, resource_error) result \<times> policy" where
  "spec_write keep (SaveMapping m) = spec_save m"
| "spec_write keep (UpdateMappingTo m) = spec_update m"
| "spec_write keep (RemoveMapping c p) = spec_remove c p"
| "spec_write keep (RemoveMappingsFor c) = spec_remove_for c"
| "spec_write keep (SaveScopes ms) = spec_save_scopes (map keep ms)"
| "spec_write keep (UpdateScopeTo m) = spec_update_scope (keep m)"
| "spec_write keep (RemoveScope sc) = spec_remove_scope sc"

fun run_writes :: "'s resource_store \<Rightarrow> store_write list \<Rightarrow> 's \<Rightarrow> (unit, resource_error) result list \<times> 's" where
  "run_writes ops [] s = ([], s)"
| "run_writes ops (w # ws) s =
     (case apply_write ops w s of (r, s1) \<Rightarrow> (case run_writes ops ws s1 of (rs, s2) \<Rightarrow> (r # rs, s2)))"

fun spec_writes ::
    "(scope_mapping \<Rightarrow> scope_mapping) \<Rightarrow> store_write list \<Rightarrow> policy \<Rightarrow> (unit, resource_error) result list \<times> policy" where
  "spec_writes keep [] pol = ([], pol)"
| "spec_writes keep (w # ws) pol =
     (case spec_write keep w pol of (r, pol1) \<Rightarrow> (case spec_writes keep ws pol1 of (rs, pol2) \<Rightarrow> (r # rs, pol2)))"

text \<open>A store that never answers with a database error refines the policy exactly.\<close>

definition no_db_error :: "('a, resource_error) result \<Rightarrow> bool" where
  "no_db_error r \<longleftrightarrow> (\<forall>msg. r \<noteq> Err (DatabaseError msg))"

lemma write_meets_exact: "write_meets spec pol pol' r \<Longrightarrow> no_db_error r \<Longrightarrow> (r, pol') = spec pol"
  by (auto simp: write_meets_def no_db_error_def)

lemma read_meets_exact: "read_meets good pol pol' r \<Longrightarrow> no_db_error r \<Longrightarrow> pol' = pol \<and> (\<exists>a. r = Ok a \<and> good a)"
  by (cases r) (auto simp: read_meets_def no_db_error_def)

locale reliable_store = store_contract +
  assumes resolve_reliable: "invar s \<Longrightarrow> no_db_error (fst (st_resolve_mapping ops c p s))"
    and save_reliable: "invar s \<Longrightarrow> no_db_error (fst (st_save_mapping ops m s))"
    and update_reliable: "invar s \<Longrightarrow> no_db_error (fst (st_update_mapping ops m s))"
    and remove_reliable: "invar s \<Longrightarrow> no_db_error (fst (st_remove_mapping ops c p s))"
    and remove_for_reliable: "invar s \<Longrightarrow> no_db_error (fst (st_remove_mappings_for ops c s))"
    and save_scopes_reliable: "invar s \<Longrightarrow> no_db_error (fst (st_save_scope_mappings ops ms s))"
    and update_scope_reliable: "invar s \<Longrightarrow> no_db_error (fst (st_update_scope_mapping ops sm s))"
    and remove_scope_reliable: "invar s \<Longrightarrow> no_db_error (fst (st_remove_scope_mapping ops sc s))"
begin

lemma resolve_exact:
  assumes "invar s" "st_resolve_mapping ops c p s = (r, s')"
  shows "r = Ok (spec_resolve (policy_of s) c p)" "policy_of s' = policy_of s" "invar s'"
  using read_meets_exact [of _ _ _ r] resolve_law [OF assms] resolve_reliable [OF assms(1), of c p] assms(2)
  by fastforce+

lemma save_exact:
  assumes "invar s" "st_save_mapping ops m s = (r, s')"
  shows "(r, policy_of s') = spec_save m (policy_of s)"
  using write_meets_exact save_law [OF assms] save_reliable [OF assms(1), of m] assms(2) by fastforce

lemma save_scopes_exact:
  assumes "invar s" "st_save_scope_mappings ops ms s = (r, s')"
  shows "(r, policy_of s') = spec_save_scopes (map keep ms) (policy_of s)"
  using write_meets_exact save_scopes_law [OF assms] save_scopes_reliable [OF assms(1), of ms] assms(2)
  by fastforce

end

context store_contract begin

lemma apply_write_law:
  assumes "invar s" "apply_write ops w s = (r, s')"
  shows "invar s'" "write_meets (spec_write keep w) (policy_of s) (policy_of s') r"
  using assms save_law [OF assms(1)] update_law [OF assms(1)] remove_law [OF assms(1)] remove_for_law [OF assms(1)]
    save_scopes_law [OF assms(1)] update_scope_law [OF assms(1)] remove_scope_law [OF assms(1)]
  by (cases w; simp)+

lemma run_writes_exact:
  assumes "invar s" "run_writes ops ws s = (rs, s')" "list_all no_db_error rs"
  shows "(rs, policy_of s') = spec_writes keep ws (policy_of s)"
  using assms
proof (induction ws arbitrary: s rs)
  case (Cons w ws)
  obtain r s1 where w: "apply_write ops w s = (r, s1)" by (cases "apply_write ops w s")
  obtain rs1 where ws: "run_writes ops ws s1 = (rs1, s')" "rs = r # rs1"
    using Cons.prems w by (auto split: prod.splits)
  note law = apply_write_law [OF Cons.prems(1) w]
  have "(r, policy_of s1) = spec_write keep w (policy_of s)"
    using write_meets_exact [OF law(2)] Cons.prems(3) ws(2) by simp
  with Cons.IH [OF law(1) ws(1)] Cons.prems(3) ws(2) show ?case by (auto split: prod.splits)
qed auto

end

context reliable_store begin

lemma apply_write_reliable: "invar s \<Longrightarrow> no_db_error (fst (apply_write ops w s))"
  by (cases w) (simp_all add: save_reliable update_reliable remove_reliable remove_for_reliable
      save_scopes_reliable update_scope_reliable remove_scope_reliable)

lemma run_writes_reliable: "invar s \<Longrightarrow> list_all no_db_error (fst (run_writes ops ws s))"
proof (induction ws arbitrary: s)
  case (Cons w ws)
  obtain r s1 where w: "apply_write ops w s = (r, s1)" by (cases "apply_write ops w s")
  with Cons.IH [OF apply_write_law(1) [OF Cons.prems w]] apply_write_reliable [OF Cons.prems, of w]
  show ?case by (auto split: prod.splits)
qed simp

end

end
