(* ===== verification/Resource_Service.thy ===== *)
theory Resource_Service
  imports Store_Contract
begin

section \<open>The resource service\<close>

text \<open>
  \<^verbatim>\<open>impl ResourceService\<close> of \<^verbatim>\<open>crates/jwtlet-core/src/resource/mod.rs\<close>: the
  verification of a scope request, which expands scopes into claims, and the validated
  writes. The service is written over an arbitrary table of store operations; its
  properties are proved once, in the locale of the stores that keep the contract.
\<close>

subsection \<open>Expanding scopes into claims\<close>

definition conflicting_types :: "str \<Rightarrow> resource_error" where
  "conflicting_types k = ClaimConflict (lit ''claim key '' @ sq @ k @ sq
     @ lit '' has conflicting types across scopes'')"

definition defined_by_multiple :: "str \<Rightarrow> resource_error" where
  "defined_by_multiple k = ClaimConflict (lit ''claim key '' @ sq @ k @ sq
     @ lit '' is defined by multiple requested scopes'')"

text \<open>The inner loop of \<^verbatim>\<open>verify\<close>: the claims of one scope enter the accumulated claims.\<close>

fun merge_claims ::
    "(str, json) hash_map \<Rightarrow> json_map \<Rightarrow> ((str, json) hash_map, resource_error) result" where
  "merge_claims acc [] = Ok acc"
| "merge_claims acc ((k, v) # kvs) =
     (case map_of acc k of
        Some (JString existing) \<Rightarrow>
          (case v of
             JString new_val \<Rightarrow> merge_claims (AList.update k (JString (existing @ lit '' '' @ new_val)) acc) kvs
           | _ \<Rightarrow> Err (conflicting_types k))
      | Some _ \<Rightarrow> Err (defined_by_multiple k)
      | None \<Rightarrow> merge_claims (AList.update k v acc) kvs)"

text \<open>The outer loop, over the requested scopes in order.\<close>

fun expand_scopes ::
    "(str \<rightharpoonup> scope_mapping) \<Rightarrow> str list \<Rightarrow> (str, json) hash_map
       \<Rightarrow> ((str, json) hash_map, resource_error) result" where
  "expand_scopes sms [] acc = Ok acc"
| "expand_scopes sms (s # ss) acc =
     (case sms s of
        None \<Rightarrow> expand_scopes sms ss acc
      | Some sm \<Rightarrow> and_then (merge_claims acc (sm_claims sm)) (\<lambda>acc'. expand_scopes sms ss acc'))"

definition unverified :: verification_result where
  "unverified = \<lparr>vr_verified = False, vr_claims = [], vr_audiences = {||}\<rparr>"

definition svc_verify ::
    "'s resource_store \<Rightarrow> str \<Rightarrow> str \<Rightarrow> str list \<Rightarrow> 's
       \<Rightarrow> (verification_result, resource_error) result \<times> 's" where
  "svc_verify ops client_id context scopes0 s =
     (let scopes = btree_set scopes0 in
      case st_resolve_mapping ops client_id context s of
        (Err e, s') \<Rightarrow> (Err e, s')
      | (Ok None, s') \<Rightarrow> (Ok unverified, s')
      | (Ok (Some pair), s') \<Rightarrow>
          (if \<not> (\<forall>sc\<in>set scopes. sc |\<in>| rm_scopes (mp_resource_mapping pair)) then (Ok unverified, s')
           else
             (and_then (expand_scopes (mp_scope_mappings pair) scopes []) (\<lambda>cs.
                Ok \<lparr>vr_verified = True, vr_claims = cs,
                    vr_audiences = rm_audiences (mp_resource_mapping pair)\<rparr>), s')))"

subsection \<open>Validated writes and pass-through reads\<close>

definition svc_save ::
    "hash_iter \<Rightarrow> 's resource_store \<Rightarrow> resource_mapping \<Rightarrow> 's \<Rightarrow> (unit, resource_error) result \<times> 's" where
  "svc_save it ops m s =
     (case validate_resource_mapping it m of
        Err e \<Rightarrow> (Err e, s)
      | Ok _ \<Rightarrow> st_save_mapping ops m s)"

definition svc_update ::
    "hash_iter \<Rightarrow> 's resource_store \<Rightarrow> resource_mapping \<Rightarrow> 's \<Rightarrow> (unit, resource_error) result \<times> 's" where
  "svc_update it ops m s =
     (case validate_resource_mapping it m of
        Err e \<Rightarrow> (Err e, s)
      | Ok _ \<Rightarrow> st_update_mapping ops m s)"

definition svc_remove :: "'s resource_store \<Rightarrow> str \<Rightarrow> str \<Rightarrow> 's \<Rightarrow> (unit, resource_error) result \<times> 's" where
  "svc_remove ops client_id context s = st_remove_mapping ops client_id context s"

definition svc_remove_for :: "'s resource_store \<Rightarrow> str \<Rightarrow> 's \<Rightarrow> (unit, resource_error) result \<times> 's" where
  "svc_remove_for ops client_id s = st_remove_mappings_for ops client_id s"

definition svc_save_scope_mappings ::
    "'s resource_store \<Rightarrow> scope_mapping list \<Rightarrow> 's \<Rightarrow> (unit, resource_error) result \<times> 's" where
  "svc_save_scope_mappings ops ms s =
     (case for_each_check validate_scope_mapping ms of
        Err e \<Rightarrow> (Err e, s)
      | Ok _ \<Rightarrow> st_save_scope_mappings ops ms s)"

definition svc_update_scope_mapping ::
    "'s resource_store \<Rightarrow> scope_mapping \<Rightarrow> 's \<Rightarrow> (unit, resource_error) result \<times> 's" where
  "svc_update_scope_mapping ops m s =
     (case validate_scope_mapping m of
        Err e \<Rightarrow> (Err e, s)
      | Ok _ \<Rightarrow> st_update_scope_mapping ops m s)"

definition svc_delete_scope_mapping :: "'s resource_store \<Rightarrow> str \<Rightarrow> 's \<Rightarrow> (unit, resource_error) result \<times> 's" where
  "svc_delete_scope_mapping ops sc s = st_remove_scope_mapping ops sc s"

definition svc_list_mappings :: "'s resource_store \<Rightarrow> 's \<Rightarrow> (resource_mapping list, resource_error) result \<times> 's" where
  "svc_list_mappings ops s = st_list_mappings ops s"

definition svc_list_scope_mappings :: "'s resource_store \<Rightarrow> 's \<Rightarrow> (scope_mapping list, resource_error) result \<times> 's" where
  "svc_list_scope_mappings ops s = st_list_scope_mappings ops s"

subsection \<open>A declarative reading of the expansion\<close>

text \<open>
  The values a key receives, in the order of the scopes; a key may receive several only
  when all are strings, and its claim is then those strings joined by single spaces.
\<close>

definition contributed :: "(str \<rightharpoonup> scope_mapping) \<Rightarrow> str list \<Rightarrow> json_map" where
  "contributed sms ss = concat (map (\<lambda>s. case sms s of None \<Rightarrow> [] | Some sm \<Rightarrow> sm_claims sm) ss)"

definition values_of :: "'k \<Rightarrow> ('k \<times> 'v) list \<Rightarrow> 'v list" where
  "values_of k kvs = map snd (filter (\<lambda>kv. fst kv = k) kvs)"

definition combinable :: "json list \<Rightarrow> bool" where
  "combinable vs \<longleftrightarrow> length vs \<le> 1 \<or> (\<forall>v\<in>set vs. is_json_string v)"

fun combine :: "json list \<Rightarrow> json option" where
  "combine [] = None"
| "combine [v] = Some v"
| "combine vs = Some (JString (join [32] (map json_string vs)))"

lemma contributed_key:
  assumes "values_of k (contributed sms (btree_set ss)) \<noteq> []"
  obtains sc sm where "sc \<in> set ss" "sms sc = Some sm" "k \<in> fst ` set (sm_claims sm)"
proof -
  have "k \<in> fst ` set (contributed sms (btree_set ss))"
    using assms by (force simp: values_of_def filter_empty_conv)
  then obtain sc where sc: "sc \<in> set ss"
      "k \<in> fst ` set (case sms sc of None \<Rightarrow> [] | Some sm \<Rightarrow> sm_claims sm)"
    by (auto simp: contributed_def)
  then obtain sm where "sms sc = Some sm" by (cases "sms sc") auto
  with sc that show thesis by simp
qed

lemma expand_scopes_flat: "expand_scopes sms ss acc = merge_claims acc (contributed sms ss)"
proof (induction ss arbitrary: acc)
  case (Cons s ss)
  have app: "merge_claims acc (kvs @ kvs') = and_then (merge_claims acc kvs) (\<lambda>acc'. merge_claims acc' kvs')"
    for acc kvs kvs'
    by (induction acc kvs rule: merge_claims.induct) (auto split: option.splits json.splits)
  show ?case
    by (cases "sms s") (simp_all add: Cons.IH contributed_def app and_then_def split: result.split)
qed (simp add: contributed_def)

lemma values_of_simps [simp]:
  "values_of k [] = []"
  "values_of k (kvs @ kvs') = values_of k kvs @ values_of k kvs'"
  "values_of k ((k', v) # kvs) = (if k' = k then v # values_of k kvs else values_of k kvs)"
  by (simp_all add: values_of_def)

lemma combine_None_iff [simp]: "combine vs = None \<longleftrightarrow> vs = []"
  by (cases vs rule: combine.cases) auto

lemma combinable_prefix: "combinable (vs @ ws) \<Longrightarrow> combinable vs"
  by (auto simp: combinable_def)

lemma join_snoc: "ws \<noteq> [] \<Longrightarrow> join sep (ws @ [w]) = join sep ws @ sep @ w"
  by (induction sep ws rule: join.induct) auto

lemma combine_strings: "vs \<noteq> [] \<Longrightarrow> \<forall>v\<in>set vs. is_json_string v \<Longrightarrow> combine vs = Some (JString (join [32] (map json_string vs)))"
  by (cases vs rule: combine.cases) auto

lemma combine_snoc:
  assumes "combine vs = Some (JString e)" "combinable vs"
  shows "combinable (vs @ [JString n])" "combine (vs @ [JString n]) = Some (JString (e @ [32] @ n))"
proof -
  have "vs \<noteq> []" "\<forall>v\<in>set vs. is_json_string v"
    using assms by (cases vs rule: combine.cases; auto simp: combinable_def)+
  with assms combine_strings [of vs] combine_strings [of "vs @ [JString n]"]
  show "combinable (vs @ [JString n])" "combine (vs @ [JString n]) = Some (JString (e @ [32] @ n))"
    by (auto simp: combinable_def join_snoc)
qed

lemma combine_clash:
  assumes "combine vs = Some w" "\<not> (is_json_string w \<and> is_json_string v)"
  shows "\<not> combinable (vs @ v # ws)"
  using assms by (cases vs rule: combine.cases) (auto simp: combinable_def)

text \<open>
  The loop invariant: what has been merged so far is the combination of the values seen,
  and every key seen is combinable.
\<close>

definition merged_from :: "json_map \<Rightarrow> (str, json) hash_map \<Rightarrow> bool" where
  "merged_from seen acc \<longleftrightarrow> (\<forall>k. combinable (values_of k seen) \<and> map_of acc k = combine (values_of k seen))"

lemma merged_from_new:
  assumes "merged_from seen acc" "map_of acc k = None"
  shows "merged_from (seen @ [(k, v)]) (AList.update k v acc)"
proof -
  from assms have "values_of k seen = []" by (simp add: merged_from_def)
  with assms(1) show ?thesis
    by (simp add: merged_from_def update_conv' combinable_def)
qed

lemma merged_from_string:
  assumes "merged_from seen acc" "map_of acc k = Some (JString e)"
  shows "merged_from (seen @ [(k, JString n)]) (AList.update k (JString (e @ [32] @ n)) acc)"
  using assms combine_snoc [of "values_of k seen" e n] by (simp add: merged_from_def update_conv')

lemma merge_claims_spec:
  assumes "merged_from seen acc"
  shows "((\<forall>k. combinable (values_of k (seen @ kvs))) \<longrightarrow>
            (\<exists>acc'. merge_claims acc kvs = Ok acc' \<and> merged_from (seen @ kvs) acc'))
       \<and> (\<not> (\<forall>k. combinable (values_of k (seen @ kvs))) \<longrightarrow>
            (\<exists>msg. merge_claims acc kvs = Err (ClaimConflict msg)))"
  using assms
proof (induction kvs arbitrary: seen acc)
  case Nil
  then show ?case by (simp add: merged_from_def)
next
  case (Cons kv kvs)
  obtain k v where kv [simp]: "kv = (k, v)" by (cases kv)
  have clash: ?case if "map_of acc k = Some w" "\<not> (is_json_string w \<and> is_json_string v)"
    "\<exists>msg. merge_claims acc ((k, v) # kvs) = Err (ClaimConflict msg)" for w
  proof -
    have "combine (values_of k seen) = Some w"
      using Cons.prems that(1) by (simp add: merged_from_def)
    then have "\<not> combinable (values_of k (seen @ kv # kvs))"
      using combine_clash [OF _ that(2)] by simp
    with that(3) show ?thesis by auto
  qed
  show ?case
  proof (cases "map_of acc k")
    case None
    with Cons.IH [OF merged_from_new [OF Cons.prems None, of v]] show ?thesis by simp
  next
    case (Some w)
    show ?thesis
    proof (cases "is_json_string w \<and> is_json_string v")
      case True
      then obtain e n where [simp]: "w = JString e" "v = JString n"
        by (auto simp: is_json_string_iff)
      have sp: "lit '' '' = [32]" by (simp add: lit_def)
      from Some Cons.IH [OF merged_from_string [OF Cons.prems, of k e n]] show ?thesis
        by (simp add: sp)
    next
      case False
      with Some show ?thesis
        by (intro clash) (auto simp: conflicting_types_def defined_by_multiple_def split: json.splits)
    qed
  qed
qed

text \<open>The expansion succeeds exactly when every key is combinable, and then combines.\<close>

lemma expand_scopes_Ok:
  assumes "\<forall>k. combinable (values_of k (contributed sms ss))"
  shows "\<exists>cs. expand_scopes sms ss [] = Ok cs \<and> (\<forall>k. map_of cs k = combine (values_of k (contributed sms ss)))"
  using merge_claims_spec [of "[]" "[]" "contributed sms ss"] assms
  by (auto simp: expand_scopes_flat merged_from_def combinable_def)

lemma expand_scopes_Err:
  assumes "\<not> (\<forall>k. combinable (values_of k (contributed sms ss)))"
  shows "\<exists>msg. expand_scopes sms ss [] = Err (ClaimConflict msg)"
  using merge_claims_spec [of "[]" "[]" "contributed sms ss"] assms
  by (auto simp: expand_scopes_flat merged_from_def combinable_def)

lemma expand_scopes_keys:
  "expand_scopes sms ss [] = Ok cs \<Longrightarrow> map_of cs k = combine (values_of k (contributed sms ss))"
  using expand_scopes_Ok [of sms ss] expand_scopes_Err [of sms ss] by fastforce

lemma merge_claims_distinct: "merge_claims acc kvs = Ok cs \<Longrightarrow> hash_map_ok acc \<Longrightarrow> hash_map_ok cs"
  by (induction acc kvs rule: merge_claims.induct) (auto split: option.splits json.splits)

lemma expand_scopes_distinct: "expand_scopes sms ss [] = Ok cs \<Longrightarrow> hash_map_ok cs"
  by (auto simp: expand_scopes_flat dest: merge_claims_distinct)

lemma expand_scopes_verdict:
  obtains (merged) cs where "expand_scopes sms ss [] = Ok cs" "hash_map_ok cs"
      "\<forall>k. combinable (values_of k (contributed sms ss))"
      "\<forall>k. map_of cs k = combine (values_of k (contributed sms ss))"
    | (clash) msg where "expand_scopes sms ss [] = Err (ClaimConflict msg)"
      "\<not> (\<forall>k. combinable (values_of k (contributed sms ss)))"
  using expand_scopes_Ok [of sms ss] expand_scopes_Err [of sms ss] expand_scopes_distinct [of sms ss] by metis

subsection \<open>What the service promises over any store\<close>

text \<open>
  The answer of \<^verbatim>\<open>verify\<close> in terms of the abstract policy: refused without a mapping
  or with a scope the mapping lacks; otherwise the combined claims and the mapping's
  audiences, or a claim conflict. Besides that the store may fail.
\<close>

definition verify_meets ::
    "policy \<Rightarrow> str \<Rightarrow> str \<Rightarrow> str list \<Rightarrow> (verification_result, resource_error) result \<Rightarrow> bool" where
  "verify_meets pol c p ss r \<longleftrightarrow>
     (\<exists>msg. r = Err (DatabaseError msg))
     \<or> (case pol_mappings pol (c, p) of
          None \<Rightarrow> r = Ok unverified
        | Some m \<Rightarrow>
            (if \<not> set ss \<subseteq> fset (rm_scopes m) then r = Ok unverified
             else if \<forall>k. combinable (values_of k (contributed (pol_scopes pol) (btree_set ss)))
             then (\<exists>cs. r = Ok \<lparr>vr_verified = True, vr_claims = cs, vr_audiences = rm_audiences m\<rparr>
                     \<and> hash_map_ok cs
                     \<and> (\<forall>k. map_of cs k = combine (values_of k (contributed (pol_scopes pol) (btree_set ss)))))
             else (\<exists>msg. r = Err (ClaimConflict msg))))"

text \<open>Every stored mapping passed validation.\<close>

definition policy_valid :: "policy \<Rightarrow> bool" where
  "policy_valid pol \<longleftrightarrow>
     (\<forall>m\<in>ran (pol_mappings pol). valid_resource_mapping m)
     \<and> (\<forall>m\<in>ran (pol_scopes pol). valid_scope_mapping m)"

lemma contributed_restrict:
  "set ss \<subseteq> S \<Longrightarrow> contributed (f |` S) ss = contributed f ss"
  by (auto simp: contributed_def restrict_map_def intro!: arg_cong [where f = concat] map_cong)

lemma policy_valid_empty [simp]: "policy_valid empty_policy"
  by (simp add: policy_valid_def empty_policy_def)

lemma ran_map_updD: "x \<in> ran (f(k \<mapsto> v)) \<Longrightarrow> x = v \<or> x \<in> ran f"
  by (auto simp: ran_def split: if_splits)

lemma ran_map_delD: "x \<in> ran (f(k := None)) \<Longrightarrow> x \<in> ran f"
  by (auto simp: ran_def split: if_splits)

lemma ran_restrict_sub: "x \<in> ran (f |` A) \<Longrightarrow> x \<in> ran f"
  by (auto simp: ran_def restrict_map_def split: if_splits)

lemma ran_add_scopesD: "x \<in> ran (add_scopes ms f) \<Longrightarrow> x \<in> set ms \<or> x \<in> ran f"
  by (auto simp: ran_def dest: add_scopes_SomeD)

lemma policy_valid_mappings:
  "policy_valid pol \<Longrightarrow> valid_resource_mapping m \<Longrightarrow> policy_valid (snd (spec_save m pol))"
  "policy_valid pol \<Longrightarrow> valid_resource_mapping m \<Longrightarrow> policy_valid (snd (spec_update m pol))"
  "policy_valid pol \<Longrightarrow> policy_valid (snd (spec_remove c p pol))"
  "policy_valid pol \<Longrightarrow> policy_valid (snd (spec_remove_for c pol))"
  by (auto simp: policy_valid_def spec_mapping_defs dest!: ran_map_updD ran_map_delD ran_restrict_sub)

lemma policy_valid_scopes:
  "policy_valid pol \<Longrightarrow> \<forall>m\<in>set ms. valid_scope_mapping m \<Longrightarrow> policy_valid (snd (spec_save_scopes ms pol))"
  "policy_valid pol \<Longrightarrow> valid_scope_mapping m \<Longrightarrow> policy_valid (snd (spec_update_scope m pol))"
  "policy_valid pol \<Longrightarrow> policy_valid (snd (spec_remove_scope sc pol))"
  by (auto simp: policy_valid_def spec_scope_defs split: option.splits
      dest!: ran_map_updD ran_map_delD ran_add_scopesD)

lemma svc_save_eq:
  "valid_iter it \<Longrightarrow> svc_save it ops m s =
     (if valid_resource_mapping m then st_save_mapping ops m s else (validate_resource_mapping it m, s))"
  using validate_resource_mapping_Ok_iff [of it m]
  by (auto simp: svc_save_def elim: invalid_resource_mapping split: result.split)

lemma svc_update_eq:
  "valid_iter it \<Longrightarrow> svc_update it ops m s =
     (if valid_resource_mapping m then st_update_mapping ops m s else (validate_resource_mapping it m, s))"
  using validate_resource_mapping_Ok_iff [of it m]
  by (auto simp: svc_update_def elim: invalid_resource_mapping split: result.split)

lemma svc_save_scope_mappings_eq:
  "svc_save_scope_mappings ops ms s =
     (if \<forall>m\<in>set ms. valid_scope_mapping m then st_save_scope_mappings ops ms s
      else (for_each_check validate_scope_mapping ms, s))"
  using for_each_check_Ok_iff [of validate_scope_mapping ms]
  by (auto simp: svc_save_scope_mappings_def validate_scope_mapping_Ok_iff split: result.split)

lemma svc_update_scope_mapping_eq:
  "svc_update_scope_mapping ops m s =
     (if valid_scope_mapping m then st_update_scope_mapping ops m s else (validate_scope_mapping m, s))"
  using validate_scope_mapping_Ok_iff [of m]
  by (auto simp: svc_update_scope_mapping_def split: result.split)

text \<open>The answer when the store resolved the mapping as a policy says.\<close>

lemma svc_verify_resolved:
  assumes "st_resolve_mapping ops c p s = (Ok (spec_resolve pol c p), s1)" "svc_verify ops c p ss s = (r, s')"
  shows "s' = s1" "verify_meets pol c p ss r"
proof -
  show "s' = s1"
    using assms by (auto simp: svc_verify_def Let_def split: option.splits if_splits)
  show "verify_meets pol c p ss r"
  proof (cases "pol_mappings pol (c, p)")
    case None
    with assms show ?thesis
      by (simp add: spec_resolve_def svc_verify_def verify_meets_def Let_def)
  next
    case (Some m)
    let ?sms = "pol_scopes pol |` fset (rm_scopes m)"
    have r: "r = (if \<not> set ss \<subseteq> fset (rm_scopes m) then Ok unverified
          else and_then (expand_scopes ?sms (btree_set ss) []) (\<lambda>cs.
            Ok \<lparr>vr_verified = True, vr_claims = cs, vr_audiences = rm_audiences m\<rparr>))"
      using Some assms by (auto simp: spec_resolve_def svc_verify_def Let_def split: if_splits)
    have con: "contributed ?sms (btree_set ss) = contributed (pol_scopes pol) (btree_set ss)"
      if "set ss \<subseteq> fset (rm_scopes m)"
      by (rule contributed_restrict) (use that in simp)
    show ?thesis
      by (rule expand_scopes_verdict [of ?sms "btree_set ss"])
        (use r con Some in \<open>auto simp: verify_meets_def\<close>)
  qed
qed

context store_contract begin

lemma keep_valid: "valid_scope_mapping (keep m) \<longleftrightarrow> valid_scope_mapping m"
  unfolding valid_scope_mapping_def keep_scope keep_claims ..

lemma svc_verify_law:
  assumes "invar s" "svc_verify ops c p ss s = (r, s')"
  shows "invar s'" "policy_of s' = policy_of s" "verify_meets (policy_of s) c p ss r"
proof -
  obtain r1 s1 where res: "st_resolve_mapping ops c p s = (r1, s1)"
    by (cases "st_resolve_mapping ops c p s")
  note law = resolve_law [OF assms(1) res]
  have "s' = s1 \<and> verify_meets (policy_of s) c p ss r"
  proof (cases r1)
    case (Err e)
    with law assms(2) res show ?thesis
      by (auto simp: read_meets_def svc_verify_def verify_meets_def Let_def)
  next
    case (Ok mp)
    with law res have "st_resolve_mapping ops c p s = (Ok (spec_resolve (policy_of s) c p), s1)"
      by (simp add: read_meets_def)
    from svc_verify_resolved [OF this assms(2)] show ?thesis by blast
  qed
  with law show "invar s'" "policy_of s' = policy_of s" "verify_meets (policy_of s) c p ss r"
    by (simp_all add: read_meets_def)
qed

lemma svc_save_law:
  assumes "invar s" "svc_save it ops m s = (r, s')" "valid_iter it"
  shows "invar s'"
    and "if valid_resource_mapping m then write_meets (spec_save m) (policy_of s) (policy_of s') r
         else policy_of s' = policy_of s \<and> (\<exists>msg. r = Err (InvalidMapping msg))"
  using assms save_law [OF assms(1), of m]
  by (auto simp: svc_save_eq split: if_splits elim: invalid_resource_mapping)

lemma svc_update_law:
  assumes "invar s" "svc_update it ops m s = (r, s')" "valid_iter it"
  shows "invar s'"
    and "if valid_resource_mapping m then write_meets (spec_update m) (policy_of s) (policy_of s') r
         else policy_of s' = policy_of s \<and> (\<exists>msg. r = Err (InvalidMapping msg))"
  using assms update_law [OF assms(1), of m]
  by (auto simp: svc_update_eq split: if_splits elim: invalid_resource_mapping)

lemma svc_save_scope_mappings_law:
  assumes "invar s" "svc_save_scope_mappings ops ms s = (r, s')"
  shows "invar s'"
    and "if \<forall>m\<in>set ms. valid_scope_mapping m
         then write_meets (spec_save_scopes (map keep ms)) (policy_of s) (policy_of s') r
         else policy_of s' = policy_of s \<and> (\<exists>m\<in>set ms. \<exists>e. r = Err e \<and> validate_scope_mapping m = Err e)"
  using assms save_scopes_law [OF assms(1), of ms]
  by (auto simp: svc_save_scope_mappings_eq split: if_splits) (metis invalid_scope_batch)

lemma svc_update_scope_mapping_law:
  assumes "invar s" "svc_update_scope_mapping ops m s = (r, s')"
  shows "invar s'"
    and "if valid_scope_mapping m then write_meets (spec_update_scope (keep m)) (policy_of s) (policy_of s') r
         else policy_of s' = policy_of s \<and> (\<exists>e. r = Err e \<and> validate_scope_mapping m = Err e)"
  using assms update_scope_law [OF assms(1), of m]
  by (auto simp: svc_update_scope_mapping_eq split: if_splits elim: invalid_scope_mapping)

text \<open>Only valid mappings reach the store through the service.\<close>

lemma svc_writes_keep_valid:
  assumes "invar s" "policy_valid (policy_of s)" "valid_iter it"
  shows "policy_valid (policy_of (snd (svc_save it ops m s)))"
    and "policy_valid (policy_of (snd (svc_update it ops m s)))"
    and "policy_valid (policy_of (snd (svc_remove ops c p s)))"
    and "policy_valid (policy_of (snd (svc_remove_for ops c s)))"
    and "policy_valid (policy_of (snd (svc_save_scope_mappings ops ms s)))"
    and "policy_valid (policy_of (snd (svc_update_scope_mapping ops sm s)))"
    and "policy_valid (policy_of (snd (svc_delete_scope_mapping ops sc s)))"
proof -
  note keep = write_meets_preserves [where P = policy_valid, OF _ assms(2)]
  show "policy_valid (policy_of (snd (svc_save it ops m s)))"
    using save_law [OF assms(1), of m] assms keep policy_valid_mappings(1)
    by (cases "st_save_mapping ops m s") (auto simp: svc_save_eq)
  show "policy_valid (policy_of (snd (svc_update it ops m s)))"
    using update_law [OF assms(1), of m] assms keep policy_valid_mappings(2)
    by (cases "st_update_mapping ops m s") (auto simp: svc_update_eq)
  show "policy_valid (policy_of (snd (svc_remove ops c p s)))"
    using remove_law [OF assms(1), of c p] assms keep policy_valid_mappings(3)
    by (cases "st_remove_mapping ops c p s") (auto simp: svc_remove_def)
  show "policy_valid (policy_of (snd (svc_remove_for ops c s)))"
    using remove_for_law [OF assms(1), of c] assms keep policy_valid_mappings(4)
    by (cases "st_remove_mappings_for ops c s") (auto simp: svc_remove_for_def)
  show "policy_valid (policy_of (snd (svc_save_scope_mappings ops ms s)))"
    using save_scopes_law [OF assms(1), of ms] assms keep policy_valid_scopes(1) [of _ "map keep ms"]
    by (cases "st_save_scope_mappings ops ms s") (auto simp: svc_save_scope_mappings_eq keep_valid)
  show "policy_valid (policy_of (snd (svc_update_scope_mapping ops sm s)))"
    using update_scope_law [OF assms(1), of sm] assms keep policy_valid_scopes(2)
    by (cases "st_update_scope_mapping ops sm s") (auto simp: svc_update_scope_mapping_eq keep_valid)
  show "policy_valid (policy_of (snd (svc_delete_scope_mapping ops sc s)))"
    using remove_scope_law [OF assms(1), of sc] assms keep policy_valid_scopes(3)
    by (cases "st_remove_scope_mapping ops sc s") (auto simp: svc_delete_scope_mapping_def)
qed

end

lemma write_meets_frame:
  assumes "write_meets spec pol pol' r"
  shows "(pol_scopes (snd (spec pol)) = pol_scopes pol \<longrightarrow> pol_scopes pol' = pol_scopes pol)
       \<and> (pol_mappings (snd (spec pol)) = pol_mappings pol \<longrightarrow> pol_mappings pol' = pol_mappings pol)"
  using assms by (cases rule: write_meets_cases) (auto simp: prod_eq_iff)

lemma spec_frames:
  "pol_scopes (snd (spec_save m pol)) = pol_scopes pol" "pol_scopes (snd (spec_update m pol)) = pol_scopes pol"
  "pol_scopes (snd (spec_remove c p pol)) = pol_scopes pol" "pol_scopes (snd (spec_remove_for c pol)) = pol_scopes pol"
  "pol_mappings (snd (spec_save_scopes ms pol)) = pol_mappings pol"
  "pol_mappings (snd (spec_update_scope sm pol)) = pol_mappings pol"
  "pol_mappings (snd (spec_remove_scope sc pol)) = pol_mappings pol"
  by (auto simp: spec_mapping_defs spec_scope_defs split: option.split)

context store_contract begin

lemma svc_writes_keep_invar:
  assumes "invar s"
  shows "invar (snd (svc_save it ops m s))" "invar (snd (svc_update it ops m s))"
    "invar (snd (svc_remove ops c p s))" "invar (snd (svc_remove_for ops c s))"
    "invar (snd (svc_save_scope_mappings ops ms s))" "invar (snd (svc_update_scope_mapping ops sm s))"
    "invar (snd (svc_delete_scope_mapping ops sc s))"
    "invar (snd (svc_list_mappings ops s))" "invar (snd (svc_list_scope_mappings ops s))"
  using save_law [OF assms, of m] update_law [OF assms, of m] remove_law [OF assms, of c p]
    remove_for_law [OF assms, of c] save_scopes_law [OF assms, of ms] update_scope_law [OF assms, of sm]
    remove_scope_law [OF assms, of sc] list_law [OF assms] list_scopes_law [OF assms] assms
  by (auto simp: svc_save_def svc_update_def svc_remove_def svc_remove_for_def svc_save_scope_mappings_def
      svc_update_scope_mapping_def svc_delete_scope_mapping_def svc_list_mappings_def
      svc_list_scope_mappings_def split: result.split) (metis prod.collapse)+

text \<open>
  A write that answers with an error other than a database error, or does not reach the
  store, leaves the policy alone; writes of one half of the policy leave the other alone.
\<close>

lemma svc_reads_keep_policy:
  assumes "invar s"
  shows "policy_of (snd (svc_list_mappings ops s)) = policy_of s"
    "policy_of (snd (svc_list_scope_mappings ops s)) = policy_of s"
  using list_law [OF assms] list_scopes_law [OF assms]
  by (auto simp: svc_list_mappings_def svc_list_scope_mappings_def read_meets_def) (metis prod.collapse)+

lemma svc_mapping_writes_frame:
  assumes "invar s"
  shows "pol_scopes (policy_of (snd (svc_save it ops m s))) = pol_scopes (policy_of s)"
    "pol_scopes (policy_of (snd (svc_update it ops m s))) = pol_scopes (policy_of s)"
    "pol_scopes (policy_of (snd (svc_remove ops c p s))) = pol_scopes (policy_of s)"
    "pol_scopes (policy_of (snd (svc_remove_for ops c s))) = pol_scopes (policy_of s)"
  using save_law [OF assms, of m] update_law [OF assms, of m] remove_law [OF assms, of c p]
    remove_for_law [OF assms, of c] write_meets_frame spec_frames
  by (auto simp: svc_save_def svc_update_def svc_remove_def svc_remove_for_def split: result.split)
    (metis prod.collapse)+

lemma svc_scope_writes_frame:
  assumes "invar s"
  shows "pol_mappings (policy_of (snd (svc_save_scope_mappings ops ms s))) = pol_mappings (policy_of s)"
    "pol_mappings (policy_of (snd (svc_update_scope_mapping ops sm s))) = pol_mappings (policy_of s)"
    "pol_mappings (policy_of (snd (svc_delete_scope_mapping ops sc s))) = pol_mappings (policy_of s)"
  using save_scopes_law [OF assms, of ms] update_scope_law [OF assms, of sm]
    remove_scope_law [OF assms, of sc] write_meets_frame spec_frames
  by (auto simp: svc_save_scope_mappings_def svc_update_scope_mapping_def svc_delete_scope_mapping_def
      split: result.split) (metis prod.collapse)+

text \<open>An error answer that is not a database error means that nothing changed.\<close>

definition honest_error :: "(unit, resource_error) result \<times> 's \<Rightarrow> 's \<Rightarrow> bool" where
  "honest_error rs s \<longleftrightarrow>
     (\<forall>e. fst rs = Err e \<longrightarrow> policy_of (snd rs) = policy_of s \<or> (\<exists>msg. e = DatabaseError msg))"

lemma write_meets_honest:
  assumes "write_meets spec (policy_of s) (policy_of s') r"
    and "\<And>e. fst (spec (policy_of s)) = Err e \<Longrightarrow> snd (spec (policy_of s)) = policy_of s"
  shows "honest_error (r, s') s"
  using assms(1) by (cases rule: write_meets_cases) (use assms(2) in \<open>auto simp: honest_error_def prod_eq_iff\<close>)

lemma svc_writes_honest:
  assumes "invar s"
  shows "honest_error (svc_save it ops m s) s" "honest_error (svc_update it ops m s) s"
    "honest_error (svc_remove ops c p s) s" "honest_error (svc_remove_for ops c s) s"
    "honest_error (svc_save_scope_mappings ops ms s) s" "honest_error (svc_update_scope_mapping ops sm s) s"
    "honest_error (svc_delete_scope_mapping ops sc s) s"
proof -
  have same: "honest_error (r, s) s" for r by (simp add: honest_error_def)
  show "honest_error (svc_save it ops m s) s"
    using save_law [OF assms, of m] by (cases "st_save_mapping ops m s")
      (auto simp: svc_save_def spec_save_def same split: result.split if_splits intro!: write_meets_honest)
  show "honest_error (svc_update it ops m s) s"
    using update_law [OF assms, of m] by (cases "st_update_mapping ops m s")
      (auto simp: svc_update_def spec_update_def same split: result.split if_splits intro!: write_meets_honest)
  show "honest_error (svc_remove ops c p s) s"
    using remove_law [OF assms, of c p] by (cases "st_remove_mapping ops c p s")
      (auto simp: svc_remove_def spec_remove_def intro!: write_meets_honest)
  show "honest_error (svc_remove_for ops c s) s"
    using remove_for_law [OF assms, of c] by (cases "st_remove_mappings_for ops c s")
      (auto simp: svc_remove_for_def spec_remove_for_def intro!: write_meets_honest)
  show "honest_error (svc_save_scope_mappings ops ms s) s"
    using save_scopes_law [OF assms, of ms] by (cases "st_save_scope_mappings ops ms s")
      (auto simp: svc_save_scope_mappings_def spec_save_scopes_def same
        split: result.split option.splits intro!: write_meets_honest)
  show "honest_error (svc_update_scope_mapping ops sm s) s"
    using update_scope_law [OF assms, of sm] by (cases "st_update_scope_mapping ops sm s")
      (auto simp: svc_update_scope_mapping_def spec_update_scope_def same
        split: result.split if_splits intro!: write_meets_honest)
  show "honest_error (svc_delete_scope_mapping ops sc s) s"
    using remove_scope_law [OF assms, of sc] by (cases "st_remove_scope_mapping ops sc s")
      (auto simp: svc_delete_scope_mapping_def spec_remove_scope_def intro!: write_meets_honest)
qed

end

context reliable_store begin

lemma svc_verify_reliable:
  assumes "invar s" "svc_verify ops c p ss s = (r, s')"
  shows "no_db_error r"
proof -
  obtain r1 s1 where res: "st_resolve_mapping ops c p s = (r1, s1)"
    by (cases "st_resolve_mapping ops c p s")
  with resolve_exact(1) [OF assms(1) res] have r1: "r1 = Ok (spec_resolve (policy_of s) c p)" by simp
  show ?thesis
  proof (cases "spec_resolve (policy_of s) c p")
    case None
    with assms(2) res r1 show ?thesis by (auto simp: svc_verify_def no_db_error_def Let_def)
  next
    case (Some pair)
    show ?thesis
      by (rule expand_scopes_verdict [of "mp_scope_mappings pair" "btree_set ss"])
        (use assms(2) res r1 Some in \<open>auto simp: svc_verify_def no_db_error_def Let_def split: if_splits\<close>)
  qed
qed

lemma svc_verify_grants:
  assumes "invar s" "pol_mappings (policy_of s) (c, p) = Some m" "set ss \<subseteq> fset (rm_scopes m)"
    and "\<forall>k. combinable (values_of k (contributed (pol_scopes (policy_of s)) (btree_set ss)))"
  obtains vr s' where "svc_verify ops c p ss s = (Ok vr, s')" "vr_verified vr"
proof -
  obtain r s' where sv: "svc_verify ops c p ss s = (r, s')" by (cases "svc_verify ops c p ss s")
  have "\<exists>vr. r = Ok vr \<and> vr_verified vr"
    using svc_verify_law(3) [OF assms(1) sv] svc_verify_reliable [OF assms(1) sv] assms(2-4)
    by (auto simp: verify_meets_def no_db_error_def)
  with sv that show ?thesis by blast
qed

end

end
