(* ===== verification/Jwt_Types.thy ===== *)
theory Jwt_Types
  imports Json_Value
begin

section \<open>Tokens, verifiers and generators\<close>

text \<open>
  The vocabulary the program shares with the JWT crate it depends on: the claims of a
  token with the fields the program reads and writes, and the errors of a verifier. Of the
  crate's error type the program names two variants; every other one is an opaque tag.

  A verifier (\<^verbatim>\<open>dyn JwtVerifier\<close>) maps an expected audience and a token to claims,
  over a state of its own. Its contract is a locale: accepted claims are for the audience
  asked for, and an authority vouched for the subject. The verifier the program provides
  is the one of \<^verbatim>\<open>crates/jwtlet-core/src/k8s\<close>; the exchange and the management API
  are its clients.
\<close>

text \<open>The custom claim that carries the caller's Kubernetes UID, shared by verifier and exchange.\<close>

definition K8S_UID_CLAIM :: str where
  "K8S_UID_CLAIM = lit ''k8s_uid''"

record token_claims =
  tc_sub :: str
  tc_iss :: str
  tc_aud :: str
  tc_iat :: i64
  tc_exp :: i64
  tc_nbf :: "i64 option"
  tc_custom :: json_map

datatype jwt_verification_error =
    VerificationFailed str
  | InvalidSignature
  | OtherVerificationError nat

type_synonym 'v verifier =
  "str \<Rightarrow> str \<Rightarrow> 'v \<Rightarrow> (token_claims, jwt_verification_error) result \<times> 'v"

type_synonym 'g generator = "str \<Rightarrow> token_claims \<Rightarrow> (str, 'g) result"

locale token_verifier =
  fixes verify_token :: "'v verifier"
    and vouched :: "'v \<Rightarrow> str \<Rightarrow> str \<Rightarrow> token_claims \<Rightarrow> bool"
  assumes accepted_vouched: "verify_token aud tok v = (Ok cl, v') \<Longrightarrow> vouched v aud tok cl"
    and vouched_audience: "vouched v aud tok cl \<Longrightarrow> tc_aud cl = aud"
begin

lemma accepted_audience: "verify_token aud tok v = (Ok cl, v') \<Longrightarrow> tc_aud cl = aud"
  using accepted_vouched vouched_audience by blast

lemma audiences_separate:
  assumes "verify_token aud1 tok v1 = (Ok cl, v1')" "aud1 \<noteq> aud2"
  shows "\<not> vouched v2 aud2 tok2 cl"
  using assms accepted_audience vouched_audience by blast

end

end
