(* ===== verification/Token_Exchange.thy ===== *)
theory Token_Exchange
  imports Resource_Service Jwt_Types
begin

section \<open>The token exchange service\<close>

text \<open>
  \<^verbatim>\<open>crates/jwtlet-core/src/token/mod.rs\<close>. A service holds its configuration, a
  verifier, the store behind its resource service and a generator. The verifier and the
  store have states; the generator, the clock and the random identifier are arguments.
  The first half models the code, the second states what an issued token carries.
\<close>

definition MAX_TOKEN_TTL_SECS :: i64 where
  "MAX_TOKEN_TTL_SECS = 86400"

record ('v, 's, 'g) token_exchange_service =
  te_client_audience :: str
  te_audience :: str
  te_issuer :: str
  te_jwtlet_participant_context :: str
  te_token_ttl_secs :: i64
  te_verifier :: "'v verifier"
  te_resource_service :: "'s resource_store"
  te_generator :: "'g generator"

datatype 'g exchange_error =
    TokenVerification jwt_verification_error
  | Unauthorized
  | ServiceError resource_error
  | ScopeConflict str
  | Generation 'g

definition resolve_audience :: "str option \<Rightarrow> str fset \<Rightarrow> str \<Rightarrow> (str, 'g exchange_error) result" where
  "resolve_audience requested allowed dflt =
     (case requested of
        None \<Rightarrow>
          (if allowed = {||} then Ok dflt
           else if dflt |\<in>| allowed then Ok dflt
           else Err Unauthorized)
      | Some req \<Rightarrow>
          (if allowed = {||} \<and> req = dflt then Ok req
           else if allowed = {||} then Err Unauthorized
           else if req |\<in>| allowed then Ok req
           else Err Unauthorized))"

text \<open>The loop that copies the verified claims into the token, reserved keys left out.\<close>

fun copy_unreserved :: "(str, json) hash_map \<Rightarrow> json_map \<Rightarrow> json_map" where
  "copy_unreserved [] custom = custom"
| "copy_unreserved ((k, v) # kvs) custom =
     (if is_reserved_claim k then copy_unreserved kvs custom
      else copy_unreserved kvs (map_insert k v custom))"

definition actor_claim :: "token_claims \<Rightarrow> json" where
  "actor_claim client =
     (let act = json_object [(lit ''sub'', JString (tc_sub client)), (lit ''iss'', JString (tc_iss client))] in
      case map_of (tc_custom client) K8S_UID_CLAIM of
        None \<Rightarrow> act
      | Some uid \<Rightarrow> json_set K8S_UID_CLAIM uid act)"

definition token_custom :: "(str, json) hash_map \<Rightarrow> token_claims \<Rightarrow> str \<Rightarrow> json_map" where
  "token_custom cs client jti =
     map_insert (lit ''jti'') (JString jti)
       (map_insert (lit ''act'') (actor_claim client) (copy_unreserved cs []))"

definition participant_claims ::
    "('v, 's, 'g) token_exchange_service \<Rightarrow> i64 \<Rightarrow> str \<Rightarrow> str \<Rightarrow> json_map \<Rightarrow> token_claims" where
  "participant_claims svc now context aud custom =
     \<lparr>tc_sub = context, tc_iss = te_issuer svc, tc_aud = aud, tc_iat = now,
      tc_exp = now + te_token_ttl_secs svc, tc_nbf = Some now, tc_custom = custom\<rparr>"

text \<open>
  The whole exchange. \<open>now\<close> is the clock and \<open>jti\<close> the fresh UUID. The addition of the
  expiry wraps as in a release build; the bounds below show when it does not.
\<close>

definition exchange_token ::
    "('v, 's, 'g) token_exchange_service \<Rightarrow> i64 \<Rightarrow> str \<Rightarrow> str \<Rightarrow> str list \<Rightarrow> str \<Rightarrow> str option
       \<Rightarrow> 'v \<times> 's \<Rightarrow> (str, 'g exchange_error) result \<times> ('v \<times> 's)" where
  "exchange_token svc now jti context scopes auth_token audience vs =
     (case te_verifier svc (te_client_audience svc) auth_token (fst vs) of
        (Err e, v') \<Rightarrow> (Err (TokenVerification e), (v', snd vs))
      | (Ok client, v') \<Rightarrow>
          (case svc_verify (te_resource_service svc) (tc_sub client) context scopes (snd vs) of
             (Err (ClaimConflict msg), s') \<Rightarrow> (Err (ScopeConflict msg), (v', s'))
           | (Err e, s') \<Rightarrow> (Err (ServiceError e), (v', s'))
           | (Ok vr, s') \<Rightarrow>
               (if \<not> vr_verified vr then (Err Unauthorized, (v', s'))
                else
                  (and_then (resolve_audience audience (vr_audiences vr) (te_audience svc)) (\<lambda>aud.
                     map_err Generation
                       (te_generator svc (te_jwtlet_participant_context svc)
                          (participant_claims svc now context aud (token_custom (vr_claims vr) client jti)))),
                   (v', s')))))"

subsection \<open>The audience\<close>

lemma resolve_audience_Ok_iff:
  "resolve_audience req allowed d = Ok a \<longleftrightarrow>
     a = (case req of None \<Rightarrow> d | Some r \<Rightarrow> r) \<and> (if allowed = {||} then a = d else a |\<in>| allowed)"
  by (auto simp: resolve_audience_def split: option.splits)

lemma resolve_audience_ErrD: "resolve_audience req allowed d = Err e \<Longrightarrow> e = Unauthorized"
  by (auto simp: resolve_audience_def split: option.splits if_splits)

subsection \<open>The custom claims\<close>

lemma map_of_copy_unreserved:
  "hash_map_ok cs \<Longrightarrow> map_of (copy_unreserved cs m) k =
     (if is_reserved_claim k \<or> k \<notin> fst ` set cs then map_of m k else map_of cs k)"
  by (induction cs m rule: copy_unreserved.induct) (auto simp: hash_map_ok_def)

lemma keys_copy_unreserved:
  "fst ` set (copy_unreserved cs m) = fst ` set m \<union> {k \<in> fst ` set cs. \<not> is_reserved_claim k}"
  by (induction cs m rule: copy_unreserved.induct) auto

lemma btree_ok_copy_unreserved: "btree_ok m \<Longrightarrow> btree_ok (copy_unreserved cs m)"
  by (induction cs m rule: copy_unreserved.induct) auto

lemma btree_ok_token_custom: "btree_ok (token_custom cs client jti)"
  by (simp add: token_custom_def btree_ok_copy_unreserved)

lemma map_of_copy_unreserved_Nil:
  "hash_map_ok cs \<Longrightarrow> map_of (copy_unreserved cs []) k = (if is_reserved_claim k then None else map_of cs k)"
  by (auto simp: map_of_copy_unreserved map_of_eq_None_iff [THEN iffD2])

lemma reserved_literals [simp]:
  "is_reserved_claim (lit ''sub'')" "is_reserved_claim (lit ''iss'')" "is_reserved_claim (lit ''aud'')"
  "is_reserved_claim (lit ''exp'')" "is_reserved_claim (lit ''iat'')" "is_reserved_claim (lit ''nbf'')"
  "is_reserved_claim (lit ''act'')" "is_reserved_claim (lit ''jti'')"
  by (simp_all add: is_reserved_claim_iff)

lemma map_of_token_custom:
  assumes "hash_map_ok cs"
  shows "map_of (token_custom cs client jti) k =
     (if k = lit ''jti'' then Some (JString jti)
      else if k = lit ''act'' then Some (actor_claim client)
      else if is_reserved_claim k then None
      else map_of cs k)"
  using assms by (simp add: token_custom_def map_of_copy_unreserved_Nil)

text \<open>
  Whatever the store contributed, the reserved keys of the custom claims are exactly the
  two the service sets itself.
\<close>

lemma reserved_keys_token_custom:
  "{k \<in> fst ` set (token_custom cs client jti). is_reserved_claim k} = {lit ''act'', lit ''jti''}"
  by (auto simp: token_custom_def keys_copy_unreserved)

lemma actor_claim_sub: "json_get (lit ''sub'') (actor_claim client) = Some (JString (tc_sub client))"
  by (auto simp: actor_claim_def json_object_def K8S_UID_CLAIM_def Let_def split: option.split)

lemma actor_claim_iss: "json_get (lit ''iss'') (actor_claim client) = Some (JString (tc_iss client))"
  by (auto simp: actor_claim_def json_object_def K8S_UID_CLAIM_def Let_def split: option.split)

lemma actor_claim_uid:
  "json_get K8S_UID_CLAIM (actor_claim client) = map_of (tc_custom client) K8S_UID_CLAIM"
  by (auto simp: actor_claim_def json_object_def K8S_UID_CLAIM_def Let_def split: option.split)

subsection \<open>Expiry\<close>

lemma sint_add_no_overflow:
  fixes a b :: i64
  assumes "- (2 ^ 63) \<le> sint a + sint b" "sint a + sint b < 2 ^ 63"
  shows "sint (a + b) = sint a + sint b"
  using assms by (simp add: sint_word_ariths signed_take_bit_int_eq_self)

lemma expiry_exact:
  fixes now ttl :: i64
  assumes "0 < sint ttl" "sint ttl \<le> sint MAX_TOKEN_TTL_SECS" "sint now < 2 ^ 63 - 86400"
  shows "sint (now + ttl) = sint now + sint ttl"
proof (rule sint_add_no_overflow)
  have "- (2 ^ 63) \<le> sint now"
    using sint_ge [of now] by simp
  with assms(1) show "- (2 ^ 63) \<le> sint now + sint ttl" by linarith
  from assms show "sint now + sint ttl < 2 ^ 63"
    by (simp add: MAX_TOKEN_TTL_SECS_def)
qed

subsection \<open>What an issued token carries\<close>

text \<open>
  The claims of a token issued to an authenticated client, against the abstract policy:
  a mapping for the client and the context, all requested scopes granted by it, an audience
  the mapping permits, the fixed claims, and for every custom key either what the service
  sets or what the requested scopes contribute.
\<close>

definition audience_permitted :: "resource_mapping \<Rightarrow> str \<Rightarrow> str option \<Rightarrow> str \<Rightarrow> bool" where
  "audience_permitted m dflt requested aud \<longleftrightarrow>
     aud = (case requested of None \<Rightarrow> dflt | Some a \<Rightarrow> a)
     \<and> (if rm_audiences m = {||} then aud = dflt else aud |\<in>| rm_audiences m)"

definition custom_claim ::
    "policy \<Rightarrow> str list \<Rightarrow> token_claims \<Rightarrow> str \<Rightarrow> str \<Rightarrow> json option" where
  "custom_claim pol scopes client jti k =
     (if k = lit ''jti'' then Some (JString jti)
      else if k = lit ''act'' then Some (actor_claim client)
      else if is_reserved_claim k then None
      else combine (values_of k (contributed (pol_scopes pol) (btree_set scopes))))"

definition issued_claims ::
    "('v, 's, 'g) token_exchange_service \<Rightarrow> policy \<Rightarrow> i64 \<Rightarrow> str \<Rightarrow> str \<Rightarrow> str list \<Rightarrow> str option
       \<Rightarrow> token_claims \<Rightarrow> token_claims \<Rightarrow> bool" where
  "issued_claims svc pol now jti context scopes audience client cl \<longleftrightarrow>
     (\<exists>m. pol_mappings pol (tc_sub client, context) = Some m
        \<and> set scopes \<subseteq> fset (rm_scopes m)
        \<and> audience_permitted m (te_audience svc) audience (tc_aud cl))
     \<and> (\<forall>k. combinable (values_of k (contributed (pol_scopes pol) (btree_set scopes))))
     \<and> tc_sub cl = context \<and> tc_iss cl = te_issuer svc
     \<and> tc_iat cl = now \<and> tc_nbf cl = Some now \<and> tc_exp cl = now + te_token_ttl_secs svc
     \<and> btree_ok (tc_custom cl)
     \<and> (\<forall>k. map_of (tc_custom cl) k = custom_claim pol scopes client jti k)"

text \<open>The claims are determined: two tokens for the same request carry the same claims.\<close>

lemma issued_claims_unique:
  assumes "issued_claims svc pol now jti context scopes audience client a"
    and "issued_claims svc pol now jti context scopes audience client b"
  shows "a = b"
proof -
  have "tc_custom a = tc_custom b"
    using assms by (intro btree_ok_unique ext) (auto simp: issued_claims_def)
  moreover have "tc_aud a = tc_aud b"
    using assms by (auto simp: issued_claims_def audience_permitted_def)
  ultimately show ?thesis
    using assms by (simp add: issued_claims_def)
qed

lemma issued_claims_build:
  assumes "pol_mappings pol (tc_sub client, context) = Some m"
    and "set scopes \<subseteq> fset (rm_scopes m)"
    and "\<forall>k. combinable (values_of k (contributed (pol_scopes pol) (btree_set scopes)))"
    and "\<forall>k. map_of cs k = combine (values_of k (contributed (pol_scopes pol) (btree_set scopes)))"
    and "hash_map_ok cs"
    and "resolve_audience audience (rm_audiences m) (te_audience svc) = (Ok aud :: (str, 'g exchange_error) result)"
  shows "issued_claims (svc :: ('v, 's, 'g) token_exchange_service) pol now jti context scopes audience client
    (participant_claims svc now context aud (token_custom cs client jti))"
  using assms
  by (auto simp: issued_claims_def participant_claims_def btree_ok_token_custom map_of_token_custom
      custom_claim_def resolve_audience_Ok_iff audience_permitted_def split: if_splits)

text \<open>A verification that meets a policy, followed by the choice of the audience.\<close>

lemma verify_meets_verified:
  assumes "verify_meets pol c p ss (Ok vr)" "vr_verified vr"
  obtains m where "pol_mappings pol (c, p) = Some m" "set ss \<subseteq> fset (rm_scopes m)"
    "\<forall>k. combinable (values_of k (contributed (pol_scopes pol) (btree_set ss)))"
    "\<forall>k. map_of (vr_claims vr) k = combine (values_of k (contributed (pol_scopes pol) (btree_set ss)))"
    "hash_map_ok (vr_claims vr)" "vr_audiences vr = rm_audiences m"
  using assms by (auto simp: verify_meets_def unverified_def split: option.splits if_splits)

lemma verify_meets_issued:
  fixes svc :: "('v, 's, 'g) token_exchange_service"
  assumes "verify_meets pol (tc_sub client) context scopes (Ok vr)" "vr_verified vr"
    and "resolve_audience audience (vr_audiences vr) (te_audience svc) = (Ok aud :: (str, 'g exchange_error) result)"
  shows "issued_claims svc pol now jti context scopes audience client
    (participant_claims svc now context aud (token_custom (vr_claims vr) client jti))"
  by (rule verify_meets_verified [OF assms(1,2)]) (use assms(3) in \<open>auto intro: issued_claims_build\<close>)

text \<open>An exchange that reaches the generator; the four ways it may stop before that.\<close>

lemma exchange_token_cases:
  fixes svc :: "('v, 's, 'g) token_exchange_service"
  assumes "exchange_token svc now jti context scopes tok audience (v, s) = (r, vs')"
  obtains (unverified_token) e v' where
      "te_verifier svc (te_client_audience svc) tok v = (Err e, v')" "r = Err (TokenVerification e)" "vs' = (v', s)"
    | (conflict) client v' msg s' where
      "te_verifier svc (te_client_audience svc) tok v = (Ok client, v')"
      "svc_verify (te_resource_service svc) (tc_sub client) context scopes s = (Err (ClaimConflict msg), s')"
      "r = Err (ScopeConflict msg)" "vs' = (v', s')"
    | (store_error) client v' e s' where
      "te_verifier svc (te_client_audience svc) tok v = (Ok client, v')"
      "svc_verify (te_resource_service svc) (tc_sub client) context scopes s = (Err e, s')"
      "\<nexists>msg. e = ClaimConflict msg" "r = Err (ServiceError e)" "vs' = (v', s')"
    | (refused) client v' vr s' where
      "te_verifier svc (te_client_audience svc) tok v = (Ok client, v')"
      "svc_verify (te_resource_service svc) (tc_sub client) context scopes s = (Ok vr, s')"
      "\<not> vr_verified vr \<or> resolve_audience audience (vr_audiences vr) (te_audience svc)
         = (Err Unauthorized :: (str, 'g exchange_error) result)"
      "r = Err Unauthorized" "vs' = (v', s')"
    | (generated) client v' vr s' aud where
      "te_verifier svc (te_client_audience svc) tok v = (Ok client, v')"
      "svc_verify (te_resource_service svc) (tc_sub client) context scopes s = (Ok vr, s')"
      "vr_verified vr"
      "resolve_audience audience (vr_audiences vr) (te_audience svc) = (Ok aud :: (str, 'g exchange_error) result)"
      "r = map_err Generation (te_generator svc (te_jwtlet_participant_context svc)
             (participant_claims svc now context aud (token_custom (vr_claims vr) client jti)))"
      "vs' = (v', s')"
proof -
  obtain rv v' where ver: "te_verifier svc (te_client_audience svc) tok v = (rv, v')"
    by (cases "te_verifier svc (te_client_audience svc) tok v")
  show ?thesis
  proof (cases rv)
    case (Err e)
    with assms ver show ?thesis
      by (intro unverified_token) (auto simp: exchange_token_def)
  next
    case (Ok client)
    obtain rs s' where sv: "svc_verify (te_resource_service svc) (tc_sub client) context scopes s = (rs, s')"
      by (cases "svc_verify (te_resource_service svc) (tc_sub client) context scopes s")
    show ?thesis
    proof (cases rs)
      case (Err e)
      then show ?thesis
        using assms ver Ok sv conflict store_error
        by (cases e) (auto simp: exchange_token_def)
    next
      case Ok': (Ok vr)
      define ra :: "(str, 'g exchange_error) result"
        where "ra = resolve_audience audience (vr_audiences vr) (te_audience svc)"
      show ?thesis
      proof (cases "vr_verified vr \<and> is_ok ra")
        case True
        then obtain aud where "ra = Ok aud" by (auto simp: is_ok_iff)
        with True show ?thesis
          using assms ver Ok sv Ok' unfolding ra_def by (intro generated) (auto simp: exchange_token_def)
      next
        case False
        then have "\<not> vr_verified vr \<or> ra = Err Unauthorized"
          by (cases ra) (auto simp: ra_def dest: resolve_audience_ErrD)
        then show ?thesis
          using assms ver Ok sv Ok' unfolding ra_def by (intro refused) (auto simp: exchange_token_def split: if_splits)
      qed
    qed
  qed
qed

subsection \<open>The exchange over any store and any verifier\<close>

text \<open>
  The exchange relies on two contracts at once: the store of its resource service and its
  verifier. Soundness says what a returned token proves; over a reliable store the exchange
  is also complete.
\<close>

locale exchange_setting =
  store: store_contract "te_resource_service svc" policy_of invar keep +
  ver: token_verifier "te_verifier svc" vouched
  for svc :: "('v, 's, 'g) token_exchange_service"
    and policy_of :: "'s \<Rightarrow> policy" and invar :: "'s \<Rightarrow> bool"
    and keep :: "scope_mapping \<Rightarrow> scope_mapping"
    and vouched :: "'v \<Rightarrow> str \<Rightarrow> str \<Rightarrow> token_claims \<Rightarrow> bool"
begin

lemmas verified_claims = verify_meets_verified [OF store.svc_verify_law(3)]

lemma exchange_state:
  assumes "invar s" "exchange_token svc now jti context scopes tok audience (v, s) = (r, (v', s'))"
  shows "invar s' \<and> policy_of s' = policy_of s"
  using assms(2)
  by (rule exchange_token_cases) (use assms(1) in \<open>auto dest: store.svc_verify_law(1,2)\<close>)

lemma exchange_sound:
  assumes "invar s" "exchange_token svc now jti context scopes tok audience (v, s) = (Ok jwt, vs')"
  shows "\<exists>client cl. vouched v (te_client_audience svc) tok client
    \<and> issued_claims svc (policy_of s) now jti context scopes audience client cl
    \<and> te_generator svc (te_jwtlet_participant_context svc) cl = Ok jwt"
  using assms(2)
proof (rule exchange_token_cases)
  fix client v' vr s' aud
  assume ver: "te_verifier svc (te_client_audience svc) tok v = (Ok client, v')"
    and sv: "svc_verify (te_resource_service svc) (tc_sub client) context scopes s = (Ok vr, s')" "vr_verified vr"
    and aud: "resolve_audience audience (vr_audiences vr) (te_audience svc) = (Ok aud :: (str, 'g exchange_error) result)"
    and gen: "Ok jwt = map_err Generation (te_generator svc (te_jwtlet_participant_context svc)
        (participant_claims svc now context aud (token_custom (vr_claims vr) client jti)))"
  have "issued_claims svc (policy_of s) now jti context scopes audience client
      (participant_claims svc now context aud (token_custom (vr_claims vr) client jti))"
    by (rule verify_meets_issued [OF store.svc_verify_law(3) [OF assms(1) sv(1)] sv(2) aud])
  moreover have "te_generator svc (te_jwtlet_participant_context svc)
      (participant_claims svc now context aud (token_custom (vr_claims vr) client jti)) = Ok jwt"
    using gen by simp
  ultimately show ?thesis
    using ver.accepted_vouched [OF ver] by blast
qed auto

end

locale reliable_exchange = exchange_setting svc policy_of invar keep vouched +
  rel: reliable_store "te_resource_service svc" policy_of invar keep
  for svc :: "('v, 's, 'g) token_exchange_service"
    and policy_of :: "'s \<Rightarrow> policy" and invar :: "'s \<Rightarrow> bool"
    and keep :: "scope_mapping \<Rightarrow> scope_mapping"
    and vouched :: "'v \<Rightarrow> str \<Rightarrow> str \<Rightarrow> token_claims \<Rightarrow> bool"
begin

lemma exchange_complete:
  assumes inv: "invar s"
    and ver: "te_verifier svc (te_client_audience svc) tok v = (Ok client, v')"
    and iss: "issued_claims svc (policy_of s) now jti context scopes audience client cl"
  shows "fst (exchange_token svc now jti context scopes tok audience (v, s))
       = map_err Generation (te_generator svc (te_jwtlet_participant_context svc) cl)"
proof -
  obtain m where m: "pol_mappings (policy_of s) (tc_sub client, context) = Some m" "set scopes \<subseteq> fset (rm_scopes m)"
      "audience_permitted m (te_audience svc) audience (tc_aud cl)"
    and comb: "\<forall>k. combinable (values_of k (contributed (pol_scopes (policy_of s)) (btree_set scopes)))"
    using iss by (auto simp: issued_claims_def)
  obtain vr s' where sv: "svc_verify (te_resource_service svc) (tc_sub client) context scopes s = (Ok vr, s')"
      "vr_verified vr"
    by (rule rel.svc_verify_grants [OF inv m(1,2) comb])
  have aud: "resolve_audience audience (vr_audiences vr) (te_audience svc) = (Ok (tc_aud cl) :: (str, 'g exchange_error) result)"
    by (rule verified_claims [OF inv sv]) (use m in \<open>auto simp: resolve_audience_Ok_iff audience_permitted_def split: if_splits\<close>)
  let ?cl = "participant_claims svc now context (tc_aud cl) (token_custom (vr_claims vr) client jti)"
  have "issued_claims svc (policy_of s) now jti context scopes audience client ?cl"
    by (rule verify_meets_issued [OF store.svc_verify_law(3) [OF inv sv(1)] sv(2) aud])
  then have "?cl = cl"
    using iss by (rule issued_claims_unique)
  with ver sv aud show ?thesis
    by (simp add: exchange_token_def)
qed

end

end
