(* ===== verification/Exchange_Api.thy ===== *)
theory Exchange_Api
  imports Token_Exchange
begin

section \<open>The token exchange endpoint\<close>

text \<open>
  \<^verbatim>\<open>crates/jwtlet-server/src/exchange\<close>: the RFC 8693 form, the handler of
  \<^verbatim>\<open>POST /token\<close>, its response and the mapping of errors to OAuth error codes.
\<close>

record token_exchange_form =
  ef_grant_type :: str
  ef_subject_token :: str
  ef_subject_token_type :: str
  ef_resource :: str
  ef_scope :: "str option"
  ef_audience :: "str option"

record token_exchange_response =
  er_access_token :: str
  er_issued_token_type :: str
  er_token_type :: str
  er_expires_in :: i64
  er_scope :: "str option"

datatype 'g exchange_api_error =
    UnsupportedGrantType str
  | UnsupportedTokenType str
  | ExchangeFailed "'g exchange_error"

definition TOKEN_EXCHANGE_GRANT_TYPE :: str where
  "TOKEN_EXCHANGE_GRANT_TYPE = lit ''urn:ietf:params:oauth:grant-type:token-exchange''"

definition ISSUED_TOKEN_TYPE :: str where
  "ISSUED_TOKEN_TYPE = lit ''urn:ietf:params:oauth:token-type:jwt''"

text \<open>The requested scopes as a sorted set, and the scope string of the response.\<close>

definition requested_scopes :: "token_exchange_form \<Rightarrow> str list" where
  "requested_scopes form = btree_set (split_whitespace (case ef_scope form of None \<Rightarrow> [] | Some s \<Rightarrow> s))"

definition granted_scope :: "str list \<Rightarrow> str option" where
  "granted_scope scopes = (if scopes \<noteq> [] then Some (join (lit '' '') scopes) else None)"

definition token_exchange ::
    "('v, 's, 'g) token_exchange_service \<Rightarrow> i64 \<Rightarrow> str \<Rightarrow> token_exchange_form \<Rightarrow> 'v \<times> 's
       \<Rightarrow> (nat \<times> token_exchange_response, 'g exchange_api_error) result \<times> ('v \<times> 's)" where
  "token_exchange svc now jti form vs =
     (if ef_grant_type form \<noteq> TOKEN_EXCHANGE_GRANT_TYPE
      then (Err (UnsupportedGrantType (ef_grant_type form)), vs)
      else if ef_subject_token_type form \<noteq> ISSUED_TOKEN_TYPE
      then (Err (UnsupportedTokenType (ef_subject_token_type form)), vs)
      else
        (let scopes = requested_scopes form in
         case exchange_token svc now jti (ef_resource form) scopes (ef_subject_token form) (ef_audience form) vs of
           (r, vs') \<Rightarrow>
             (and_then (map_err ExchangeFailed r) (\<lambda>token.
                Ok (200, \<lparr>er_access_token = token, er_issued_token_type = ISSUED_TOKEN_TYPE,
                         er_token_type = lit ''Bearer'', er_expires_in = te_token_ttl_secs svc,
                         er_scope = granted_scope scopes\<rparr>)), vs')))"

subsection \<open>Error responses\<close>

fun exchange_error_status :: "'g exchange_api_error \<Rightarrow> nat \<times> str" where
  "exchange_error_status (UnsupportedGrantType _) = (400, lit ''unsupported_grant_type'')"
| "exchange_error_status (UnsupportedTokenType _) = (400, lit ''invalid_request'')"
| "exchange_error_status (ExchangeFailed (TokenVerification _)) = (400, lit ''invalid_grant'')"
| "exchange_error_status (ExchangeFailed Unauthorized) = (403, lit ''unauthorized_client'')"
| "exchange_error_status (ExchangeFailed (ScopeConflict _)) = (400, lit ''invalid_scope'')"
| "exchange_error_status (ExchangeFailed (ServiceError _)) = (500, lit ''server_error'')"
| "exchange_error_status (ExchangeFailed (Generation _)) = (500, lit ''server_error'')"

text \<open>\<^verbatim>\<open>OAuthErrorResponse\<close>: the description is never set, so it is not serialized.\<close>

definition oauth_error_body :: "str \<Rightarrow> json" where
  "oauth_error_body code = json_object [(lit ''error'', JString code)]"

definition exchange_error_response :: "'g exchange_api_error \<Rightarrow> nat \<times> json" where
  "exchange_error_response e = (case exchange_error_status e of (status, code) \<Rightarrow> (status, oauth_error_body code))"

definition number_of_i64 :: "i64 \<Rightarrow> json" where
  "number_of_i64 n = JNumber (if 0 \<le> sint n then PosInt n else NegInt n)"

definition exchange_response_body :: "token_exchange_response \<Rightarrow> json" where
  "exchange_response_body r =
     json_object
       ([(lit ''access_token'', JString (er_access_token r)),
         (lit ''issued_token_type'', JString (er_issued_token_type r)),
         (lit ''token_type'', JString (er_token_type r)),
         (lit ''expires_in'', number_of_i64 (er_expires_in r))]
        @ (case er_scope r of None \<Rightarrow> [] | Some s \<Rightarrow> [(lit ''scope'', JString s)]))"

text \<open>What a client sees: the status and the JSON body.\<close>

definition post_token ::
    "('v, 's, 'g) token_exchange_service \<Rightarrow> i64 \<Rightarrow> str \<Rightarrow> token_exchange_form \<Rightarrow> 'v \<times> 's
       \<Rightarrow> (nat \<times> json) \<times> ('v \<times> 's)" where
  "post_token svc now jti form vs =
     (case token_exchange svc now jti form vs of
        (Ok (status, r), vs') \<Rightarrow> ((status, exchange_response_body r), vs')
      | (Err e, vs') \<Rightarrow> (exchange_error_response e, vs'))"

subsection \<open>Facts about the endpoint\<close>

lemma requested_scopes_words: "sc \<in> set (requested_scopes form) \<Longrightarrow> is_word sc"
  by (auto simp: requested_scopes_def dest: split_whitespace_words)

lemma requested_scopes_normal [simp]: "btree_set (requested_scopes form) = requested_scopes form"
  by (simp add: requested_scopes_def)

lemma requested_scopes_sorted: "sorted (requested_scopes form)" "distinct (requested_scopes form)"
  by (simp_all add: requested_scopes_def)

lemma lit_space: "lit '' '' = [32]"
  by (simp add: lit_def)

text \<open>Requesting the scope string of a response asks for exactly the granted scopes again.\<close>

lemma granted_scope_roundtrip:
  assumes "ef_scope form' = granted_scope (requested_scopes form)"
  shows "requested_scopes form' = requested_scopes form"
proof -
  have split: "split_whitespace (join [32] (requested_scopes form)) = requested_scopes form"
    by (rule split_whitespace_join) (auto dest: requested_scopes_words)
  have nil: "split_whitespace [] = []" by (simp add: split_whitespace_def)
  show ?thesis
  proof (cases "requested_scopes form = []")
    case True
    with assms show ?thesis
      by (subst requested_scopes_def) (simp add: granted_scope_def nil)
  next
    case False
    with assms show ?thesis
      by (subst requested_scopes_def) (simp add: granted_scope_def lit_space split)
  qed
qed

lemma token_exchange_OkD:
  assumes "token_exchange svc now jti form vs = (Ok (status, resp), vs')"
  shows "exchange_token svc now jti (ef_resource form) (requested_scopes form) (ef_subject_token form)
           (ef_audience form) vs = (Ok (er_access_token resp), vs')"
    and "status = 200" "ef_grant_type form = TOKEN_EXCHANGE_GRANT_TYPE"
    and "ef_subject_token_type form = ISSUED_TOKEN_TYPE"
    and "er_scope resp = granted_scope (requested_scopes form)"
    and "er_expires_in resp = te_token_ttl_secs svc"
  using assms
  by (auto simp: token_exchange_def Let_def and_then_Ok_iff split: if_splits prod.splits)

lemma exchange_error_status_range: "fst (exchange_error_status e) \<in> {400, 403, 500}"
  by (cases e rule: exchange_error_status.cases) auto

end
