(* ===== verification/Server_Config.thy ===== *)
theory Server_Config
  imports Token_Exchange
begin

section \<open>Configuration\<close>

text \<open>
  \<^verbatim>\<open>crates/jwtlet-server/src/config/mod.rs\<close>: the configuration tree with its defaults,
  the validation that collects every error, the validation error with its rendering, and
  the choice of the configuration file.

  The URL parser is not part of the program: \<open>url_scheme\<close> maps a string to the scheme of
  the parsed URL, or to \<open>None\<close> when it does not parse. \<open>path_exists\<close> asks the file system.
\<close>

subsection \<open>The configuration tree\<close>

text \<open>\<^verbatim>\<open>std::time::Duration\<close>: whole seconds and the nanoseconds below one second.\<close>

record duration =
  dur_secs :: u64
  dur_nanos :: u32

definition is_zero :: "duration \<Rightarrow> bool" where
  "is_zero d \<longleftrightarrow> dur_secs d = 0 \<and> dur_nanos d = 0"

datatype ip_addr = V4 "8 word" "8 word" "8 word" "8 word" | V6 "u16 list"

record postgres_pool_config =
  pp_max_connections :: "u32 option"
  pp_min_connections :: "u32 option"
  pp_acquire_timeout :: "duration option"
  pp_idle_timeout :: "duration option"
  pp_max_lifetime :: "duration option"
  pp_test_before_acquire :: "bool option"
  pp_application_name :: "str option"
  pp_statement_cache_capacity :: "u64 option"
  pp_sslmode :: "str option"
  pp_ssl_root_cert :: "str option"
  pp_run_migrations_on_startup :: "bool option"

datatype storage_backend = Memory | Postgres str postgres_pool_config

record vault_config =
  vc_url :: "str option"
  vc_token :: "str option"
  vc_token_file :: "str option"

record k8s_config =
  kc_api_server_url :: "str option"
  kc_cluster_issuer :: "str option"
  kc_token_file :: str

record management_config =
  mc_client_audience :: "str option"

record token_config =
  tk_client_audience :: "str option"
  tk_audience :: "str option"
  tk_participant_context_claim :: str
  tk_token_ttl_secs :: i64

record jwtlet_config =
  jc_token_exchange_port :: u16
  jc_management_port :: u16
  jc_bind :: ip_addr
  jc_issuer :: "str option"
  jc_storage_backend :: storage_backend
  jc_k8s :: k8s_config
  jc_token :: token_config
  jc_vault :: vault_config
  jc_service_accounts :: "(str, str list) hash_map"
  jc_management :: management_config

subsection \<open>Defaults\<close>

definition DEFAULT_TOKEN_EXCHANGE_PORT :: u16 where
  "DEFAULT_TOKEN_EXCHANGE_PORT = 8080"

definition DEFAULT_MANAGEMENT_PORT :: u16 where
  "DEFAULT_MANAGEMENT_PORT = 8081"

definition DEFAULT_BIND_ADDRESS :: ip_addr where
  "DEFAULT_BIND_ADDRESS = V4 0 0 0 0"

definition DEFAULT_SA_TOKEN_FILE :: str where
  "DEFAULT_SA_TOKEN_FILE = lit ''/var/run/secrets/kubernetes.io/serviceaccount/token''"

definition DEFAULT_PARTICIPANT_CONTEXT_CLAIM :: str where
  "DEFAULT_PARTICIPANT_CONTEXT_CLAIM = lit ''jwtlet_pc''"

definition DEFAULT_TOKEN_TTL_SECS :: i64 where
  "DEFAULT_TOKEN_TTL_SECS = 3600"

definition VALID_SSL_MODES :: "str list" where
  "VALID_SSL_MODES = map lit [''disable'', ''prefer'', ''require'', ''verify-ca'', ''verify-full'']"

definition default_pool_config :: postgres_pool_config where
  "default_pool_config =
     \<lparr>pp_max_connections = None, pp_min_connections = None, pp_acquire_timeout = None, pp_idle_timeout = None,
      pp_max_lifetime = None, pp_test_before_acquire = None, pp_application_name = None,
      pp_statement_cache_capacity = None, pp_sslmode = None, pp_ssl_root_cert = None,
      pp_run_migrations_on_startup = None\<rparr>"

definition default_vault_config :: vault_config where
  "default_vault_config = \<lparr>vc_url = None, vc_token = None, vc_token_file = None\<rparr>"

definition default_k8s_config :: k8s_config where
  "default_k8s_config =
     \<lparr>kc_api_server_url = None, kc_cluster_issuer = None, kc_token_file = DEFAULT_SA_TOKEN_FILE\<rparr>"

definition default_token_config :: token_config where
  "default_token_config =
     \<lparr>tk_client_audience = None, tk_audience = None,
      tk_participant_context_claim = DEFAULT_PARTICIPANT_CONTEXT_CLAIM,
      tk_token_ttl_secs = DEFAULT_TOKEN_TTL_SECS\<rparr>"

definition default_config :: jwtlet_config where
  "default_config =
     \<lparr>jc_token_exchange_port = DEFAULT_TOKEN_EXCHANGE_PORT, jc_management_port = DEFAULT_MANAGEMENT_PORT,
      jc_bind = DEFAULT_BIND_ADDRESS, jc_issuer = None, jc_storage_backend = Memory,
      jc_k8s = default_k8s_config, jc_token = default_token_config, jc_vault = default_vault_config,
      jc_service_accounts = [], jc_management = \<lparr>mc_client_audience = None\<rparr>\<rparr>"

subsection \<open>Validation errors\<close>

datatype validation_error = Single str | Multiple "str list"

fun error_count :: "validation_error \<Rightarrow> nat" where
  "error_count (Single _) = 1"
| "error_count (Multiple errors) = length errors"

fun messages :: "validation_error \<Rightarrow> str list" where
  "messages (Single msg) = [msg]"
| "messages (Multiple errors) = errors"

text \<open>The numbered lines of the rendering; every line ends in a newline.\<close>

definition numbered_line :: "nat \<times> str \<Rightarrow> str" where
  "numbered_line ie = lit ''  '' @ show_nat (fst ie + 1) @ lit ''. '' @ snd ie @ [10]"

fun show_validation_error :: "validation_error \<Rightarrow> str" where
  "show_validation_error (Single msg) = lit ''Configuration validation failed: '' @ msg"
| "show_validation_error (Multiple errors) =
     lit ''Configuration validation failed with '' @ show_nat (length errors) @ lit '' error(s):'' @ [10]
     @ concat (map numbered_line (List.enumerate 0 errors))"

subsection \<open>Validation\<close>

definition error_if :: "bool \<Rightarrow> str \<Rightarrow> str list" where
  "error_if b msg = (if b then [msg] else [])"

definition check_url :: "(str \<Rightarrow> str option) \<Rightarrow> str \<Rightarrow> str option \<Rightarrow> str list" where
  "check_url url_scheme setting v =
     (case v of
        None \<Rightarrow> [setting @ lit '' is required'']
      | Some url \<Rightarrow>
          if url_scheme url = None then [setting @ lit '' is not a valid URL: '' @ sq @ url @ sq] else [])"

definition check_vault :: "(str \<Rightarrow> str option) \<Rightarrow> vault_config \<Rightarrow> str list" where
  "check_vault url_scheme vc =
     check_url url_scheme (lit ''vault.url'') (vc_url vc)
     @ error_if (vc_token vc = None \<and> vc_token_file vc = None)
         (lit ''Either vault.token or vault.token_file is required'')"

definition check_k8s :: "(str \<Rightarrow> str option) \<Rightarrow> k8s_config \<Rightarrow> str list" where
  "check_k8s url_scheme kc =
     (case kc_api_server_url kc of
        None \<Rightarrow> [lit ''k8s.api_server_url is required'']
      | Some url \<Rightarrow>
          (case url_scheme url of
             None \<Rightarrow> [lit ''k8s.api_server_url is not a valid URL: '' @ sq @ url @ sq]
           | Some scheme \<Rightarrow>
               if scheme \<noteq> lit ''https'' then [lit ''k8s.api_server_url must use https: '' @ sq @ url @ sq] else []))
     @ error_if (kc_cluster_issuer kc = None) (lit ''k8s.cluster_issuer is required'')
     @ error_if (kc_token_file kc = []) (lit ''k8s.token_file cannot be empty'')"

definition check_token :: "token_config \<Rightarrow> str list" where
  "check_token tk =
     error_if (tk_client_audience tk = None) (lit ''token.client_audience is required'')
     @ error_if (tk_audience tk = None) (lit ''token.audience is required'')
     @ error_if (tk_participant_context_claim tk = []) (lit ''token.participant_context_claim cannot be empty'')
     @ (if sint (tk_token_ttl_secs tk) \<le> 0
        then [lit ''token.token_ttl_secs must be positive, got '' @ show_int (sint (tk_token_ttl_secs tk))]
        else if sint (tk_token_ttl_secs tk) > sint MAX_TOKEN_TTL_SECS
        then [lit ''token.token_ttl_secs must not exceed '' @ show_int (sint MAX_TOKEN_TTL_SECS)
              @ lit '', got '' @ show_int (sint (tk_token_ttl_secs tk))]
        else [])"

text \<open>\<^verbatim>\<open>Debug\<close> of a slice of literals, none of which has a character to escape.\<close>

definition show_debug_list :: "str list \<Rightarrow> str" where
  "show_debug_list xs = lit ''['' @ join (lit '', '') (map (\<lambda>x. [34] @ x @ [34]) xs) @ lit '']''"

definition check_pool :: "(str \<Rightarrow> bool) \<Rightarrow> postgres_pool_config \<Rightarrow> str list" where
  "check_pool path_exists pool =
     error_if (pp_max_connections pool = Some 0) (lit ''storage_backend.pool.max_connections must be > 0'')
     @ (case (pp_min_connections pool, pp_max_connections pool) of
          (Some mn, Some mx) \<Rightarrow>
            error_if (mn > mx)
              (lit ''storage_backend.pool.min_connections ('' @ show_nat (unat mn)
               @ lit '') cannot exceed max_connections ('' @ show_nat (unat mx) @ lit '')'')
        | _ \<Rightarrow> [])
     @ (case pp_acquire_timeout pool of
          Some d \<Rightarrow> error_if (is_zero d) (lit ''storage_backend.pool.acquire_timeout must be > 0'') | None \<Rightarrow> [])
     @ (case pp_sslmode pool of
          Some mode \<Rightarrow>
            error_if (mode \<notin> set VALID_SSL_MODES)
              (lit ''storage_backend.pool.sslmode '' @ sq @ mode @ sq @ lit '' is invalid; expected one of ''
               @ show_debug_list VALID_SSL_MODES)
        | None \<Rightarrow> [])
     @ (case pp_ssl_root_cert pool of
          Some path \<Rightarrow>
            error_if (\<not> path_exists path) (lit ''storage_backend.pool.ssl_root_cert path does not exist: '' @ path)
        | None \<Rightarrow> [])"

definition check_storage :: "(str \<Rightarrow> bool) \<Rightarrow> storage_backend \<Rightarrow> str list" where
  "check_storage path_exists sb =
     (case sb of
        Memory \<Rightarrow> []
      | Postgres url pool \<Rightarrow>
          error_if (url = []) (lit ''storage_backend.url is required for Postgres backend'') @ check_pool path_exists pool)"

definition check_ports :: "u16 \<Rightarrow> u16 \<Rightarrow> str list" where
  "check_ports exchange_port management_port =
     error_if (exchange_port = 0) (lit ''token_exchange_port cannot be 0'')
     @ error_if (management_port = 0) (lit ''management_port cannot be 0'')
     @ error_if (exchange_port = management_port)
         (lit ''token_exchange_port and management_port cannot be the same (both are ''
          @ show_nat (unat exchange_port) @ lit '')'')"

definition config_errors :: "(str \<Rightarrow> str option) \<Rightarrow> (str \<Rightarrow> bool) \<Rightarrow> jwtlet_config \<Rightarrow> str list" where
  "config_errors url_scheme path_exists cfg =
     check_url url_scheme (lit ''issuer'') (jc_issuer cfg)
     @ check_vault url_scheme (jc_vault cfg)
     @ check_k8s url_scheme (jc_k8s cfg)
     @ check_token (jc_token cfg)
     @ check_storage path_exists (jc_storage_backend cfg)
     @ check_ports (jc_token_exchange_port cfg) (jc_management_port cfg)"

definition validate ::
    "(str \<Rightarrow> str option) \<Rightarrow> (str \<Rightarrow> bool) \<Rightarrow> jwtlet_config \<Rightarrow> (unit, validation_error) result" where
  "validate url_scheme path_exists cfg =
     (let errors = config_errors url_scheme path_exists cfg in
      if errors = [] then Ok () else Err (Multiple errors))"

subsection \<open>Loading\<close>

text \<open>
  The file named by the environment variable, else the first argument. The layered
  configuration library reads it, overlays the environment and deserializes.
\<close>

definition config_file :: "str option \<Rightarrow> str list \<Rightarrow> str option" where
  "config_file env_var args =
     (case env_var of Some path \<Rightarrow> Some path | None \<Rightarrow> if 1 < length args then Some (args ! 1) else None)"

definition load_config ::
    "(str option \<Rightarrow> (jwtlet_config, 'e) result) \<Rightarrow> str option \<Rightarrow> str list \<Rightarrow> (jwtlet_config, 'e) result" where
  "load_config build env_var args = build (config_file env_var args)"

subsection \<open>What validation accepts\<close>

text \<open>
  The rules of a configuration, one per possible message, independent of their order in
  the code. A configuration is valid when all of them hold.
\<close>

definition url_ok :: "(str \<Rightarrow> str option) \<Rightarrow> str option \<Rightarrow> bool" where
  "url_ok url_scheme v \<longleftrightarrow> (\<exists>u. v = Some u \<and> url_scheme u \<noteq> None)"

definition https_ok :: "(str \<Rightarrow> str option) \<Rightarrow> str option \<Rightarrow> bool" where
  "https_ok url_scheme v \<longleftrightarrow> (\<exists>u. v = Some u \<and> url_scheme u = Some (lit ''https''))"

definition ttl_ok :: "i64 \<Rightarrow> bool" where
  "ttl_ok ttl \<longleftrightarrow> 0 < sint ttl \<and> sint ttl \<le> sint MAX_TOKEN_TTL_SECS"

definition pool_rules :: "(str \<Rightarrow> bool) \<Rightarrow> postgres_pool_config \<Rightarrow> bool list" where
  "pool_rules path_exists pool =
     [pp_max_connections pool \<noteq> Some 0,
      \<forall>mn mx. pp_min_connections pool = Some mn \<longrightarrow> pp_max_connections pool = Some mx \<longrightarrow> mn \<le> mx,
      \<forall>d. pp_acquire_timeout pool = Some d \<longrightarrow> \<not> is_zero d,
      \<forall>mode. pp_sslmode pool = Some mode \<longrightarrow> mode \<in> set VALID_SSL_MODES,
      \<forall>path. pp_ssl_root_cert pool = Some path \<longrightarrow> path_exists path]"

definition storage_rules :: "(str \<Rightarrow> bool) \<Rightarrow> storage_backend \<Rightarrow> bool list" where
  "storage_rules path_exists sb =
     (case sb of Memory \<Rightarrow> [] | Postgres url pool \<Rightarrow> (url \<noteq> []) # pool_rules path_exists pool)"

definition config_rules :: "(str \<Rightarrow> str option) \<Rightarrow> (str \<Rightarrow> bool) \<Rightarrow> jwtlet_config \<Rightarrow> bool list" where
  "config_rules url_scheme path_exists cfg =
     [url_ok url_scheme (jc_issuer cfg),
      url_ok url_scheme (vc_url (jc_vault cfg)),
      vc_token (jc_vault cfg) \<noteq> None \<or> vc_token_file (jc_vault cfg) \<noteq> None,
      https_ok url_scheme (kc_api_server_url (jc_k8s cfg)),
      kc_cluster_issuer (jc_k8s cfg) \<noteq> None,
      kc_token_file (jc_k8s cfg) \<noteq> [],
      tk_client_audience (jc_token cfg) \<noteq> None,
      tk_audience (jc_token cfg) \<noteq> None,
      tk_participant_context_claim (jc_token cfg) \<noteq> [],
      ttl_ok (tk_token_ttl_secs (jc_token cfg))]
     @ storage_rules path_exists (jc_storage_backend cfg)
     @ [jc_token_exchange_port cfg \<noteq> 0, jc_management_port cfg \<noteq> 0,
        jc_token_exchange_port cfg \<noteq> jc_management_port cfg]"

definition valid_config :: "(str \<Rightarrow> str option) \<Rightarrow> (str \<Rightarrow> bool) \<Rightarrow> jwtlet_config \<Rightarrow> bool" where
  "valid_config url_scheme path_exists cfg \<longleftrightarrow> (\<forall>b\<in>set (config_rules url_scheme path_exists cfg). b)"

text \<open>Each group reports as many messages as it has violated rules.\<close>

definition violated :: "bool list \<Rightarrow> nat" where
  "violated bs = length (filter Not bs)"

lemma violated_simps [simp]:
  "violated [] = 0" "violated (b # bs) = (if b then 0 else 1) + violated bs"
  "violated (bs @ cs) = violated bs + violated cs"
  by (simp_all add: violated_def)

lemma violated_0_iff: "violated bs = 0 \<longleftrightarrow> (\<forall>b\<in>set bs. b)"
  by (auto simp: violated_def filter_empty_conv)

lemma length_error_if [simp]: "length (error_if b msg) = (if b then 1 else 0)"
  by (simp add: error_if_def)

lemma length_check_url: "length (check_url us setting v) = (if url_ok us v then 0 else 1)"
  by (auto simp: check_url_def url_ok_def split: option.split)

lemma length_option_error:
  "length (case x of None \<Rightarrow> [] | Some a \<Rightarrow> error_if (b a) (msg a)) = (if \<forall>a. x = Some a \<longrightarrow> \<not> b a then 0 else 1)"
  by (cases x) auto

lemma length_option_error2:
  "length (case (x, y) of (None, q) \<Rightarrow> [] | (Some mn, None) \<Rightarrow> [] | (Some mn, Some mx) \<Rightarrow> error_if (b mn mx) (msg mn mx))
     = (if \<forall>mn mx. x = Some mn \<longrightarrow> y = Some mx \<longrightarrow> \<not> b mn mx then 0 else 1)"
  by (cases x; cases y) auto

lemma length_check_pool: "length (check_pool pe pool) = violated (pool_rules pe pool)"
  unfolding check_pool_def pool_rules_def length_append length_option_error length_option_error2
    length_error_if violated_simps
  by (simp add: not_less)

lemma length_check_storage: "length (check_storage pe sb) = violated (storage_rules pe sb)"
  by (auto simp: check_storage_def storage_rules_def length_check_pool split: storage_backend.split)

lemma length_check_k8s:
  "length (check_k8s us kc) =
     violated [https_ok us (kc_api_server_url kc), kc_cluster_issuer kc \<noteq> None, kc_token_file kc \<noteq> []]"
  by (auto simp: check_k8s_def https_ok_def split: option.split)

lemma length_check_token:
  "length (check_token tk) =
     violated [tk_client_audience tk \<noteq> None, tk_audience tk \<noteq> None, tk_participant_context_claim tk \<noteq> [],
       ttl_ok (tk_token_ttl_secs tk)]"
  by (auto simp: check_token_def ttl_ok_def)

lemma length_config_errors:
  "length (config_errors us pe cfg) = violated (config_rules us pe cfg)"
  by (simp add: config_errors_def config_rules_def check_vault_def check_ports_def length_check_url
      length_check_storage length_check_k8s length_check_token)

lemma validate_Ok_iff: "validate us pe cfg = Ok () \<longleftrightarrow> valid_config us pe cfg"
  by (cases "config_errors us pe cfg = []")
    (simp_all add: validate_def valid_config_def violated_0_iff [symmetric] length_config_errors [symmetric] Let_def)

lemma validate_Err:
  "validate us pe cfg = Err e \<Longrightarrow>
     messages e = config_errors us pe cfg \<and> error_count e = violated (config_rules us pe cfg) \<and> 0 < error_count e"
  by (cases "config_errors us pe cfg = []") (auto simp: validate_def Let_def length_config_errors [symmetric])

lemma valid_configD:
  assumes "valid_config us pe cfg"
  shows "\<exists>u. jc_issuer cfg = Some u" "\<exists>u. vc_url (jc_vault cfg) = Some u"
    "vc_token (jc_vault cfg) \<noteq> None \<or> vc_token_file (jc_vault cfg) \<noteq> None"
    "\<exists>u. kc_api_server_url (jc_k8s cfg) = Some u \<and> us u = Some (lit ''https'')"
    "\<exists>u. kc_cluster_issuer (jc_k8s cfg) = Some u"
    "\<exists>a. tk_client_audience (jc_token cfg) = Some a" "\<exists>a. tk_audience (jc_token cfg) = Some a"
    "ttl_ok (tk_token_ttl_secs (jc_token cfg))"
    "jc_token_exchange_port cfg \<noteq> jc_management_port cfg"
  using assms by (auto simp: valid_config_def config_rules_def url_ok_def https_ok_def)

lemma valid_config_storage:
  assumes "valid_config us pe cfg" "jc_storage_backend cfg = Postgres url pool"
  shows "url \<noteq> []" "pp_sslmode pool = Some mode \<Longrightarrow> mode \<in> set VALID_SSL_MODES"
  using assms by (auto simp: valid_config_def config_rules_def storage_rules_def pool_rules_def)

end
