(* ===== verification/K8s_Verifier.thy ===== *)
theory K8s_Verifier
  imports Jwt_Types
begin

section \<open>Verification through the Kubernetes TokenReview API\<close>

text \<open>
  \<^verbatim>\<open>crates/jwtlet-core/src/k8s/mod.rs\<close>. The verifier keeps the pod's own service
  account token, asks the API server to review a presented token, re-reads its own token
  once when the API server answers 401, and turns a review into claims.

  The API server, the file system and the file watcher are not part of the program: they
  are the fields of an environment over a world of an arbitrary type. The reply to a
  request is a failed send (with the status the HTTP client attaches, if any) or a status
  and the decoded body.
\<close>

record user_info =
  ui_username :: str
  ui_uid :: "str option"
  ui_groups :: "str list"

record token_review_status =
  ts_authenticated :: bool
  ts_user :: "user_info option"
  ts_error :: "str option"
  ts_audiences :: "str list"

record token_review_request =
  rq_url :: str
  rq_bearer :: str
  rq_api_version :: str
  rq_kind :: str
  rq_token :: str
  rq_audiences :: "str list"

datatype http_reply =
    SendFailed "nat option" str
  | Replied nat "(token_review_status, str) result"

record 'w k8s_env =
  env_post :: "token_review_request \<Rightarrow> 'w \<Rightarrow> http_reply \<times> 'w"
  env_read :: "str \<Rightarrow> 'w \<Rightarrow> (str, str) result \<times> 'w"
  env_new_watcher :: "'w \<Rightarrow> (unit, str) result \<times> 'w"
  env_watch :: "str \<Rightarrow> 'w \<Rightarrow> (unit, str) result \<times> 'w"
  env_status_text :: "nat \<Rightarrow> str"

text \<open>
  \<open>kv_state\<close> is the shared \<^verbatim>\<open>SaTokenState\<close>; \<open>kv_renewal_handle\<close> says whether the renewal
  task has been started.
\<close>

record k8s_verifier =
  kv_api_server_url :: str
  kv_cluster_issuer :: str
  kv_token_file :: str
  kv_require_service_account :: bool
  kv_state :: "str option"
  kv_renewal_handle :: bool

definition TOKEN_REVIEW_API :: str where
  "TOKEN_REVIEW_API = lit ''/apis/authentication.k8s.io/v1/tokenreviews''"

definition SERVICE_ACCOUNT_USERNAME_PREFIX :: str where
  "SERVICE_ACCOUNT_USERNAME_PREFIX = lit ''system:serviceaccount:''"

definition SERVICE_ACCOUNTS_GROUP :: str where
  "SERVICE_ACCOUNTS_GROUP = lit ''system:serviceaccounts''"

definition is_service_account :: "user_info \<Rightarrow> bool" where
  "is_service_account u \<longleftrightarrow>
     starts_with (ui_username u) SERVICE_ACCOUNT_USERNAME_PREFIX
     \<and> (\<exists>g\<in>set (ui_groups u). g = SERVICE_ACCOUNTS_GROUP)"

subsection \<open>The file watcher and initialisation\<close>

definition new_renewal_trigger ::
    "'w k8s_env \<Rightarrow> str \<Rightarrow> 'w \<Rightarrow> (unit, jwt_verification_error) result \<times> 'w" where
  "new_renewal_trigger env path w =
     (case env_new_watcher env w of
        (Err e, w1) \<Rightarrow> (Err (VerificationFailed (lit ''Failed to create file watcher: '' @ e)), w1)
      | (Ok _, w1) \<Rightarrow>
          (case env_watch env path w1 of
             (Err e, w2) \<Rightarrow>
               (Err (VerificationFailed (lit ''Failed to watch token file '' @ path @ lit '': '' @ e)), w2)
           | (Ok _, w2) \<Rightarrow> (Ok (), w2)))"

definition k8s_initialize ::
    "'w k8s_env \<Rightarrow> k8s_verifier \<times> 'w \<Rightarrow> (unit, jwt_verification_error) result \<times> (k8s_verifier \<times> 'w)" where
  "k8s_initialize env kvw =
     (let kv = fst kvw; w = snd kvw in
      if kv_state kv \<noteq> None then (Ok (), (kv, w))
      else
        (case env_read env (kv_token_file kv) w of
           (Err e, w1) \<Rightarrow>
             (Err (VerificationFailed (lit ''Failed to read SA token file '' @ kv_token_file kv @ lit '': '' @ e)),
              (kv, w1))
         | (Ok raw, w1) \<Rightarrow>
             (case new_renewal_trigger env (kv_token_file kv) w1 of
                (Err e, w2) \<Rightarrow> (Err e, (kv, w2))
              | (Ok _, w2) \<Rightarrow> (Ok (), (kv\<lparr>kv_state := Some (trim raw), kv_renewal_handle := True\<rparr>, w2)))))"

definition ensure_initialized :: "k8s_verifier \<Rightarrow> (str, jwt_verification_error) result" where
  "ensure_initialized kv =
     ok_or (kv_state kv)
       (VerificationFailed (lit ''K8sTokenReviewVerifier not initialized; call initialize() first''))"

definition refresh_sa_token ::
    "'w k8s_env \<Rightarrow> k8s_verifier \<times> 'w \<Rightarrow> (str, jwt_verification_error) result \<times> (k8s_verifier \<times> 'w)" where
  "refresh_sa_token env kvw =
     (let kv = fst kvw in
      case env_read env (kv_token_file kv) (snd kvw) of
        (Err e, w1) \<Rightarrow>
          (Err (VerificationFailed (lit ''Failed to re-read SA token file '' @ kv_token_file kv @ lit '': '' @ e)),
           (kv, w1))
      | (Ok raw, w1) \<Rightarrow>
          (case ensure_initialized kv of
             Err e \<Rightarrow> (Err e, (kv, w1))
           | Ok _ \<Rightarrow> (Ok (trim raw), (kv\<lparr>kv_state := Some (trim raw)\<rparr>, w1))))"

subsection \<open>One review\<close>

definition review_request :: "k8s_verifier \<Rightarrow> str \<Rightarrow> str \<Rightarrow> str \<Rightarrow> token_review_request" where
  "review_request kv sa_token audience subject_token =
     \<lparr>rq_url = kv_api_server_url kv @ TOKEN_REVIEW_API,
      rq_bearer = sa_token,
      rq_api_version = lit ''authentication.k8s.io/v1'',
      rq_kind = lit ''TokenReview'',
      rq_token = subject_token,
      rq_audiences = [audience]\<rparr>"

definition is_success :: "nat \<Rightarrow> bool" where
  "is_success code \<longleftrightarrow> 200 \<le> code \<and> code < 300"

definition call_token_review ::
    "'w k8s_env \<Rightarrow> k8s_verifier \<Rightarrow> str \<Rightarrow> str \<Rightarrow> str \<Rightarrow> 'w
       \<Rightarrow> (token_review_status, nat \<times> jwt_verification_error) result \<times> 'w" where
  "call_token_review env kv sa_token audience subject_token w =
     (case env_post env (review_request kv sa_token audience subject_token) w of
        (SendFailed code e, w') \<Rightarrow>
          (Err (case code of None \<Rightarrow> 500 | Some c \<Rightarrow> c, VerificationFailed e), w')
      | (Replied code body, w') \<Rightarrow>
          (if \<not> is_success code
           then (Err (code, VerificationFailed (lit ''TokenReview API returned status '' @ env_status_text env code)), w')
           else (map_err (\<lambda>e. (500, VerificationFailed e)) body, w')))"

text \<open>The checks on a review, in the order of the code.\<close>

definition claims_of_review ::
    "k8s_verifier \<Rightarrow> str \<Rightarrow> token_review_status \<Rightarrow> (token_claims, jwt_verification_error) result" where
  "claims_of_review kv audience review =
     (if \<not> ts_authenticated review
      then Err (VerificationFailed (case ts_error review of None \<Rightarrow> lit ''token not authenticated'' | Some msg \<Rightarrow> msg))
      else if \<not> (\<exists>a\<in>set (ts_audiences review). a = audience)
      then Err (VerificationFailed (lit ''TokenReview did not confirm the requested audience '' @ sq @ audience @ sq))
      else and_then
        (ok_or (ts_user review)
           (VerificationFailed (lit ''TokenReview returned authenticated=true but no user info''))) (\<lambda>user.
        if kv_require_service_account kv \<and> \<not> is_service_account user
        then Err (VerificationFailed (lit ''identity '' @ sq @ ui_username user @ sq
               @ lit '' is not a Kubernetes service account''))
        else Ok \<lparr>tc_sub = ui_username user, tc_iss = kv_cluster_issuer kv, tc_aud = audience,
                 tc_iat = 0, tc_exp = 0, tc_nbf = None,
                 tc_custom = (case ui_uid user of
                    None \<Rightarrow> []
                  | Some uid \<Rightarrow> if uid \<noteq> [] then map_insert K8S_UID_CLAIM (JString uid) [] else [])\<rparr>))"

text \<open>
  The review with the retry: a status of 401 means that the API server refused the pod's
  own token, which is then re-read and used once more.
\<close>

definition review_with_retry ::
    "'w k8s_env \<Rightarrow> str \<Rightarrow> str \<Rightarrow> str \<Rightarrow> k8s_verifier \<times> 'w
       \<Rightarrow> (token_review_status, jwt_verification_error) result \<times> (k8s_verifier \<times> 'w)" where
  "review_with_retry env sa_token audience token kvw =
     (case call_token_review env (fst kvw) sa_token audience token (snd kvw) of
        (Ok r, w1) \<Rightarrow> (Ok r, (fst kvw, w1))
      | (Err (code, e), w1) \<Rightarrow>
          (if code = 401
           then
             (case refresh_sa_token env (fst kvw, w1) of
                (Err e', kvw2) \<Rightarrow> (Err e', kvw2)
              | (Ok refreshed, kvw2) \<Rightarrow>
                  (case call_token_review env (fst kvw2) refreshed audience token (snd kvw2) of
                     (r, w3) \<Rightarrow> (map_err snd r, (fst kvw2, w3))))
           else (Err e, (fst kvw, w1))))"

definition k8s_verify_token :: "'w k8s_env \<Rightarrow> (k8s_verifier \<times> 'w) verifier" where
  "k8s_verify_token env audience token kvw =
     (case ensure_initialized (fst kvw) of
        Err e \<Rightarrow> (Err e, kvw)
      | Ok sa_token \<Rightarrow>
          (case review_with_retry env sa_token audience token kvw of
             (Err e, kvw') \<Rightarrow> (Err e, kvw')
           | (Ok review, kvw') \<Rightarrow> (claims_of_review (fst kvw') audience review, kvw')))"

subsection \<open>What an accepted token proves\<close>

text \<open>
  The requests a verification may send: with the cached token, or, after a reply of 401,
  with the token just read from the file.
\<close>

definition review_attempt ::
    "'w k8s_env \<Rightarrow> k8s_verifier \<times> 'w \<Rightarrow> str \<Rightarrow> str \<Rightarrow> str \<Rightarrow> 'w \<Rightarrow> bool" where
  "review_attempt env kvw aud tok sa w \<longleftrightarrow>
     kv_state (fst kvw) = Some sa \<and> w = snd kvw
     \<or> (\<exists>sa0 e w1 raw.
          kv_state (fst kvw) = Some sa0
          \<and> call_token_review env (fst kvw) sa0 aud tok (snd kvw) = (Err (401, e), w1)
          \<and> env_read env (kv_token_file (fst kvw)) w1 = (Ok raw, w) \<and> sa = trim raw)"

definition confirmed_user :: "k8s_verifier \<Rightarrow> str \<Rightarrow> token_review_status \<Rightarrow> user_info \<Rightarrow> bool" where
  "confirmed_user kv aud review u \<longleftrightarrow>
     ts_authenticated review \<and> aud \<in> set (ts_audiences review) \<and> ts_user review = Some u
     \<and> (kv_require_service_account kv \<longrightarrow> is_service_account u)"

definition uid_claim :: "user_info \<Rightarrow> json option" where
  "uid_claim u = (case ui_uid u of None \<Rightarrow> None | Some uid \<Rightarrow> if uid = [] then None else Some (JString uid))"

definition k8s_vouched :: "'w k8s_env \<Rightarrow> k8s_verifier \<times> 'w \<Rightarrow> str \<Rightarrow> str \<Rightarrow> token_claims \<Rightarrow> bool" where
  "k8s_vouched env kvw aud tok cl \<longleftrightarrow>
     (\<exists>sa w code review w' u.
        review_attempt env kvw aud tok sa w
        \<and> env_post env (review_request (fst kvw) sa aud tok) w = (Replied code (Ok review), w')
        \<and> is_success code \<and> confirmed_user (fst kvw) aud review u
        \<and> tc_sub cl = ui_username u \<and> map_of (tc_custom cl) K8S_UID_CLAIM = uid_claim u)
     \<and> tc_iss cl = kv_cluster_issuer (fst kvw) \<and> tc_aud cl = aud"

lemma call_token_review_Ok_iff:
  "call_token_review env kv sa aud tok w = (Ok review, w') \<longleftrightarrow>
     (\<exists>code. env_post env (review_request kv sa aud tok) w = (Replied code (Ok review), w') \<and> is_success code)"
  by (auto simp: call_token_review_def split: prod.splits http_reply.splits if_splits)

lemma claims_of_review_Ok:
  assumes "claims_of_review kv aud review = Ok cl"
  shows "\<exists>u. confirmed_user kv aud review u \<and> tc_sub cl = ui_username u
      \<and> map_of (tc_custom cl) K8S_UID_CLAIM = uid_claim u"
    and "tc_iss cl = kv_cluster_issuer kv" "tc_aud cl = aud"
  using assms
  by (auto simp: claims_of_review_def confirmed_user_def uid_claim_def and_then_Ok_iff ok_or_def
      split: if_splits option.splits)

text \<open>A verification changes nothing of the verifier but the cached token.\<close>

definition same_config :: "k8s_verifier \<Rightarrow> k8s_verifier \<Rightarrow> bool" where
  "same_config kv kv' \<longleftrightarrow> kv' = kv\<lparr>kv_state := kv_state kv'\<rparr>"

lemma same_config_sel:
  assumes "same_config kv kv'"
  shows "kv_api_server_url kv' = kv_api_server_url kv" "kv_cluster_issuer kv' = kv_cluster_issuer kv"
    "kv_token_file kv' = kv_token_file kv" "kv_require_service_account kv' = kv_require_service_account kv"
    "kv_renewal_handle kv' = kv_renewal_handle kv"
  using assms by (metis k8s_verifier.surjective k8s_verifier.update_convs(5) k8s_verifier.select_convs same_config_def)+

lemma same_config_request:
  "same_config kv kv' \<Longrightarrow> review_request kv' sa aud tok = review_request kv sa aud tok"
  by (simp add: review_request_def same_config_sel)

lemma same_config_call:
  "same_config kv kv' \<Longrightarrow> call_token_review env kv' sa aud tok w = call_token_review env kv sa aud tok w"
  by (simp add: call_token_review_def same_config_request)

lemma same_config_claims: "same_config kv kv' \<Longrightarrow> claims_of_review kv' aud review = claims_of_review kv aud review"
  unfolding claims_of_review_def by (simp only: same_config_sel)

lemma refresh_sa_token_Ok:
  "refresh_sa_token env (kv, w) = (Ok t, kvw') \<Longrightarrow>
     (\<exists>raw w'. env_read env (kv_token_file kv) w = (Ok raw, w') \<and> t = trim raw
        \<and> kvw' = (kv\<lparr>kv_state := Some (trim raw)\<rparr>, w') \<and> kv_state kv \<noteq> None)"
  by (auto simp: refresh_sa_token_def ensure_initialized_def ok_or_def Let_def
      split: prod.splits result.splits option.splits)

lemma refresh_sa_token_frame:
  "refresh_sa_token env (kv, w) = (r, (kv', w')) \<Longrightarrow> same_config kv kv' \<and> (kv' = kv \<or> is_ok r)"
  by (auto simp: refresh_sa_token_def same_config_def Let_def split: prod.splits result.splits)

lemma review_with_retry_Ok:
  assumes "kv_state (fst kvw) = Some sa0" "review_with_retry env sa0 aud tok kvw = (Ok review, kvw')"
  shows "\<exists>sa w code w'. review_attempt env kvw aud tok sa w
      \<and> env_post env (review_request (fst kvw) sa aud tok) w = (Replied code (Ok review), w') \<and> is_success code"
    and "same_config (fst kvw) (fst kvw')"
proof -
  obtain kv w0 where kvw [simp]: "kvw = (kv, w0)" by (cases kvw)
  obtain r w1 where call: "call_token_review env kv sa0 aud tok w0 = (r, w1)"
    by (cases "call_token_review env kv sa0 aud tok w0")
  have "(\<exists>sa w code w'. review_attempt env kvw aud tok sa w
      \<and> env_post env (review_request kv sa aud tok) w = (Replied code (Ok review), w') \<and> is_success code)
      \<and> same_config kv (fst kvw')"
  proof (cases r)
    case (Ok rv)
    with assms call have "rv = review" "kvw' = (kv, w1)" by (simp_all add: review_with_retry_def)
    with Ok call assms(1) show ?thesis
      by (auto simp: call_token_review_Ok_iff review_attempt_def same_config_def)
  next
    case (Err ce)
    then obtain code e where ce: "r = Err (code, e)" by (cases ce) auto
    with assms call have code: "code = 401"
      by (auto simp: review_with_retry_def split: if_splits)
    with assms ce call obtain t kv2 w2 w3 where re: "refresh_sa_token env (kv, w1) = (Ok t, (kv2, w2))"
      and call2: "call_token_review env kv2 t aud tok w2 = (Ok review, w3)" and kvw': "kvw' = (kv2, w3)"
      by (auto simp: review_with_retry_def split: prod.splits result.splits)
    have same: "same_config kv kv2" using refresh_sa_token_frame [OF re] by simp
    obtain raw where "env_read env (kv_token_file kv) w1 = (Ok raw, w2)" "t = trim raw"
      using refresh_sa_token_Ok [OF re] by auto
    then have "review_attempt env kvw aud tok t w2"
      using assms(1) call ce code by (auto simp: review_attempt_def)
    with call2 same kvw' show ?thesis
      by (auto simp: same_config_call call_token_review_Ok_iff)
  qed
  then show "\<exists>sa w code w'. review_attempt env kvw aud tok sa w
      \<and> env_post env (review_request (fst kvw) sa aud tok) w = (Replied code (Ok review), w') \<and> is_success code"
    and "same_config (fst kvw) (fst kvw')" by simp_all
qed

lemma k8s_verify_token_vouched:
  assumes "k8s_verify_token env aud tok kvw = (Ok cl, kvw')"
  shows "k8s_vouched env kvw aud tok cl"
proof -
  obtain sa0 review where init: "kv_state (fst kvw) = Some sa0"
    and retry: "review_with_retry env sa0 aud tok kvw = (Ok review, kvw')"
    and cl: "claims_of_review (fst kvw') aud review = Ok cl"
    using assms by (auto simp: k8s_verify_token_def ensure_initialized_def ok_or_def
        split: option.splits result.splits prod.splits)
  note att = review_with_retry_Ok(1) [OF init retry] and same = review_with_retry_Ok(2) [OF init retry]
  have "claims_of_review (fst kvw) aud review = Ok cl"
    using cl same_config_claims [OF same] by simp
  from att claims_of_review_Ok [OF this] show ?thesis
    unfolding k8s_vouched_def by blast
qed

interpretation k8s: token_verifier "k8s_verify_token env" "k8s_vouched env"
  for env :: "'w k8s_env"
  by unfold_locales (erule k8s_verify_token_vouched, simp add: k8s_vouched_def)

end
