(* ===== verification/Service_Account.thy ===== *)
theory Service_Account
  imports Jwtlet_Prelude
begin

section \<open>Service accounts and their roles\<close>

text \<open>
  \<^verbatim>\<open>crates/jwtlet-core/src/saccount/mod.rs\<close>: the accounts that may administer the
  policy, loaded once, and the check that a client holds every required role. The trait
  \<^verbatim>\<open>ServiceAccountAuthorizer\<close> is a locale; the in-memory store interprets it.
\<close>

record service_account =
  sa_client_id :: str
  sa_roles :: "str fset"

datatype auth_error = GeneralError str

type_synonym service_account_store = "(str, str fset) hash_map"

definition from_accounts :: "service_account list \<Rightarrow> service_account_store" where
  "from_accounts accs = fold (\<lambda>sa m. AList.update (sa_client_id sa) (sa_roles sa) m) accs []"

definition mem_authorize :: "service_account_store \<Rightarrow> str \<Rightarrow> str fset \<Rightarrow> (bool, auth_error) result" where
  "mem_authorize store client_id required =
     Ok (case map_of store client_id of None \<Rightarrow> False | Some roles \<Rightarrow> required |\<subseteq>| roles)"

locale role_authorizer =
  fixes authorize :: "str \<Rightarrow> str fset \<Rightarrow> (bool, auth_error) result"
    and holds :: "str \<Rightarrow> str \<Rightarrow> bool"
  assumes authorize_sound: "authorize c R = Ok True \<Longrightarrow> r |\<in>| R \<Longrightarrow> holds c r"
    and authorize_complete: "\<forall>r\<in>fset R. holds c r \<Longrightarrow> R \<noteq> {||} \<Longrightarrow> authorize c R = Ok True"
begin

lemma authorize_single: "authorize c {|r|} = Ok True \<longleftrightarrow> holds c r"
  using authorize_sound [of c "{|r|}" r] authorize_complete [of "{|r|}" c] by auto

end

text \<open>The roles of a client: those of its last account in the list.\<close>

definition account_holds :: "service_account_store \<Rightarrow> str \<Rightarrow> str \<Rightarrow> bool" where
  "account_holds store c r \<longleftrightarrow> (\<exists>roles. map_of store c = Some roles \<and> r |\<in>| roles)"

interpretation accounts: role_authorizer "mem_authorize store" "account_holds store"
  for store :: service_account_store
proof
  show "mem_authorize store c R = Ok True \<Longrightarrow> r |\<in>| R \<Longrightarrow> account_holds store c r" for c R r
    by (auto simp: mem_authorize_def account_holds_def split: option.splits)
  show "\<forall>r\<in>fset R. account_holds store c r \<Longrightarrow> R \<noteq> {||} \<Longrightarrow> mem_authorize store c R = Ok True" for R c
    by (fastforce simp: mem_authorize_def account_holds_def split: option.splits)
qed

lemma map_of_from_accounts_snoc:
  "map_of (from_accounts (accs @ [sa])) = (map_of (from_accounts accs))(sa_client_id sa \<mapsto> sa_roles sa)"
  by (simp add: from_accounts_def update_conv')

lemma map_of_from_accounts:
  "map_of (from_accounts accs) c = map_of (rev (map (\<lambda>sa. (sa_client_id sa, sa_roles sa)) accs)) c"
  by (induction accs rule: rev_induct) (simp_all add: map_of_from_accounts_snoc, simp add: from_accounts_def)

lemma hash_map_ok_from_accounts: "hash_map_ok (from_accounts accs)"
  by (induction accs rule: rev_induct) (simp_all add: from_accounts_def)

end
