(* ===== verification/Memory_Store.thy ===== *)
theory Memory_Store
  imports Resource_Service
begin

section \<open>The in-memory store\<close>

text \<open>
  \<^verbatim>\<open>crates/jwtlet-core/src/resource/mem.rs\<close>: two hash maps behind one lock. Every
  operation holds the lock from its first to its last access, so an operation is one step
  on the state. The abstraction reads the hash maps as maps; the invariant says that keys
  are distinct and that every entry is filed under its own key. The store is shown to be a
  reliable store.
\<close>

record inner_store =
  entries :: "(str \<times> str, resource_mapping) hash_map"
  scope_mappings :: "(str, scope_mapping) hash_map"

definition mem_new :: inner_store where
  "mem_new = \<lparr>entries = [], scope_mappings = []\<rparr>"

definition mem_resolve_mapping ::
    "str \<Rightarrow> str \<Rightarrow> inner_store \<Rightarrow> (mapping_pair option, resource_error) result \<times> inner_store" where
  "mem_resolve_mapping c p s =
     (case map_of (entries s) (c, p) of
        None \<Rightarrow> (Ok None, s)
      | Some rm \<Rightarrow>
          (Ok (Some \<lparr>mp_resource_mapping = rm,
                     mp_scope_mappings = (\<lambda>sc. if sc |\<in>| rm_scopes rm then map_of (scope_mappings s) sc else None)\<rparr>),
           s))"

definition mem_save_mapping :: "resource_mapping \<Rightarrow> inner_store \<Rightarrow> (unit, resource_error) result \<times> inner_store" where
  "mem_save_mapping m s =
     (let key = (rm_client_identifier m, rm_participant_context m) in
      if map_of (entries s) key \<noteq> None then (Err (Conflict (rm_client_identifier m)), s)
      else (Ok (), s\<lparr>entries := AList.update key m (entries s)\<rparr>))"

definition mem_update_mapping :: "resource_mapping \<Rightarrow> inner_store \<Rightarrow> (unit, resource_error) result \<times> inner_store" where
  "mem_update_mapping m s =
     (let key = (rm_client_identifier m, rm_participant_context m) in
      if map_of (entries s) key = None then (Err (NotFound (rm_client_identifier m)), s)
      else (Ok (), s\<lparr>entries := AList.update key m (entries s)\<rparr>))"

definition mem_remove_mapping :: "str \<Rightarrow> str \<Rightarrow> inner_store \<Rightarrow> (unit, resource_error) result \<times> inner_store" where
  "mem_remove_mapping c p s = (Ok (), s\<lparr>entries := AList.delete (c, p) (entries s)\<rparr>)"

definition mem_remove_mappings_for :: "str \<Rightarrow> inner_store \<Rightarrow> (unit, resource_error) result \<times> inner_store" where
  "mem_remove_mappings_for c s =
     (Ok (), s\<lparr>entries := retain_keys (\<lambda>(client_id, _). client_id \<noteq> c) (entries s)\<rparr>)"

text \<open>The first loop of \<^verbatim>\<open>save_scope_mappings\<close>, with the set of scopes seen so far.\<close>

fun mem_check_batch ::
    "(str, scope_mapping) hash_map \<Rightarrow> str list \<Rightarrow> scope_mapping list \<Rightarrow> (unit, resource_error) result" where
  "mem_check_batch sms seen [] = Ok ()"
| "mem_check_batch sms seen (m # ms) =
     (if map_of sms (sm_scope m) \<noteq> None \<or> sm_scope m \<in> set seen then Err (Conflict (sm_scope m))
      else mem_check_batch sms (sm_scope m # seen) ms)"

definition mem_save_scope_mappings ::
    "scope_mapping list \<Rightarrow> inner_store \<Rightarrow> (unit, resource_error) result \<times> inner_store" where
  "mem_save_scope_mappings ms s =
     (case mem_check_batch (scope_mappings s) [] ms of
        Err e \<Rightarrow> (Err e, s)
      | Ok _ \<Rightarrow>
          (Ok (), s\<lparr>scope_mappings := fold (\<lambda>m sms. AList.update (sm_scope m) m sms) ms (scope_mappings s)\<rparr>))"

definition mem_update_scope_mapping :: "scope_mapping \<Rightarrow> inner_store \<Rightarrow> (unit, resource_error) result \<times> inner_store" where
  "mem_update_scope_mapping m s =
     (if map_of (scope_mappings s) (sm_scope m) = None then (Err (NotFound (sm_scope m)), s)
      else (Ok (), s\<lparr>scope_mappings := AList.update (sm_scope m) m (scope_mappings s)\<rparr>))"

definition mem_remove_scope_mapping :: "str \<Rightarrow> inner_store \<Rightarrow> (unit, resource_error) result \<times> inner_store" where
  "mem_remove_scope_mapping sc s = (Ok (), s\<lparr>scope_mappings := AList.delete sc (scope_mappings s)\<rparr>)"

definition mem_list_mappings :: "inner_store \<Rightarrow> (resource_mapping list, resource_error) result \<times> inner_store" where
  "mem_list_mappings s = (Ok (map snd (entries s)), s)"

definition mem_list_scope_mappings :: "inner_store \<Rightarrow> (scope_mapping list, resource_error) result \<times> inner_store" where
  "mem_list_scope_mappings s = (Ok (map snd (scope_mappings s)), s)"

definition memory_store :: "inner_store resource_store" where
  "memory_store = \<lparr>
     st_resolve_mapping = mem_resolve_mapping,
     st_save_mapping = mem_save_mapping,
     st_update_mapping = mem_update_mapping,
     st_remove_mapping = mem_remove_mapping,
     st_remove_mappings_for = mem_remove_mappings_for,
     st_save_scope_mappings = mem_save_scope_mappings,
     st_update_scope_mapping = mem_update_scope_mapping,
     st_remove_scope_mapping = mem_remove_scope_mapping,
     st_list_mappings = mem_list_mappings,
     st_list_scope_mappings = mem_list_scope_mappings\<rparr>"

subsection \<open>Invariant and abstraction\<close>

definition mem_invar :: "inner_store \<Rightarrow> bool" where
  "mem_invar s \<longleftrightarrow> hash_map_ok (entries s) \<and> hash_map_ok (scope_mappings s)
     \<and> filed_by (\<lambda>m. rm_key m) (entries s) \<and> filed_by sm_scope (scope_mappings s)"

definition mem_policy :: "inner_store \<Rightarrow> policy" where
  "mem_policy s = \<lparr>pol_mappings = map_of (entries s), pol_scopes = map_of (scope_mappings s)\<rparr>"

lemmas mem_op_defs = mem_resolve_mapping_def mem_save_mapping_def mem_update_mapping_def
  mem_remove_mapping_def mem_remove_mappings_for_def
  mem_update_scope_mapping_def mem_remove_scope_mapping_def mem_list_mappings_def mem_list_scope_mappings_def


lemma mem_policy_simps [simp]:
  "pol_mappings (mem_policy s) = map_of (entries s)"
  "pol_scopes (mem_policy s) = map_of (scope_mappings s)"
  by (simp_all add: mem_policy_def)

lemma mem_invar_new: "mem_invar mem_new"
  by (simp add: mem_invar_def mem_new_def)

lemma mem_policy_new: "mem_policy mem_new = empty_policy"
  by (simp add: mem_policy_def mem_new_def empty_policy_def)

lemma mem_invar_wf: "mem_invar s \<Longrightarrow> policy_wf (mem_policy s)"
  by (auto simp: mem_invar_def policy_wf_def finite_dom_map_of dest: filed_by_lookup)

lemma mem_check_batch_eq:
  "mem_check_batch sms seen ms =
     (case first_conflict (dom (map_of sms) \<union> set seen) ms of None \<Rightarrow> Ok () | Some sc \<Rightarrow> Err (Conflict sc))"
  by (induction ms arbitrary: seen) (auto simp: domIff insert_commute simp del: dom_map_of_conv_image_fst)

lemma map_of_fold_update:
  "map_of (fold (\<lambda>m sms. AList.update (sm_scope m) m sms) ms sms) = add_scopes ms (map_of sms)"
  by (induction ms arbitrary: sms) (simp_all add: update_conv')

lemma fold_update_ok:
  "hash_map_ok sms \<Longrightarrow> filed_by sm_scope sms \<Longrightarrow>
     hash_map_ok (fold (\<lambda>m sms. AList.update (sm_scope m) m sms) ms sms)
     \<and> filed_by sm_scope (fold (\<lambda>m sms. AList.update (sm_scope m) m sms) ms sms)"
  by (induction ms arbitrary: sms) simp_all

subsection \<open>Each operation refines its abstract counterpart\<close>

lemma mem_resolve_refines: "mem_resolve_mapping c p s = (Ok (spec_resolve (mem_policy s) c p), s)"
  by (auto simp: mem_resolve_mapping_def spec_resolve_def restrict_map_def split: option.split)

lemma mem_save_refines:
  "(fst (mem_save_mapping m s), mem_policy (snd (mem_save_mapping m s))) = spec_save m (mem_policy s)"
  by (auto simp: mem_save_mapping_def spec_save_def Let_def mem_policy_def update_conv')

lemma mem_update_refines:
  "(fst (mem_update_mapping m s), mem_policy (snd (mem_update_mapping m s))) = spec_update m (mem_policy s)"
  by (auto simp: mem_update_mapping_def spec_update_def Let_def mem_policy_def update_conv')

lemma mem_remove_refines:
  "(fst (mem_remove_mapping c p s), mem_policy (snd (mem_remove_mapping c p s))) = spec_remove c p (mem_policy s)"
  by (auto simp: mem_remove_mapping_def spec_remove_def mem_policy_def delete_conv')

lemma mem_remove_for_refines:
  "(fst (mem_remove_mappings_for c s), mem_policy (snd (mem_remove_mappings_for c s)))
     = spec_remove_for c (mem_policy s)"
  by (auto simp: mem_remove_mappings_for_def spec_remove_for_def mem_policy_def map_of_retain_keys
      restrict_map_def fun_eq_iff)

lemma mem_save_scopes_refines:
  "(fst (mem_save_scope_mappings ms s), mem_policy (snd (mem_save_scope_mappings ms s)))
     = spec_save_scopes ms (mem_policy s)"
  by (auto simp: mem_save_scope_mappings_def spec_save_scopes_def mem_check_batch_eq mem_policy_def
      map_of_fold_update split: option.split)

lemma mem_update_scope_refines:
  "(fst (mem_update_scope_mapping m s), mem_policy (snd (mem_update_scope_mapping m s)))
     = spec_update_scope m (mem_policy s)"
  by (auto simp: mem_update_scope_mapping_def spec_update_scope_def mem_policy_def update_conv')

lemma mem_remove_scope_refines:
  "(fst (mem_remove_scope_mapping sc s), mem_policy (snd (mem_remove_scope_mapping sc s)))
     = spec_remove_scope sc (mem_policy s)"
  by (auto simp: mem_remove_scope_mapping_def spec_remove_scope_def mem_policy_def delete_conv')

lemma mem_list_refines: "mem_invar s \<Longrightarrow> lists_mappings (mem_policy s) (map snd (entries s))"
  by (simp add: mem_invar_def lists_mappings_def hash_map_values filed_by_keys [of "\<lambda>m. rm_key m"]
      hash_map_ok_def [symmetric] del: map_map)

lemma mem_list_scopes_refines: "mem_invar s \<Longrightarrow> lists_scopes (mem_policy s) (map snd (scope_mappings s))"
  by (simp add: mem_invar_def lists_scopes_def hash_map_values filed_by_keys
      hash_map_ok_def [symmetric] del: map_map)

subsection \<open>Each operation keeps the invariant\<close>

lemma mem_invar_save: "mem_invar s \<Longrightarrow> mem_invar (snd (mem_save_mapping m s))"
  using filed_by_update [of "\<lambda>m. rm_key m" "entries s" m]
  by (auto simp: mem_invar_def mem_save_mapping_def Let_def)

lemma mem_invar_update: "mem_invar s \<Longrightarrow> mem_invar (snd (mem_update_mapping m s))"
  using filed_by_update [of "\<lambda>m. rm_key m" "entries s" m]
  by (auto simp: mem_invar_def mem_update_mapping_def Let_def)

lemma mem_invar_remove: "mem_invar s \<Longrightarrow> mem_invar (snd (mem_remove_mapping c p s))"
  by (simp add: mem_invar_def mem_remove_mapping_def)

lemma mem_invar_remove_for: "mem_invar s \<Longrightarrow> mem_invar (snd (mem_remove_mappings_for c s))"
  by (simp add: mem_invar_def mem_remove_mappings_for_def)

lemma mem_invar_save_scopes: "mem_invar s \<Longrightarrow> mem_invar (snd (mem_save_scope_mappings ms s))"
  by (simp add: mem_invar_def mem_save_scope_mappings_def fold_update_ok split: result.split)

lemma mem_invar_update_scope: "mem_invar s \<Longrightarrow> mem_invar (snd (mem_update_scope_mapping m s))"
  by (simp add: mem_invar_def mem_update_scope_mapping_def)

lemma mem_invar_remove_scope: "mem_invar s \<Longrightarrow> mem_invar (snd (mem_remove_scope_mapping sc s))"
  by (simp add: mem_invar_def mem_remove_scope_mapping_def)

subsection \<open>The store meets its contract\<close>

lemma memory_store_sel [simp]:
  "st_resolve_mapping memory_store = mem_resolve_mapping"
  "st_save_mapping memory_store = mem_save_mapping"
  "st_update_mapping memory_store = mem_update_mapping"
  "st_remove_mapping memory_store = mem_remove_mapping"
  "st_remove_mappings_for memory_store = mem_remove_mappings_for"
  "st_save_scope_mappings memory_store = mem_save_scope_mappings"
  "st_update_scope_mapping memory_store = mem_update_scope_mapping"
  "st_remove_scope_mapping memory_store = mem_remove_scope_mapping"
  "st_list_mappings memory_store = mem_list_mappings"
  "st_list_scope_mappings memory_store = mem_list_scope_mappings"
  by (simp_all add: memory_store_def)

interpretation mem: reliable_store memory_store mem_policy mem_invar "\<lambda>m. m"
proof
  fix s s' :: inner_store and r :: "(unit, resource_error) result"
  fix m ms sm sc and c p :: str
  assume inv: "mem_invar s"
  show "policy_wf (mem_policy s)" by (rule mem_invar_wf [OF inv])
  show "st_save_mapping memory_store m s = (r, s') \<Longrightarrow>
      mem_invar s' \<and> write_meets (spec_save m) (mem_policy s) (mem_policy s') r"
    using mem_save_refines [of m s] mem_invar_save [OF inv, of m] by (simp add: write_meets_def)
  show "st_update_mapping memory_store m s = (r, s') \<Longrightarrow>
      mem_invar s' \<and> write_meets (spec_update m) (mem_policy s) (mem_policy s') r"
    using mem_update_refines [of m s] mem_invar_update [OF inv, of m] by (simp add: write_meets_def)
  show "st_remove_mapping memory_store c p s = (r, s') \<Longrightarrow>
      mem_invar s' \<and> write_meets (spec_remove c p) (mem_policy s) (mem_policy s') r"
    using mem_remove_refines [of c p s] mem_invar_remove [OF inv, of c p] by (simp add: write_meets_def)
  show "st_remove_mappings_for memory_store c s = (r, s') \<Longrightarrow>
      mem_invar s' \<and> write_meets (spec_remove_for c) (mem_policy s) (mem_policy s') r"
    using mem_remove_for_refines [of c s] mem_invar_remove_for [OF inv, of c] by (simp add: write_meets_def)
  show "st_save_scope_mappings memory_store ms s = (r, s') \<Longrightarrow>
      mem_invar s' \<and> write_meets (spec_save_scopes (map (\<lambda>m. m) ms)) (mem_policy s) (mem_policy s') r"
    using mem_save_scopes_refines [of ms s] mem_invar_save_scopes [OF inv, of ms] by (simp add: write_meets_def)
  show "st_update_scope_mapping memory_store sm s = (r, s') \<Longrightarrow>
      mem_invar s' \<and> write_meets (spec_update_scope sm) (mem_policy s) (mem_policy s') r"
    using mem_update_scope_refines [of sm s] mem_invar_update_scope [OF inv, of sm] by (simp add: write_meets_def)
  show "st_remove_scope_mapping memory_store sc s = (r, s') \<Longrightarrow>
      mem_invar s' \<and> write_meets (spec_remove_scope sc) (mem_policy s) (mem_policy s') r"
    using mem_remove_scope_refines [of sc s] mem_invar_remove_scope [OF inv, of sc] by (simp add: write_meets_def)
qed (auto simp: mem_resolve_refines read_meets_def no_db_error_def mem_op_defs mem_save_scope_mappings_def
    mem_check_batch_eq Let_def mem_list_refines mem_list_scopes_refines split: option.splits if_splits)

end
