(* ===== verification/Postgres_Store.thy ===== *)
theory Postgres_Store
  imports Resource_Service
begin

section \<open>The Postgres store\<close>

text \<open>
  \<^verbatim>\<open>crates/jwtlet-postgres/src/resource_store.rs\<close>: every operation as the statements it
  sends, the mapping of rows to values and of database errors to resource errors.

  The database and its driver are not part of the program. A pool is a table of calls over
  a state of the database: executing a statement, fetching rows, and a transaction with
  its own state, which is committed or, when dropped, rolled back. A statement is a
  constructor with its bound parameters. What the program relies on is a locale: the
  documented meaning of the statements, the primary keys, and that a failed call has acted
  entirely or not at all. Under these laws the store meets the contract of the stores.
  Taken alone, an operation is one step; that the two statements of a lookup may have those
  of other requests between them is the subject of \<open>Request_Phases\<close> and \<open>Server_Runs\<close>.
\<close>

subsection \<open>Statements, rows and errors\<close>

record resource_mapping_row =
  rr_client_identifier :: str
  rr_participant_context :: str
  rr_scopes :: "str list"
  rr_audiences :: "str list"

record scope_mapping_row =
  sr_scope :: str
  sr_claims :: json

text \<open>
  The statements in the order of the file, with their parameters \<^verbatim>\<open>$1\<close>, \<^verbatim>\<open>$2\<close>, ...
\<close>

datatype sql =
    CREATE_RESOURCE_MAPPINGS
  | CREATE_RESOURCE_MAPPINGS_INDEX
  | CREATE_SCOPE_MAPPINGS
  | SelectMapping str str
  | SelectScopesAny "str list"
  | InsertMapping str str "str list" "str list"
  | UpdateMappingSet str str "str list" "str list"
  | DeleteMappingWhere str str
  | DeleteMappingsWhereClient str
  | InsertScope str json
  | UpdateScopeSet str json
  | DeleteScopeWhere str
  | SelectMappings
  | SelectScopes

datatype sqlx_error = DatabaseFailure "str option" str | OtherFailure str

fun sqlx_text :: "sqlx_error \<Rightarrow> str" where
  "sqlx_text (DatabaseFailure _ msg) = msg"
| "sqlx_text (OtherFailure msg) = msg"

record ('db, 'tx) pg_pool =
  pg_fetch_mappings :: "sql \<Rightarrow> 'db \<Rightarrow> (resource_mapping_row list, sqlx_error) result \<times> 'db"
  pg_fetch_scopes :: "sql \<Rightarrow> 'db \<Rightarrow> (scope_mapping_row list, sqlx_error) result \<times> 'db"
  pg_execute :: "sql \<Rightarrow> 'db \<Rightarrow> (nat, sqlx_error) result \<times> 'db"
  pg_begin :: "'db \<Rightarrow> ('tx, sqlx_error) result \<times> 'db"
  pg_tx_execute :: "sql \<Rightarrow> 'tx \<Rightarrow> (nat, sqlx_error) result \<times> 'tx"
  pg_commit :: "'tx \<Rightarrow> 'db \<Rightarrow> (unit, sqlx_error) result \<times> 'db"
  pg_rollback :: "'tx \<Rightarrow> 'db \<Rightarrow> 'db"

definition db_error :: "sqlx_error \<Rightarrow> resource_error" where
  "db_error e = DatabaseError (sqlx_text e)"

fun is_unique_violation :: "sqlx_error \<Rightarrow> bool" where
  "is_unique_violation (DatabaseFailure (Some code) _) = (code = lit ''23505'')"
| "is_unique_violation _ = False"

definition row_to_resource_mapping :: "resource_mapping_row \<Rightarrow> resource_mapping" where
  "row_to_resource_mapping row =
     \<lparr>rm_client_identifier = rr_client_identifier row, rm_participant_context = rr_participant_context row,
      rm_scopes = fset_of_list (rr_scopes row), rm_audiences = fset_of_list (rr_audiences row)\<rparr>"

definition row_to_scope_mapping :: "scope_mapping_row \<Rightarrow> scope_mapping" where
  "row_to_scope_mapping row =
     \<lparr>sm_scope = sr_scope row, sm_claims = (case sr_claims row of JObject m \<Rightarrow> m | _ \<Rightarrow> [])\<rparr>"

subsection \<open>Initialisation\<close>

text \<open>A failed statement drops the transaction, which rolls it back.\<close>

fun tx_execute_all ::
    "('db, 'tx) pg_pool \<Rightarrow> sql list \<Rightarrow> 'tx \<Rightarrow> 'db \<Rightarrow> (unit, resource_error) result \<times> 'db" where
  "tx_execute_all pg [] tx db = map_err_io db_error (pg_commit pg tx db)"
| "tx_execute_all pg (q # qs) tx db =
     (case pg_tx_execute pg q tx of
        (Err e, tx') \<Rightarrow> (Err (db_error e), pg_rollback pg tx' db)
      | (Ok _, tx') \<Rightarrow> tx_execute_all pg qs tx' db)"

definition pg_initialize :: "('db, 'tx) pg_pool \<Rightarrow> 'db \<Rightarrow> (unit, resource_error) result \<times> 'db" where
  "pg_initialize pg db =
     bind_io (map_err_io db_error (pg_begin pg db)) (\<lambda>tx db1.
       tx_execute_all pg [CREATE_RESOURCE_MAPPINGS, CREATE_RESOURCE_MAPPINGS_INDEX, CREATE_SCOPE_MAPPINGS] tx db1)"

subsection \<open>The operations\<close>

text \<open>\<^verbatim>\<open>resolve_mapping\<close> sends two statements outside a transaction, each awaited.\<close>

definition pg_lookup_mapping ::
    "('db, 'tx) pg_pool \<Rightarrow> str \<Rightarrow> str \<Rightarrow> 'db \<Rightarrow> (resource_mapping option, resource_error) result \<times> 'db" where
  "pg_lookup_mapping pg c p db =
     bind_io (map_err_io db_error (pg_fetch_mappings pg (SelectMapping c p) db)) (\<lambda>rows db1.
       (Ok (case rows of [] \<Rightarrow> None | row # _ \<Rightarrow> Some (row_to_resource_mapping row)), db1))"

definition pg_lookup_scopes ::
    "hash_iter \<Rightarrow> ('db, 'tx) pg_pool \<Rightarrow> resource_mapping \<Rightarrow> 'db \<Rightarrow> (mapping_pair, resource_error) result \<times> 'db" where
  "pg_lookup_scopes it pg m db =
     bind_io (map_err_io db_error (pg_fetch_scopes pg (SelectScopesAny (it (rm_scopes m))) db)) (\<lambda>srows db1.
       (Ok \<lparr>mp_resource_mapping = m,
            mp_scope_mappings = map_of (rev (map (\<lambda>r. let sm = row_to_scope_mapping r in (sm_scope sm, sm)) srows))\<rparr>,
        db1))"

definition pg_resolve_mapping ::
    "hash_iter \<Rightarrow> ('db, 'tx) pg_pool \<Rightarrow> str \<Rightarrow> str \<Rightarrow> 'db \<Rightarrow> (mapping_pair option, resource_error) result \<times> 'db" where
  "pg_resolve_mapping it pg c p db =
     bind_io (pg_lookup_mapping pg c p db) (\<lambda>found db1.
       case found of
         None \<Rightarrow> (Ok None, db1)
       | Some m \<Rightarrow> bind_io (pg_lookup_scopes it pg m db1) (\<lambda>pair db2. (Ok (Some pair), db2)))"

definition conflict_or :: "str \<Rightarrow> sqlx_error \<Rightarrow> resource_error" where
  "conflict_or key e = (if is_unique_violation e then Conflict key else db_error e)"

definition pg_save_mapping ::
    "hash_iter \<Rightarrow> ('db, 'tx) pg_pool \<Rightarrow> resource_mapping \<Rightarrow> 'db \<Rightarrow> (unit, resource_error) result \<times> 'db" where
  "pg_save_mapping it pg m db =
     bind_io
       (map_err_io (conflict_or (rm_client_identifier m))
          (pg_execute pg (InsertMapping (rm_client_identifier m) (rm_participant_context m)
             (it (rm_scopes m)) (it (rm_audiences m))) db))
       (\<lambda>_ db1. (Ok (), db1))"

definition pg_update_mapping ::
    "hash_iter \<Rightarrow> ('db, 'tx) pg_pool \<Rightarrow> resource_mapping \<Rightarrow> 'db \<Rightarrow> (unit, resource_error) result \<times> 'db" where
  "pg_update_mapping it pg m db =
     bind_io
       (map_err_io db_error
          (pg_execute pg (UpdateMappingSet (rm_client_identifier m) (rm_participant_context m)
             (it (rm_scopes m)) (it (rm_audiences m))) db))
       (\<lambda>n db1. if n = 0 then (Err (NotFound (rm_client_identifier m)), db1) else (Ok (), db1))"

definition pg_remove_mapping ::
    "('db, 'tx) pg_pool \<Rightarrow> str \<Rightarrow> str \<Rightarrow> 'db \<Rightarrow> (unit, resource_error) result \<times> 'db" where
  "pg_remove_mapping pg c p db =
     bind_io (map_err_io db_error (pg_execute pg (DeleteMappingWhere c p) db)) (\<lambda>_ db1. (Ok (), db1))"

definition pg_remove_mappings_for ::
    "('db, 'tx) pg_pool \<Rightarrow> str \<Rightarrow> 'db \<Rightarrow> (unit, resource_error) result \<times> 'db" where
  "pg_remove_mappings_for pg c db =
     bind_io (map_err_io db_error (pg_execute pg (DeleteMappingsWhereClient c) db)) (\<lambda>_ db1. (Ok (), db1))"

text \<open>The loop of \<^verbatim>\<open>save_scope_mappings\<close> inside its transaction.\<close>

fun pg_insert_scopes ::
    "('db, 'tx) pg_pool \<Rightarrow> scope_mapping list \<Rightarrow> 'tx \<Rightarrow> (unit, resource_error) result \<times> 'tx" where
  "pg_insert_scopes pg [] tx = (Ok (), tx)"
| "pg_insert_scopes pg (m # ms) tx =
     bind_io (map_err_io (conflict_or (sm_scope m)) (pg_tx_execute pg (InsertScope (sm_scope m) (JObject (sm_claims m))) tx))
       (\<lambda>_ tx1. pg_insert_scopes pg ms tx1)"

definition pg_save_scope_mappings ::
    "('db, 'tx) pg_pool \<Rightarrow> scope_mapping list \<Rightarrow> 'db \<Rightarrow> (unit, resource_error) result \<times> 'db" where
  "pg_save_scope_mappings pg ms db =
     bind_io (map_err_io db_error (pg_begin pg db)) (\<lambda>tx db1.
       case pg_insert_scopes pg ms tx of
         (Err e, tx') \<Rightarrow> (Err e, pg_rollback pg tx' db1)
       | (Ok _, tx') \<Rightarrow> map_err_io db_error (pg_commit pg tx' db1))"

definition pg_update_scope_mapping ::
    "('db, 'tx) pg_pool \<Rightarrow> scope_mapping \<Rightarrow> 'db \<Rightarrow> (unit, resource_error) result \<times> 'db" where
  "pg_update_scope_mapping pg m db =
     bind_io (map_err_io db_error (pg_execute pg (UpdateScopeSet (sm_scope m) (JObject (sm_claims m))) db))
       (\<lambda>n db1. if n = 0 then (Err (NotFound (sm_scope m)), db1) else (Ok (), db1))"

definition pg_remove_scope_mapping ::
    "('db, 'tx) pg_pool \<Rightarrow> str \<Rightarrow> 'db \<Rightarrow> (unit, resource_error) result \<times> 'db" where
  "pg_remove_scope_mapping pg sc db =
     bind_io (map_err_io db_error (pg_execute pg (DeleteScopeWhere sc) db)) (\<lambda>_ db1. (Ok (), db1))"

definition pg_list_mappings ::
    "('db, 'tx) pg_pool \<Rightarrow> 'db \<Rightarrow> (resource_mapping list, resource_error) result \<times> 'db" where
  "pg_list_mappings pg db =
     bind_io (map_err_io db_error (pg_fetch_mappings pg SelectMappings db)) (\<lambda>rows db1.
       (Ok (map row_to_resource_mapping rows), db1))"

definition pg_list_scope_mappings ::
    "('db, 'tx) pg_pool \<Rightarrow> 'db \<Rightarrow> (scope_mapping list, resource_error) result \<times> 'db" where
  "pg_list_scope_mappings pg db =
     bind_io (map_err_io db_error (pg_fetch_scopes pg SelectScopes db)) (\<lambda>rows db1.
       (Ok (map row_to_scope_mapping rows), db1))"

definition postgres_store :: "hash_iter \<Rightarrow> ('db, 'tx) pg_pool \<Rightarrow> 'db resource_store" where
  "postgres_store it pg = \<lparr>
     st_resolve_mapping = pg_resolve_mapping it pg,
     st_save_mapping = pg_save_mapping it pg,
     st_update_mapping = pg_update_mapping it pg,
     st_remove_mapping = pg_remove_mapping pg,
     st_remove_mappings_for = pg_remove_mappings_for pg,
     st_save_scope_mappings = pg_save_scope_mappings pg,
     st_update_scope_mapping = pg_update_scope_mapping pg,
     st_remove_scope_mapping = pg_remove_scope_mapping pg,
     st_list_mappings = pg_list_mappings pg,
     st_list_scope_mappings = pg_list_scope_mappings pg\<rparr>"

subsection \<open>What the statements mean\<close>

text \<open>
  The two tables with their primary keys as maps. \<open>jsonb\<close> is what a JSONB column keeps of
  a value. The effect of a statement is its number of rows, or the violation of a primary
  key, and the new tables.
\<close>

record pg_tables =
  tb_mappings :: "str \<times> str \<rightharpoonup> str list \<times> str list"
  tb_scopes :: "str \<rightharpoonup> json"

fun sql_effect :: "(json \<Rightarrow> json) \<Rightarrow> sql \<Rightarrow> pg_tables \<Rightarrow> nat option \<times> pg_tables" where
  "sql_effect jsonb (InsertMapping c p ss as) t =
     (if tb_mappings t (c, p) \<noteq> None then (None, t)
      else (Some 1, t\<lparr>tb_mappings := (tb_mappings t)((c, p) \<mapsto> (ss, as))\<rparr>))"
| "sql_effect jsonb (UpdateMappingSet c p ss as) t =
     (if tb_mappings t (c, p) = None then (Some 0, t)
      else (Some 1, t\<lparr>tb_mappings := (tb_mappings t)((c, p) \<mapsto> (ss, as))\<rparr>))"
| "sql_effect jsonb (DeleteMappingWhere c p) t =
     (Some (if tb_mappings t (c, p) = None then 0 else 1), t\<lparr>tb_mappings := (tb_mappings t)((c, p) := None)\<rparr>)"
| "sql_effect jsonb (DeleteMappingsWhereClient c) t =
     (Some (card {k \<in> dom (tb_mappings t). fst k = c}), t\<lparr>tb_mappings := tb_mappings t |` {k. fst k \<noteq> c}\<rparr>)"
| "sql_effect jsonb (InsertScope sc j) t =
     (if tb_scopes t sc \<noteq> None then (None, t)
      else (Some 1, t\<lparr>tb_scopes := (tb_scopes t)(sc \<mapsto> jsonb j)\<rparr>))"
| "sql_effect jsonb (UpdateScopeSet sc j) t =
     (if tb_scopes t sc = None then (Some 0, t)
      else (Some 1, t\<lparr>tb_scopes := (tb_scopes t)(sc \<mapsto> jsonb j)\<rparr>))"
| "sql_effect jsonb (DeleteScopeWhere sc) t =
     (Some (if tb_scopes t sc = None then 0 else 1), t\<lparr>tb_scopes := (tb_scopes t)(sc := None)\<rparr>)"
| "sql_effect jsonb _ t = (Some 0, t)"

text \<open>
  A call answers with the effect, with a unique violation exactly when a primary key is
  violated, or it fails otherwise and has acted entirely or not at all.
\<close>

definition call_meets ::
    "(pg_tables \<Rightarrow> nat option \<times> pg_tables) \<Rightarrow> pg_tables \<Rightarrow> pg_tables \<Rightarrow> (nat, sqlx_error) result \<Rightarrow> bool" where
  "call_meets eff t t' r \<longleftrightarrow>
     (case r of
        Ok n \<Rightarrow> eff t = (Some n, t')
      | Err e \<Rightarrow>
          if is_unique_violation e then fst (eff t) = None \<and> t' = t
          else t' = t \<or> t' = snd (eff t))"

fun selects_mapping :: "sql \<Rightarrow> str \<times> str \<Rightarrow> bool" where
  "selects_mapping (SelectMapping c p) k = (k = (c, p))"
| "selects_mapping SelectMappings k = True"
| "selects_mapping _ k = False"

fun selects_scope :: "sql \<Rightarrow> str \<Rightarrow> bool" where
  "selects_scope (SelectScopesAny scs) k = (k \<in> set scs)"
| "selects_scope SelectScopes k = True"
| "selects_scope _ k = False"

definition mapping_row :: "str \<times> str \<Rightarrow> str list \<times> str list \<Rightarrow> resource_mapping_row" where
  "mapping_row k v = \<lparr>rr_client_identifier = fst k, rr_participant_context = snd k, rr_scopes = fst v, rr_audiences = snd v\<rparr>"

definition scope_row :: "str \<Rightarrow> json \<Rightarrow> scope_mapping_row" where
  "scope_row s j = \<lparr>sr_scope = s, sr_claims = j\<rparr>"

definition mapping_rows :: "(str \<times> str \<Rightarrow> bool) \<Rightarrow> pg_tables \<Rightarrow> resource_mapping_row list \<Rightarrow> bool" where
  "mapping_rows sel t rows \<longleftrightarrow>
     distinct (map (\<lambda>r. (rr_client_identifier r, rr_participant_context r)) rows)
     \<and> set rows = {mapping_row k v | k v. tb_mappings t k = Some v \<and> sel k}"

definition scope_rows :: "(str \<Rightarrow> bool) \<Rightarrow> pg_tables \<Rightarrow> scope_mapping_row list \<Rightarrow> bool" where
  "scope_rows sel t rows \<longleftrightarrow>
     distinct (map sr_scope rows) \<and> set rows = {scope_row k v | k v. tb_scopes t k = Some v \<and> sel k}"

locale sql_database =
  fixes it :: hash_iter
    and pg :: "('db, 'tx) pg_pool"
    and tables :: "'db \<Rightarrow> pg_tables"
    and view :: "'tx \<Rightarrow> pg_tables"
    and db_ok :: "'db \<Rightarrow> bool"
    and tx_ok :: "'db \<Rightarrow> 'tx \<Rightarrow> bool"
    and jsonb :: "json \<Rightarrow> json"
  assumes iter: "valid_iter it"
    and jsonb_object: "\<exists>m'. jsonb (JObject m) = JObject m' \<and> fst ` set m' = fst ` set m"
    and tables_finite: "db_ok db \<Longrightarrow> finite (dom (tb_mappings (tables db))) \<and> finite (dom (tb_scopes (tables db)))"
    and execute_law: "db_ok db \<Longrightarrow> pg_execute pg q db = (r, db') \<Longrightarrow>
        db_ok db' \<and> call_meets (sql_effect jsonb q) (tables db) (tables db') r"
    and fetch_mappings_law: "db_ok db \<Longrightarrow> pg_fetch_mappings pg q db = (r1, db') \<Longrightarrow>
        db_ok db' \<and> tables db' = tables db
        \<and> (\<forall>rows. r1 = Ok rows \<longrightarrow> mapping_rows (selects_mapping q) (tables db) rows)"
    and fetch_scopes_law: "db_ok db \<Longrightarrow> pg_fetch_scopes pg q db = (r2, db') \<Longrightarrow>
        db_ok db' \<and> tables db' = tables db
        \<and> (\<forall>rows. r2 = Ok rows \<longrightarrow> scope_rows (selects_scope q) (tables db) rows)"
    and begin_law: "db_ok db \<Longrightarrow> pg_begin pg db = (r3, db') \<Longrightarrow>
        db_ok db' \<and> tables db' = tables db \<and> (\<forall>tx. r3 = Ok tx \<longrightarrow> tx_ok db' tx \<and> view tx = tables db)"
    and tx_execute_law: "tx_ok db tx \<Longrightarrow> pg_tx_execute pg q tx = (r, tx') \<Longrightarrow>
        call_meets (sql_effect jsonb q) (view tx) (view tx') r \<and> (is_ok r \<longrightarrow> tx_ok db tx')"
    and commit_law: "db_ok db \<Longrightarrow> tx_ok db tx \<Longrightarrow> pg_commit pg tx db = (r4, db') \<Longrightarrow>
        db_ok db' \<and> (tables db' = view tx \<or> tables db' = tables db \<and> \<not> is_ok r4)"
    and rollback_law: "db_ok db \<Longrightarrow> db_ok (pg_rollback pg tx db) \<and> tables (pg_rollback pg tx db) = tables db"

subsection \<open>The store meets its contract\<close>

definition pg_mapping :: "str \<times> str \<Rightarrow> str list \<times> str list \<Rightarrow> resource_mapping" where
  "pg_mapping k v = row_to_resource_mapping (mapping_row k v)"

definition pg_scope :: "str \<Rightarrow> json \<Rightarrow> scope_mapping" where
  "pg_scope s j = row_to_scope_mapping (scope_row s j)"

definition pg_policy :: "pg_tables \<Rightarrow> policy" where
  "pg_policy t = \<lparr>pol_mappings = (\<lambda>k. map_option (pg_mapping k) (tb_mappings t k)),
                  pol_scopes = (\<lambda>s. map_option (pg_scope s) (tb_scopes t s))\<rparr>"

definition pg_keep :: "(json \<Rightarrow> json) \<Rightarrow> scope_mapping \<Rightarrow> scope_mapping" where
  "pg_keep jsonb m = pg_scope (sm_scope m) (jsonb (JObject (sm_claims m)))"

lemma pg_mapping_sel [simp]:
  "rm_client_identifier (pg_mapping k v) = fst k" "rm_participant_context (pg_mapping k v) = snd k"
  "rm_scopes (pg_mapping k v) = fset_of_list (fst v)" "rm_audiences (pg_mapping k v) = fset_of_list (snd v)"
  by (simp_all add: pg_mapping_def row_to_resource_mapping_def mapping_row_def)

lemma sm_scope_pg_scope [simp]: "sm_scope (pg_scope s j) = s"
  by (simp add: pg_scope_def row_to_scope_mapping_def scope_row_def)

lemma sm_scope_pg_keep [simp]: "sm_scope (pg_keep jsonb m) = sm_scope m"
  by (simp add: pg_keep_def)

lemma pg_policy_sel [simp]:
  "pol_mappings (pg_policy t) k = map_option (pg_mapping k) (tb_mappings t k)"
  "pol_scopes (pg_policy t) s = map_option (pg_scope s) (tb_scopes t s)"
  by (simp_all add: pg_policy_def)

lemma pg_mapping_written:
  "valid_iter it \<Longrightarrow> pg_mapping (rm_key m) (it (rm_scopes m), it (rm_audiences m)) = m"
  by (rule resource_mapping.equality) (auto simp: fset_of_list.rep_eq fset_inject [symmetric])

text \<open>A statement against the abstract operation it stands for.\<close>

lemma call_write:
  assumes "call_meets eff t t' r"
    and "\<And>t1. eff t = (None, t1) \<Longrightarrow> t1 = t \<and> spec (P t) = (Err c, P t)"
    and "\<And>n t1. eff t = (Some n, t1) \<Longrightarrow> spec (P t) = (res n, P t1)"
    and "\<And>n. r = Ok n \<Longrightarrow> r' = res n"
    and "\<And>e. r = Err e \<Longrightarrow> is_unique_violation e \<Longrightarrow> fst (eff t) = None \<Longrightarrow> r' = Err c"
    and "\<And>e. r = Err e \<Longrightarrow> \<not> is_unique_violation e \<Longrightarrow> \<exists>msg. r' = Err (DatabaseError msg)"
  shows "write_meets spec (P t) (P t') r'"
proof (cases r)
  case (Ok n)
  with assms(1) have "eff t = (Some n, t')" by (simp add: call_meets_def)
  with assms(3) assms(4) [OF Ok] show ?thesis by (simp add: write_meets_def)
next
  case (Err e)
  obtain x t1 where eff: "eff t = (x, t1)" by (cases "eff t")
  show ?thesis
  proof (cases "is_unique_violation e")
    case True
    with Err assms(1) have "x = None" "t' = t" by (simp_all add: call_meets_def eff)
    with assms(2) [of t1] assms(5) [OF Err True] eff show ?thesis by (simp add: write_meets_def)
  next
    case False
    then obtain msg where r': "r' = Err (DatabaseError msg)" using assms(6) [OF Err] by blast
    from False Err assms(1) have "t' = t \<or> t' = t1" by (simp add: call_meets_def eff)
    moreover have "P t1 = P t \<or> P t1 = snd (spec (P t))"
      using assms(2) [of t1] assms(3) [of _ t1] eff by (cases x) auto
    ultimately show ?thesis using r' by (auto simp: write_meets_def)
  qed
qed

lemma policy_eqI: "pol_mappings a = pol_mappings b \<Longrightarrow> pol_scopes a = pol_scopes b \<Longrightarrow> a = (b :: policy)"
  by simp

text \<open>The rows of a table as the entries of the policy.\<close>

lemma image_collect2: "f ` {g k v | k v. P k v} = {f (g k v) | k v. P k v}"
  by auto

lemma scope_table:
  assumes "scope_rows sel t rows"
  shows "map_of (rev (map (\<lambda>r. let sm = row_to_scope_mapping r in (sm_scope sm, sm)) rows))
     = pol_scopes (pg_policy t) |` Collect sel"
proof -
  let ?kvs = "map (\<lambda>r. let sm = row_to_scope_mapping r in (sm_scope sm, sm)) rows"
  have keys: "map fst ?kvs = map sr_scope rows"
    by (simp add: Let_def row_to_scope_mapping_def)
  have kvs: "set ?kvs = {(s, pg_scope s j) | s j. tb_scopes t s = Some j \<and> sel s}"
    using assms by (simp add: scope_rows_def image_collect2 pg_scope_def Let_def)
      (simp add: row_to_scope_mapping_def scope_row_def)
  have dist: "distinct (map fst (rev ?kvs))"
    using assms unfolding rev_map [symmetric] keys distinct_rev scope_rows_def by blast
  have "map_of (rev ?kvs) s = (pol_scopes (pg_policy t) |` Collect sel) s" for s
  proof (cases "\<exists>j. tb_scopes t s = Some j \<and> sel s")
    case True
    then obtain j where j: "tb_scopes t s = Some j" "sel s" by blast
    then have "(s, pg_scope s j) \<in> set (rev ?kvs)" unfolding set_rev kvs by blast
    with dist have "map_of (rev ?kvs) s = Some (pg_scope s j)" by (rule map_of_is_SomeI)
    with j show ?thesis by simp
  next
    case False
    then have "s \<notin> fst ` set (rev ?kvs)" unfolding set_rev kvs by auto
    then have "map_of (rev ?kvs) s = None" by (simp add: map_of_eq_None_iff)
    with False show ?thesis by (cases "tb_scopes t s") (auto simp: restrict_map_def)
  qed
  then show ?thesis by blast
qed

lemma mapping_table:
  assumes "mapping_rows (selects_mapping SelectMappings) t rows"
  shows "lists_mappings (pg_policy t) (map row_to_resource_mapping rows)"
proof -
  have "map (\<lambda>m. rm_key m) (map row_to_resource_mapping rows)
      = map (\<lambda>r. (rr_client_identifier r, rr_participant_context r)) rows"
    by (simp add: row_to_resource_mapping_def)
  moreover have "set (map row_to_resource_mapping rows) = ran (pol_mappings (pg_policy t))"
  proof -
    have "set (map row_to_resource_mapping rows) = row_to_resource_mapping ` {mapping_row k v | k v. tb_mappings t k = Some v}"
      using assms by (simp add: mapping_rows_def)
    also have "\<dots> = {pg_mapping k v | k v. tb_mappings t k = Some v}"
      unfolding image_collect2 pg_mapping_def ..
    also have "\<dots> = ran (pol_mappings (pg_policy t))"
      by (auto simp: ran_def)
    finally show ?thesis .
  qed
  ultimately show ?thesis
    using assms unfolding lists_mappings_def mapping_rows_def by argo
qed

lemma all_scope_rows:
  assumes "scope_rows (selects_scope SelectScopes) t rows"
  shows "lists_scopes (pg_policy t) (map row_to_scope_mapping rows)"
proof -
  have "map sm_scope (map row_to_scope_mapping rows) = map sr_scope rows"
    by (simp add: row_to_scope_mapping_def)
  moreover have "set (map row_to_scope_mapping rows) = ran (pol_scopes (pg_policy t))"
  proof -
    have "set (map row_to_scope_mapping rows) = row_to_scope_mapping ` {scope_row k v | k v. tb_scopes t k = Some v}"
      using assms by (simp add: scope_rows_def)
    also have "\<dots> = {pg_scope k v | k v. tb_scopes t k = Some v}"
      unfolding image_collect2 pg_scope_def ..
    also have "\<dots> = ran (pol_scopes (pg_policy t))"
      by (auto simp: ran_def)
    finally show ?thesis .
  qed
  ultimately show ?thesis
    using assms unfolding lists_scopes_def scope_rows_def by argo
qed

text \<open>The two shapes in which the code reads the answer to a statement.\<close>

lemma bind_done:
  "bind_io (map_err_io f rw) (\<lambda>_ w. (Ok (), w))
     = (case fst rw of Ok _ \<Rightarrow> Ok () | Err e \<Rightarrow> Err (f e), snd rw)"
  by (cases rw; cases "fst rw") auto

lemma bind_counted:
  "bind_io (map_err_io f rw) (\<lambda>n w. if n = (0::nat) then (Err x, w) else (Ok (), w))
     = (case fst rw of Ok n \<Rightarrow> if n = 0 then Err x else Ok () | Err e \<Rightarrow> Err (f e), snd rw)"
  by (cases rw; cases "fst rw") auto

lemmas pg_spec_simps = pg_policy_def conflict_or_def db_error_def fun_eq_iff restrict_map_def

context sql_database begin

lemma save_meets:
  assumes "db_ok db" "pg_save_mapping it pg m db = (r, db')"
  shows "db_ok db' \<and> write_meets (spec_save m) (pg_policy (tables db)) (pg_policy (tables db')) r"
proof -
  let ?q = "InsertMapping (rm_client_identifier m) (rm_participant_context m) (it (rm_scopes m)) (it (rm_audiences m))"
  obtain r1 where ex: "pg_execute pg ?q db = (r1, db')"
      and r: "r = (case r1 of Ok _ \<Rightarrow> Ok () | Err e \<Rightarrow> Err (conflict_or (rm_client_identifier m) e))"
    using assms(2) by (cases "pg_execute pg ?q db") (auto simp: pg_save_mapping_def bind_done)
  note law = execute_law [OF assms(1) ex]
  have "write_meets (spec_save m) (pg_policy (tables db)) (pg_policy (tables db')) r"
    by (rule call_write [of "sql_effect jsonb ?q" _ _ r1 _ _ "Conflict (rm_client_identifier m)" "\<lambda>_. Ok ()"])
      (use law r pg_mapping_written [OF iter, of m] in \<open>auto simp: spec_save_def pg_spec_simps split: if_splits\<close>)
  with law show ?thesis by simp
qed

lemma update_meets:
  assumes "db_ok db" "pg_update_mapping it pg m db = (r, db')"
  shows "db_ok db' \<and> write_meets (spec_update m) (pg_policy (tables db)) (pg_policy (tables db')) r"
proof -
  let ?q = "UpdateMappingSet (rm_client_identifier m) (rm_participant_context m) (it (rm_scopes m)) (it (rm_audiences m))"
  let ?res = "\<lambda>n. if n = 0 then Err (NotFound (rm_client_identifier m)) else Ok ()"
  obtain r1 where ex: "pg_execute pg ?q db = (r1, db')"
      and r: "r = (case r1 of Ok n \<Rightarrow> ?res n | Err e \<Rightarrow> Err (db_error e))"
    using assms(2) by (cases "pg_execute pg ?q db") (auto simp: pg_update_mapping_def bind_counted)
  note law = execute_law [OF assms(1) ex]
  have "write_meets (spec_update m) (pg_policy (tables db)) (pg_policy (tables db')) r"
    by (rule call_write [of "sql_effect jsonb ?q" _ _ r1 _ _ _ ?res])
      (use law r pg_mapping_written [OF iter, of m] in \<open>auto simp: spec_update_def pg_spec_simps split: if_splits\<close>)
  with law show ?thesis by simp
qed

lemma remove_meets:
  assumes "db_ok db" "pg_remove_mapping pg c p db = (r, db')"
  shows "db_ok db' \<and> write_meets (spec_remove c p) (pg_policy (tables db)) (pg_policy (tables db')) r"
proof -
  obtain r1 where ex: "pg_execute pg (DeleteMappingWhere c p) db = (r1, db')"
      and r: "r = (case r1 of Ok _ \<Rightarrow> Ok () | Err e \<Rightarrow> Err (db_error e))"
    using assms(2) by (cases "pg_execute pg (DeleteMappingWhere c p) db") (auto simp: pg_remove_mapping_def bind_done)
  note law = execute_law [OF assms(1) ex]
  have "write_meets (spec_remove c p) (pg_policy (tables db)) (pg_policy (tables db')) r"
    by (rule call_write [of "sql_effect jsonb (DeleteMappingWhere c p)" _ _ r1 _ _ _ "\<lambda>_. Ok ()"])
      (use law r in \<open>auto simp: spec_remove_def pg_spec_simps split: if_splits\<close>)
  with law show ?thesis by simp
qed

lemma remove_for_meets:
  assumes "db_ok db" "pg_remove_mappings_for pg c db = (r, db')"
  shows "db_ok db' \<and> write_meets (spec_remove_for c) (pg_policy (tables db)) (pg_policy (tables db')) r"
proof -
  obtain r1 where ex: "pg_execute pg (DeleteMappingsWhereClient c) db = (r1, db')"
      and r: "r = (case r1 of Ok _ \<Rightarrow> Ok () | Err e \<Rightarrow> Err (db_error e))"
    using assms(2) by (cases "pg_execute pg (DeleteMappingsWhereClient c) db")
      (auto simp: pg_remove_mappings_for_def bind_done)
  note law = execute_law [OF assms(1) ex]
  have "write_meets (spec_remove_for c) (pg_policy (tables db)) (pg_policy (tables db')) r"
    by (rule call_write [of "sql_effect jsonb (DeleteMappingsWhereClient c)" _ _ r1 _ _ _ "\<lambda>_. Ok ()"])
      (use law r in \<open>auto simp: spec_remove_for_def pg_spec_simps split: if_splits\<close>)
  with law show ?thesis by simp
qed

lemma update_scope_meets:
  assumes "db_ok db" "pg_update_scope_mapping pg m db = (r, db')"
  shows "db_ok db' \<and> write_meets (spec_update_scope (pg_keep jsonb m)) (pg_policy (tables db)) (pg_policy (tables db')) r"
proof -
  let ?q = "UpdateScopeSet (sm_scope m) (JObject (sm_claims m))"
  let ?res = "\<lambda>n. if n = 0 then Err (NotFound (sm_scope m)) else Ok ()"
  obtain r1 where ex: "pg_execute pg ?q db = (r1, db')"
      and r: "r = (case r1 of Ok n \<Rightarrow> ?res n | Err e \<Rightarrow> Err (db_error e))"
    using assms(2) by (cases "pg_execute pg ?q db") (auto simp: pg_update_scope_mapping_def bind_counted)
  note law = execute_law [OF assms(1) ex]
  have "write_meets (spec_update_scope (pg_keep jsonb m)) (pg_policy (tables db)) (pg_policy (tables db')) r"
    by (rule call_write [of "sql_effect jsonb ?q" _ _ r1 _ _ _ ?res])
      (use law r in \<open>auto simp: spec_update_scope_def pg_keep_def pg_spec_simps split: if_splits\<close>)
  with law show ?thesis by simp
qed

lemma remove_scope_meets:
  assumes "db_ok db" "pg_remove_scope_mapping pg sc db = (r, db')"
  shows "db_ok db' \<and> write_meets (spec_remove_scope sc) (pg_policy (tables db)) (pg_policy (tables db')) r"
proof -
  obtain r1 where ex: "pg_execute pg (DeleteScopeWhere sc) db = (r1, db')"
      and r: "r = (case r1 of Ok _ \<Rightarrow> Ok () | Err e \<Rightarrow> Err (db_error e))"
    using assms(2) by (cases "pg_execute pg (DeleteScopeWhere sc) db") (auto simp: pg_remove_scope_mapping_def bind_done)
  note law = execute_law [OF assms(1) ex]
  have "write_meets (spec_remove_scope sc) (pg_policy (tables db)) (pg_policy (tables db')) r"
    by (rule call_write [of "sql_effect jsonb (DeleteScopeWhere sc)" _ _ r1 _ _ _ "\<lambda>_. Ok ()"])
      (use law r in \<open>auto simp: spec_remove_scope_def pg_spec_simps split: if_splits\<close>)
  with law show ?thesis by simp
qed

text \<open>The batch: the loop fails at the first conflict, and only there, or the database fails.\<close>

lemma insert_scopes_meets:
  assumes "tx_ok db tx" "pg_insert_scopes pg ms tx = (r, tx')"
  shows "case r of
      Ok _ \<Rightarrow> tx_ok db tx' \<and> first_conflict (dom (tb_scopes (view tx))) ms = None
        \<and> pg_policy (view tx') = (pg_policy (view tx))
            \<lparr>pol_scopes := add_scopes (map (pg_keep jsonb) ms) (pol_scopes (pg_policy (view tx)))\<rparr>
    | Err e \<Rightarrow> (\<exists>sc. e = Conflict sc \<and> first_conflict (dom (tb_scopes (view tx))) ms = Some sc)
        \<or> (\<exists>msg. e = DatabaseError msg)"
  using assms
proof (induction ms arbitrary: tx)
  case (Cons m ms)
  let ?q = "InsertScope (sm_scope m) (JObject (sm_claims m))"
  obtain r1 tx1 where ex: "pg_tx_execute pg ?q tx = (r1, tx1)" by (cases "pg_tx_execute pg ?q tx")
  note law = tx_execute_law [OF Cons.prems(1) ex]
  show ?case
  proof (cases r1)
    case (Err e)
    with law Cons.prems(2) ex show ?thesis
      by (cases "is_unique_violation e")
        (auto simp: call_meets_def conflict_or_def db_error_def domIff split: if_splits)
  next
    case (Ok n)
    with law have new: "tb_scopes (view tx) (sm_scope m) = None" and ok1: "tx_ok db tx1"
        and view1: "view tx1 = (view tx)\<lparr>tb_scopes := (tb_scopes (view tx))(sm_scope m \<mapsto> jsonb (JObject (sm_claims m)))\<rparr>"
      by (auto simp: call_meets_def split: if_splits)
    have dom1: "dom (tb_scopes (view tx1)) = insert (sm_scope m) (dom (tb_scopes (view tx)))"
      by (simp add: view1)
    have pol1: "pg_policy (view tx1) = (pg_policy (view tx))
        \<lparr>pol_scopes := (pol_scopes (pg_policy (view tx)))(sm_scope m \<mapsto> pg_keep jsonb m)\<rparr>"
      by (auto simp: view1 pg_policy_def pg_keep_def fun_eq_iff)
    have "pg_insert_scopes pg ms tx1 = (r, tx')"
      using Cons.prems(2) ex Ok by simp
    from Cons.IH [OF ok1 this] new dom1 pol1 show ?thesis
      by (auto simp: domIff simp del: pg_policy_sel fun_upd_apply split: result.splits)
  qed
qed auto

lemma first_conflict_keep: "first_conflict taken (map (pg_keep jsonb) ms) = first_conflict taken ms"
  by (induction ms arbitrary: taken) auto

lemma dom_pg_scopes: "dom (pol_scopes (pg_policy t)) = dom (tb_scopes t)"
  by (auto simp: pg_policy_def dom_def)

lemma save_scopes_meets:
  assumes "db_ok db" "pg_save_scope_mappings pg ms db = (r, db')"
  shows "db_ok db' \<and> write_meets (spec_save_scopes (map (pg_keep jsonb) ms))
    (pg_policy (tables db)) (pg_policy (tables db')) r"
proof -
  obtain r1 db1 where bg: "pg_begin pg db = (r1, db1)" by (cases "pg_begin pg db")
  note begun = begin_law [OF assms(1) bg]
  show ?thesis
  proof (cases r1)
    case (Err e)
    with assms(2) bg begun show ?thesis
      by (auto simp: pg_save_scope_mappings_def db_error_def write_meets_def)
  next
    case (Ok tx)
    obtain r2 tx2 where ins: "pg_insert_scopes pg ms tx = (r2, tx2)" by (cases "pg_insert_scopes pg ms tx")
    have tx: "tx_ok db1 tx" "view tx = tables db" using begun Ok by auto
    note meets = insert_scopes_meets [OF tx(1) ins, unfolded tx(2)]
    show ?thesis
    proof (cases r2)
      case (Err e)
      with assms(2) bg Ok ins have "r = Err e" "db' = pg_rollback pg tx2 db1"
        by (auto simp: pg_save_scope_mappings_def)
      with Err meets rollback_law [of db1 tx2] begun show ?thesis
        by (auto simp: write_meets_def spec_save_scopes_def first_conflict_keep dom_pg_scopes)
    next
      case Ok2: (Ok u)
      obtain r3 db3 where cm: "pg_commit pg tx2 db1 = (r3, db3)" by (cases "pg_commit pg tx2 db1")
      have "r = map_err db_error r3" "db' = db3"
        using assms(2) bg Ok ins Ok2 cm by (auto simp: pg_save_scope_mappings_def map_err_io_def)
      with commit_law [OF _ _ cm] begun meets Ok2 show ?thesis
        by (cases r3) (auto simp: write_meets_def spec_save_scopes_def first_conflict_keep dom_pg_scopes db_error_def)
    qed
  qed
qed

subsubsection \<open>Reads\<close>

lemma lookup_mapping_law:
  assumes "db_ok db" "pg_lookup_mapping pg c p db = (r, db')"
  shows "db_ok db' \<and> tables db' = tables db
    \<and> (case r of Ok found \<Rightarrow> found = pol_mappings (pg_policy (tables db)) (c, p) | Err e \<Rightarrow> \<exists>msg. e = DatabaseError msg)"
proof -
  obtain r1 db1 where f: "pg_fetch_mappings pg (SelectMapping c p) db = (r1, db1)"
    by (cases "pg_fetch_mappings pg (SelectMapping c p) db")
  note law = fetch_mappings_law [OF assms(1) f]
  show ?thesis
  proof (cases r1)
    case (Err e)
    with assms(2) f law show ?thesis by (auto simp: pg_lookup_mapping_def db_error_def)
  next
    case (Ok rows)
    with law have rows: "set rows = {mapping_row (c, p) v | v. tb_mappings (tables db) (c, p) = Some v}"
      by (auto simp: mapping_rows_def)
    have "(case rows of [] \<Rightarrow> None | row # _ \<Rightarrow> Some (row_to_resource_mapping row))
        = pol_mappings (pg_policy (tables db)) (c, p)"
    proof (cases rows)
      case Nil
      with rows have "tb_mappings (tables db) (c, p) = None" by (cases "tb_mappings (tables db) (c, p)") auto
      with Nil show ?thesis by simp
    next
      case (Cons row rest)
      then have "row \<in> set rows" by simp
      with Cons show ?thesis unfolding rows by (auto simp: pg_mapping_def)
    qed
    with assms(2) f law Ok show ?thesis by (auto simp: pg_lookup_mapping_def)
  qed
qed

lemma lookup_scopes_law:
  assumes "db_ok db" "pg_lookup_scopes it pg m db = (r, db')"
  shows "db_ok db' \<and> tables db' = tables db
    \<and> (case r of
         Ok pair \<Rightarrow> pair = \<lparr>mp_resource_mapping = m,
           mp_scope_mappings = pol_scopes (pg_policy (tables db)) |` fset (rm_scopes m)\<rparr>
       | Err e \<Rightarrow> \<exists>msg. e = DatabaseError msg)"
proof -
  obtain r2 db2 where f: "pg_fetch_scopes pg (SelectScopesAny (it (rm_scopes m))) db = (r2, db2)"
    by (cases "pg_fetch_scopes pg (SelectScopesAny (it (rm_scopes m))) db")
  note law = fetch_scopes_law [OF assms(1) f]
  show ?thesis
  proof (cases r2)
    case (Err e)
    with assms(2) f law show ?thesis by (auto simp: pg_lookup_scopes_def db_error_def)
  next
    case (Ok srows)
    with law have "scope_rows (\<lambda>k. k |\<in>| rm_scopes m) (tables db) srows"
      using iter by (auto simp: scope_rows_def)
    from scope_table [OF this] assms(2) f law Ok show ?thesis
      by (auto simp: pg_lookup_scopes_def Collect_mem_eq)
  qed
qed

lemma resolve_meets:
  assumes "db_ok db" "pg_resolve_mapping it pg c p db = (r, db')"
  shows "db_ok db' \<and> read_meets (\<lambda>x. x = spec_resolve (pg_policy (tables db)) c p)
    (pg_policy (tables db)) (pg_policy (tables db')) r"
proof -
  obtain r1 db1 where l1: "pg_lookup_mapping pg c p db = (r1, db1)"
    by (cases "pg_lookup_mapping pg c p db")
  note law1 = lookup_mapping_law [OF assms(1) l1]
  show ?thesis
  proof (cases r1)
    case (Ok found)
    show ?thesis
    proof (cases found)
      case (Some m)
      obtain r2 db2 where l2: "pg_lookup_scopes it pg m db1 = (r2, db2)"
        by (cases "pg_lookup_scopes it pg m db1")
      from lookup_scopes_law [OF conjunct1 [OF law1] l2] law1 assms(2) l1 l2 Ok Some show ?thesis
        by (cases r2) (auto simp: pg_resolve_mapping_def read_meets_def spec_resolve_def split: option.split)
    qed (use law1 assms(2) l1 Ok in \<open>auto simp: pg_resolve_mapping_def read_meets_def spec_resolve_def split: option.split\<close>)
  qed (use law1 assms(2) l1 in \<open>auto simp: pg_resolve_mapping_def read_meets_def\<close>)
qed

subsubsection \<open>Initialisation\<close>

text \<open>The schema statements touch no row: after them, as after a failure, the data is what it was.\<close>

lemma tx_execute_all_keeps:
  "db_ok db \<Longrightarrow> tx_ok db tx \<Longrightarrow> view tx = tables db \<Longrightarrow> \<forall>q\<in>set qs. \<forall>t. sql_effect jsonb q t = (Some 0, t) \<Longrightarrow>
     tx_execute_all pg qs tx db = (r, db') \<Longrightarrow> db_ok db' \<and> tables db' = tables db"
proof (induction qs arbitrary: tx)
  case Nil
  obtain r1 where "pg_commit pg tx db = (r1, db')"
    using Nil.prems(5) by (cases "pg_commit pg tx db") (auto simp: map_err_io_def)
  from commit_law [OF Nil.prems(1,2) this] Nil.prems(3) show ?case by auto
next
  case (Cons q qs)
  obtain r1 tx1 where x: "pg_tx_execute pg q tx = (r1, tx1)" by (rule prod.exhaust)
  note law = tx_execute_law [OF Cons.prems(2) x]
  show ?case
  proof (cases r1)
    case (Ok n)
    with law Cons.prems(3,4) have "tx_ok db tx1" "view tx1 = tables db" by (auto simp: call_meets_def)
    with Cons Ok x show ?thesis by simp
  next
    case (Err e)
    with Cons.prems(1,5) x rollback_law [of db tx1] show ?thesis by auto
  qed
qed

lemma initialize_keeps:
  assumes "db_ok db" "pg_initialize pg db = (r, db')"
  shows "db_ok db' \<and> tables db' = tables db"
proof -
  obtain r1 db1 where b: "pg_begin pg db = (r1, db1)" by (rule prod.exhaust)
  note law = begin_law [OF assms(1) b]
  show ?thesis
  proof (cases r1)
    case (Ok tx)
    with assms(2) b have run: "tx_execute_all pg [CREATE_RESOURCE_MAPPINGS, CREATE_RESOURCE_MAPPINGS_INDEX, CREATE_SCOPE_MAPPINGS] tx db1
        = (r, db')"
      by (simp add: pg_initialize_def)
    from Ok law have "db_ok db1" "tx_ok db1 tx" "view tx = tables db1" "tables db1 = tables db" by simp_all
    with tx_execute_all_keeps [OF this(1-3) _ run] show ?thesis by simp
  next
    case (Err e)
    with assms(2) b law show ?thesis by (auto simp: pg_initialize_def)
  qed
qed

lemma list_meets:
  assumes "db_ok db" "pg_list_mappings pg db = (r, db')"
  shows "db_ok db' \<and> read_meets (lists_mappings (pg_policy (tables db))) (pg_policy (tables db)) (pg_policy (tables db')) r"
proof -
  obtain r1 db1 where f: "pg_fetch_mappings pg SelectMappings db = (r1, db1)"
    by (cases "pg_fetch_mappings pg SelectMappings db")
  note law = fetch_mappings_law [OF assms(1) f]
  with assms(2) f show ?thesis
    by (cases r1) (auto simp: pg_list_mappings_def read_meets_def db_error_def mapping_table)
qed

lemma list_scopes_meets:
  assumes "db_ok db" "pg_list_scope_mappings pg db = (r, db')"
  shows "db_ok db' \<and> read_meets (lists_scopes (pg_policy (tables db))) (pg_policy (tables db)) (pg_policy (tables db')) r"
proof -
  obtain r1 db1 where f: "pg_fetch_scopes pg SelectScopes db = (r1, db1)"
    by (cases "pg_fetch_scopes pg SelectScopes db")
  note law = fetch_scopes_law [OF assms(1) f]
  with assms(2) f show ?thesis
    by (cases r1) (auto simp: pg_list_scope_mappings_def read_meets_def db_error_def all_scope_rows)
qed

lemma pg_policy_wf: "db_ok db \<Longrightarrow> policy_wf (pg_policy (tables db))"
  using tables_finite [of db] by (auto simp: policy_wf_def pg_policy_def dom_def)

end

lemma postgres_store_sel [simp]:
  "st_resolve_mapping (postgres_store it pg) = pg_resolve_mapping it pg"
  "st_save_mapping (postgres_store it pg) = pg_save_mapping it pg"
  "st_update_mapping (postgres_store it pg) = pg_update_mapping it pg"
  "st_remove_mapping (postgres_store it pg) = pg_remove_mapping pg"
  "st_remove_mappings_for (postgres_store it pg) = pg_remove_mappings_for pg"
  "st_save_scope_mappings (postgres_store it pg) = pg_save_scope_mappings pg"
  "st_update_scope_mapping (postgres_store it pg) = pg_update_scope_mapping pg"
  "st_remove_scope_mapping (postgres_store it pg) = pg_remove_scope_mapping pg"
  "st_list_mappings (postgres_store it pg) = pg_list_mappings pg"
  "st_list_scope_mappings (postgres_store it pg) = pg_list_scope_mappings pg"
  by (simp_all add: postgres_store_def)

sublocale sql_database \<subseteq> pg_contract: store_contract "postgres_store it pg" "\<lambda>db. pg_policy (tables db)" db_ok "pg_keep jsonb"
proof
  show "sm_scope (pg_keep jsonb sm) = sm_scope sm" for sm by simp
  show "fst ` set (sm_claims (pg_keep jsonb sm)) = fst ` set (sm_claims sm)" for sm
    using jsonb_object [of "sm_claims sm"]
    by (elim exE conjE) (simp add: pg_keep_def pg_scope_def row_to_scope_mapping_def scope_row_def)
qed (unfold postgres_store_sel, erule pg_policy_wf, (erule (1) resolve_meets save_meets update_meets remove_meets
    remove_for_meets save_scopes_meets update_scope_meets remove_scope_meets list_meets list_scopes_meets)+)

context sql_database begin

lemma is_store_contract: "store_contract (postgres_store it pg) (\<lambda>db. pg_policy (tables db)) db_ok (pg_keep jsonb)"
  by (rule pg_contract.store_contract_axioms)

end

subsection \<open>A reference engine\<close>

text \<open>
  A database that keeps the two tables as lists of rows and never fails: an executable
  instance of the laws, on which the store runs.
\<close>

record ref_db =
  rd_mappings :: "(str \<times> str, str list \<times> str list) hash_map"
  rd_scopes :: "(str, json) hash_map"

definition unique_violation :: sqlx_error where
  "unique_violation = DatabaseFailure (Some (lit ''23505'')) (lit ''duplicate key value violates unique constraint'')"

fun ref_execute :: "sql \<Rightarrow> ref_db \<Rightarrow> (nat, sqlx_error) result \<times> ref_db" where
  "ref_execute (InsertMapping c p ss as) db =
     (if map_of (rd_mappings db) (c, p) \<noteq> None then (Err unique_violation, db)
      else (Ok 1, db\<lparr>rd_mappings := AList.update (c, p) (ss, as) (rd_mappings db)\<rparr>))"
| "ref_execute (UpdateMappingSet c p ss as) db =
     (if map_of (rd_mappings db) (c, p) = None then (Ok 0, db)
      else (Ok 1, db\<lparr>rd_mappings := AList.update (c, p) (ss, as) (rd_mappings db)\<rparr>))"
| "ref_execute (DeleteMappingWhere c p) db =
     (Ok (if map_of (rd_mappings db) (c, p) = None then 0 else 1),
      db\<lparr>rd_mappings := AList.delete (c, p) (rd_mappings db)\<rparr>)"
| "ref_execute (DeleteMappingsWhereClient c) db =
     (Ok (length (filter (\<lambda>kv. fst (fst kv) = c) (rd_mappings db))),
      db\<lparr>rd_mappings := retain_keys (\<lambda>k. fst k \<noteq> c) (rd_mappings db)\<rparr>)"
| "ref_execute (InsertScope sc j) db =
     (if map_of (rd_scopes db) sc \<noteq> None then (Err unique_violation, db)
      else (Ok 1, db\<lparr>rd_scopes := AList.update sc j (rd_scopes db)\<rparr>))"
| "ref_execute (UpdateScopeSet sc j) db =
     (if map_of (rd_scopes db) sc = None then (Ok 0, db)
      else (Ok 1, db\<lparr>rd_scopes := AList.update sc j (rd_scopes db)\<rparr>))"
| "ref_execute (DeleteScopeWhere sc) db =
     (Ok (if map_of (rd_scopes db) sc = None then 0 else 1), db\<lparr>rd_scopes := AList.delete sc (rd_scopes db)\<rparr>)"
| "ref_execute _ db = (Ok 0, db)"

definition ref_pg :: "(ref_db, ref_db) pg_pool" where
  "ref_pg = \<lparr>
     pg_fetch_mappings = (\<lambda>q db.
       (Ok (map (\<lambda>(k, v). mapping_row k v) (filter (\<lambda>kv. selects_mapping q (fst kv)) (rd_mappings db))), db)),
     pg_fetch_scopes = (\<lambda>q db.
       (Ok (map (\<lambda>(k, v). scope_row k v) (filter (\<lambda>kv. selects_scope q (fst kv)) (rd_scopes db))), db)),
     pg_execute = ref_execute,
     pg_begin = (\<lambda>db. (Ok db, db)),
     pg_tx_execute = ref_execute,
     pg_commit = (\<lambda>tx db. (Ok (), tx)),
     pg_rollback = (\<lambda>tx db. db)\<rparr>"

definition ref_tables :: "ref_db \<Rightarrow> pg_tables" where
  "ref_tables db = \<lparr>tb_mappings = map_of (rd_mappings db), tb_scopes = map_of (rd_scopes db)\<rparr>"

definition ref_ok :: "ref_db \<Rightarrow> bool" where
  "ref_ok db \<longleftrightarrow> hash_map_ok (rd_mappings db) \<and> hash_map_ok (rd_scopes db)"

lemma is_unique_violation_unique [simp]: "is_unique_violation unique_violation"
  by (simp add: unique_violation_def)

lemma card_keys:
  assumes "hash_map_ok m"
  shows "card {k \<in> dom (map_of m). P k} = length (filter (\<lambda>kv. P (fst kv)) m)"
proof -
  have "{k \<in> dom (map_of m). P k} = set (map fst (filter (\<lambda>kv. P (fst kv)) m))"
    by (auto simp: dom_map_of_conv_image_fst)
  moreover have "distinct (map fst (filter (\<lambda>kv. P (fst kv)) m))"
    using assms by (simp add: hash_map_ok_def distinct_map_filter)
  ultimately show ?thesis by (metis distinct_card length_map)
qed

lemma ref_execute_ok: "ref_ok db \<Longrightarrow> ref_ok (snd (ref_execute q db))"
  by (cases q) (auto simp: ref_ok_def)

lemma ref_execute_meets:
  assumes "ref_ok db"
  shows "call_meets (sql_effect (\<lambda>j. j) q) (ref_tables db) (ref_tables (snd (ref_execute q db))) (fst (ref_execute q db))"
  using assms card_keys [of "rd_mappings db"]
  by (cases q) (auto simp: call_meets_def ref_tables_def ref_ok_def update_conv' delete_conv' map_of_retain_keys
      restrict_map_def fun_eq_iff)

lemma ref_execute_law:
  "ref_ok db \<Longrightarrow> ref_execute q db = (r, db') \<Longrightarrow>
     ref_ok db' \<and> call_meets (sql_effect (\<lambda>j. j) q) (ref_tables db) (ref_tables db') r"
  using ref_execute_ok [of db q] ref_execute_meets [of db q] by simp

lemma ref_mapping_rows:
  assumes "ref_ok db"
  shows "mapping_rows sel (ref_tables db) (map (\<lambda>(k, v). mapping_row k v) (filter (\<lambda>kv. sel (fst kv)) (rd_mappings db)))"
proof -
  have "distinct (map fst (filter (\<lambda>kv. sel (fst kv)) (rd_mappings db)))"
    using assms by (simp add: ref_ok_def hash_map_ok_def distinct_map_filter)
  moreover have "map (\<lambda>r. (rr_client_identifier r, rr_participant_context r)) (map (\<lambda>(k, v). mapping_row k v) xs) = map fst xs" for xs
    by (auto simp: mapping_row_def)
  ultimately show ?thesis
    using assms by (auto simp: mapping_rows_def ref_tables_def ref_ok_def hash_map_ok_def simp del: map_map) force
qed

lemma ref_scope_rows:
  assumes "ref_ok db"
  shows "scope_rows sel (ref_tables db) (map (\<lambda>(k, v). scope_row k v) (filter (\<lambda>kv. sel (fst kv)) (rd_scopes db)))"
proof -
  have "distinct (map fst (filter (\<lambda>kv. sel (fst kv)) (rd_scopes db)))"
    using assms by (simp add: ref_ok_def hash_map_ok_def distinct_map_filter)
  moreover have "map sr_scope (map (\<lambda>(k, v). scope_row k v) xs) = map fst xs" for xs
    by (auto simp: scope_row_def)
  ultimately show ?thesis
    using assms by (auto simp: scope_rows_def ref_tables_def ref_ok_def hash_map_ok_def simp del: map_map) force
qed

interpretation ref_database: sql_database sorted_list_of_fset ref_pg ref_tables ref_tables ref_ok "\<lambda>_. ref_ok" "\<lambda>j. j"
proof
  show "valid_iter sorted_list_of_fset" by (rule valid_iter_sorted)
  show "finite (dom (tb_mappings (ref_tables db))) \<and> finite (dom (tb_scopes (ref_tables db)))" for db
    by (simp add: ref_tables_def finite_dom_map_of)
qed (auto simp: ref_pg_def ref_mapping_rows ref_scope_rows dest: ref_execute_law)

end
