(* ===== verification/Management_Api.thy ===== *)
theory Management_Api
  imports Resource_Service Jwt_Types Service_Account
begin

section \<open>The management API\<close>

text \<open>
  \<^verbatim>\<open>crates/jwtlet-server/src/management\<close>: the three route groups with their roles,
  the authorization middleware, the nine handlers and the error responses.

  The HTTP framework is not part of the program. A request carries the method, the decoded
  path segments below \<^verbatim>\<open>/api/v1\<close>, the bytes of its first \<^verbatim>\<open>Authorization\<close> header
  and, for each body type the handlers extract, what the extractor yields: the decoded
  body or the status with which it rejects the request. The middleware runs before any
  extractor. That the framework compares the static segments of a route before it decodes
  them, and that the path extractor rejects segments that do not decode, is not represented. A
  handler's audit events are part of its result.
\<close>

datatype http_method = GET | HEAD | POST | PUT | DELETE | OTHER str

datatype 'a one_or_many = One 'a | Many "'a list"

fun into_vec :: "'a one_or_many \<Rightarrow> 'a list" where
  "into_vec (One item) = [item]"
| "into_vec (Many items) = items"

record mgmt_request =
  mr_method :: http_method
  mr_path :: "str list"
  mr_authorization :: "nat list option"
  mr_mapping_body :: "(resource_mapping, nat) result"
  mr_scope_body :: "(scope_mapping, nat) result"
  mr_scopes_body :: "(scope_mapping one_or_many, nat) result"

record ('v, 's) management_state =
  ms_resource_service :: "'s resource_store"
  ms_authorizer :: "str \<Rightarrow> str fset \<Rightarrow> (bool, auth_error) result"
  ms_verifier :: "'v verifier"
  ms_client_audience :: str

datatype audit_event =
    MappingCreated str str str
  | MappingUpdated str str str
  | MappingDeleted str str str
  | ClientMappingsDeleted str str
  | ScopeCreated str str
  | ScopeUpdated str str
  | ScopeDeleted str str

datatype mgmt_body = NoBody | TextBody str | MappingList "resource_mapping list" | ScopeList "scope_mapping list" | JsonBody json

record mgmt_response =
  rs_status :: nat
  rs_body :: mgmt_body

definition status_only :: "nat \<Rightarrow> mgmt_response" where
  "status_only n = \<lparr>rs_status = n, rs_body = NoBody\<rparr>"

datatype mgmt_api_error = PathMismatch | ResourceFailed resource_error

definition ROLE_MANAGEMENT_READ :: str where
  "ROLE_MANAGEMENT_READ = lit ''jwtlet:management:read''"

definition ROLE_MAPPINGS_WRITE :: str where
  "ROLE_MAPPINGS_WRITE = lit ''jwtlet:management:mappings:write''"

definition ROLE_SCOPES_WRITE :: str where
  "ROLE_SCOPES_WRITE = lit ''jwtlet:management:scope:write''"

subsection \<open>Error responses\<close>

definition json_error :: "str \<Rightarrow> mgmt_body" where
  "json_error msg = JsonBody (json_object [(lit ''error'', JString msg)])"

fun mgmt_error_response :: "mgmt_api_error \<Rightarrow> mgmt_response" where
  "mgmt_error_response PathMismatch = status_only 400"
| "mgmt_error_response (ResourceFailed (NotFound _)) = status_only 404"
| "mgmt_error_response (ResourceFailed (Conflict _)) = status_only 409"
| "mgmt_error_response (ResourceFailed (ReservedClaim key)) =
     \<lparr>rs_status = 400, rs_body = json_error (lit ''Claim key '' @ sq @ key @ sq
        @ lit '' is reserved and cannot be set via scope mapping'')\<rparr>"
| "mgmt_error_response (ResourceFailed (InvalidMapping msg)) = \<lparr>rs_status = 400, rs_body = json_error msg\<rparr>"
| "mgmt_error_response (ResourceFailed (ClaimConflict _)) = status_only 500"
| "mgmt_error_response (ResourceFailed (DatabaseError _)) = status_only 500"

subsection \<open>Handlers\<close>

text \<open>
  A handler yields its response and its audit events. \<open>finish\<close> is the \<^verbatim>\<open>?\<close> on the
  service's result: an error becomes its response and no event is emitted.
\<close>

type_synonym 's handler = "'s \<Rightarrow> (mgmt_response \<times> audit_event list) \<times> 's"

definition finish ::
    "(unit, resource_error) result \<times> 's \<Rightarrow> nat \<Rightarrow> audit_event list \<Rightarrow> (mgmt_response \<times> audit_event list) \<times> 's" where
  "finish rs status events =
     (case rs of
        (Ok _, s') \<Rightarrow> ((status_only status, events), s')
      | (Err e, s') \<Rightarrow> ((mgmt_error_response (ResourceFailed e), []), s'))"

definition reject :: "nat \<Rightarrow> 's handler" where
  "reject status s = ((status_only status, []), s)"

definition h_list_mappings :: "'s resource_store \<Rightarrow> 's handler" where
  "h_list_mappings ops s =
     (case svc_list_mappings ops s of
        (Ok ms, s') \<Rightarrow> ((\<lparr>rs_status = 200, rs_body = MappingList ms\<rparr>, []), s')
      | (Err e, s') \<Rightarrow> ((mgmt_error_response (ResourceFailed e), []), s'))"

definition h_list_scope_mappings :: "'s resource_store \<Rightarrow> 's handler" where
  "h_list_scope_mappings ops s =
     (case svc_list_scope_mappings ops s of
        (Ok ms, s') \<Rightarrow> ((\<lparr>rs_status = 200, rs_body = ScopeList ms\<rparr>, []), s')
      | (Err e, s') \<Rightarrow> ((mgmt_error_response (ResourceFailed e), []), s'))"

definition h_create_mapping :: "hash_iter \<Rightarrow> 's resource_store \<Rightarrow> str \<Rightarrow> resource_mapping \<Rightarrow> 's handler" where
  "h_create_mapping it ops actor m s =
     finish (svc_save it ops m s) 201
       [MappingCreated actor (rm_client_identifier m) (rm_participant_context m)]"

definition h_update_mapping ::
    "hash_iter \<Rightarrow> 's resource_store \<Rightarrow> str \<Rightarrow> str \<Rightarrow> str \<Rightarrow> resource_mapping \<Rightarrow> 's handler" where
  "h_update_mapping it ops actor client_id context m s =
     (if client_id \<noteq> rm_client_identifier m \<or> context \<noteq> rm_participant_context m
      then ((mgmt_error_response PathMismatch, []), s)
      else finish (svc_update it ops m s) 204
             [MappingUpdated actor (rm_client_identifier m) (rm_participant_context m)])"

definition h_delete_mapping :: "'s resource_store \<Rightarrow> str \<Rightarrow> str \<Rightarrow> str \<Rightarrow> 's handler" where
  "h_delete_mapping ops actor client_id context s =
     finish (svc_remove ops client_id context s) 204 [MappingDeleted actor client_id context]"

definition h_delete_client_mappings :: "'s resource_store \<Rightarrow> str \<Rightarrow> str \<Rightarrow> 's handler" where
  "h_delete_client_mappings ops actor client_id s =
     finish (svc_remove_for ops client_id s) 204 [ClientMappingsDeleted actor client_id]"

definition h_create_scope_mapping :: "'s resource_store \<Rightarrow> str \<Rightarrow> scope_mapping one_or_many \<Rightarrow> 's handler" where
  "h_create_scope_mapping ops actor payload s =
     (let mappings = into_vec payload in
      finish (svc_save_scope_mappings ops mappings s) 201 (map (\<lambda>m. ScopeCreated actor (sm_scope m)) mappings))"

definition h_update_scope_mapping :: "'s resource_store \<Rightarrow> str \<Rightarrow> str \<Rightarrow> scope_mapping \<Rightarrow> 's handler" where
  "h_update_scope_mapping ops actor sc m s =
     (if sc \<noteq> sm_scope m then ((mgmt_error_response PathMismatch, []), s)
      else finish (svc_update_scope_mapping ops m s) 204 [ScopeUpdated actor (sm_scope m)])"

definition h_delete_scope_mapping :: "'s resource_store \<Rightarrow> str \<Rightarrow> str \<Rightarrow> 's handler" where
  "h_delete_scope_mapping ops actor sc s =
     finish (svc_delete_scope_mapping ops sc s) 204 [ScopeDeleted actor sc]"

subsection \<open>Routes\<close>

datatype endpoint =
    ListMappings
  | ListScopes
  | CreateMapping
  | UpdateMapping str str
  | DeleteMapping str str
  | DeleteClientMappings str
  | CreateScopes
  | UpdateScope str
  | DeleteScope str

text \<open>
  The route tables of the three groups. A path parameter matches a nonempty segment; a
  \<^verbatim>\<open>GET\<close> route also answers \<^verbatim>\<open>HEAD\<close>. \<open>None\<close> is a path without a route in the group,
  \<open>Some None\<close> a path whose methods do not include the one asked for.
\<close>

definition seg_mappings :: str where
  "seg_mappings = lit ''mappings''"

definition seg_scopes :: str where
  "seg_scopes = lit ''scopes''"

definition read_routes :: "http_method \<Rightarrow> str list \<Rightarrow> endpoint option option" where
  "read_routes meth path =
     (if path = [seg_mappings] then Some (if meth = GET \<or> meth = HEAD then Some ListMappings else None)
      else if path = [seg_scopes] then Some (if meth = GET \<or> meth = HEAD then Some ListScopes else None)
      else None)"

definition mappings_write_routes :: "http_method \<Rightarrow> str list \<Rightarrow> endpoint option option" where
  "mappings_write_routes meth path =
     (case path of
        [a] \<Rightarrow> if a = seg_mappings then Some (if meth = POST then Some CreateMapping else None) else None
      | [a, c] \<Rightarrow>
          if a = seg_mappings \<and> c \<noteq> []
          then Some (if meth = DELETE then Some (DeleteClientMappings c) else None) else None
      | [a, c, p] \<Rightarrow>
          if a = seg_mappings \<and> c \<noteq> [] \<and> p \<noteq> []
          then Some (if meth = PUT then Some (UpdateMapping c p)
                     else if meth = DELETE then Some (DeleteMapping c p) else None)
          else None
      | _ \<Rightarrow> None)"

definition scopes_write_routes :: "http_method \<Rightarrow> str list \<Rightarrow> endpoint option option" where
  "scopes_write_routes meth path =
     (case path of
        [a] \<Rightarrow> if a = seg_scopes then Some (if meth = POST then Some CreateScopes else None) else None
      | [a, sc] \<Rightarrow>
          if a = seg_scopes \<and> sc \<noteq> []
          then Some (if meth = PUT then Some (UpdateScope sc)
                     else if meth = DELETE then Some (DeleteScope sc) else None)
          else None
      | _ \<Rightarrow> None)"

datatype routing = Routed endpoint str | MethodNotAllowed | NoRoute

definition management_routes :: "http_method \<Rightarrow> str list \<Rightarrow> routing" where
  "management_routes meth path =
     (case read_routes meth path of
        Some (Some ep) \<Rightarrow> Routed ep ROLE_MANAGEMENT_READ
      | a \<Rightarrow>
          (case mappings_write_routes meth path of
             Some (Some ep) \<Rightarrow> Routed ep ROLE_MAPPINGS_WRITE
           | b \<Rightarrow>
               (case scopes_write_routes meth path of
                  Some (Some ep) \<Rightarrow> Routed ep ROLE_SCOPES_WRITE
                | c \<Rightarrow> if a = None \<and> b = None \<and> c = None then NoRoute else MethodNotAllowed)))"

text \<open>The handler of a route with the extraction of its body.\<close>

fun run_endpoint :: "hash_iter \<Rightarrow> 's resource_store \<Rightarrow> mgmt_request \<Rightarrow> str \<Rightarrow> endpoint \<Rightarrow> 's handler" where
  "run_endpoint it ops req actor ListMappings = h_list_mappings ops"
| "run_endpoint it ops req actor ListScopes = h_list_scope_mappings ops"
| "run_endpoint it ops req actor CreateMapping =
     (case mr_mapping_body req of Ok m \<Rightarrow> h_create_mapping it ops actor m | Err st \<Rightarrow> reject st)"
| "run_endpoint it ops req actor (UpdateMapping c p) =
     (case mr_mapping_body req of Ok m \<Rightarrow> h_update_mapping it ops actor c p m | Err st \<Rightarrow> reject st)"
| "run_endpoint it ops req actor (DeleteMapping c p) = h_delete_mapping ops actor c p"
| "run_endpoint it ops req actor (DeleteClientMappings c) = h_delete_client_mappings ops actor c"
| "run_endpoint it ops req actor CreateScopes =
     (case mr_scopes_body req of Ok ms \<Rightarrow> h_create_scope_mapping ops actor ms | Err st \<Rightarrow> reject st)"
| "run_endpoint it ops req actor (UpdateScope sc) =
     (case mr_scope_body req of Ok m \<Rightarrow> h_update_scope_mapping ops actor sc m | Err st \<Rightarrow> reject st)"
| "run_endpoint it ops req actor (DeleteScope sc) = h_delete_scope_mapping ops actor sc"

subsection \<open>Authorization\<close>

text \<open>\<^verbatim>\<open>HeaderValue::to_str\<close> succeeds on visible ASCII and tabs only.\<close>

definition header_to_str :: "nat list \<Rightarrow> str option" where
  "header_to_str bytes = (if \<forall>b\<in>set bytes. (32 \<le> b \<and> b < 127) \<or> b = 9 then Some bytes else None)"

definition extract_bearer_token :: "nat list option \<Rightarrow> str option" where
  "extract_bearer_token header =
     Option.bind (Option.bind header header_to_str) (\<lambda>v.
       map_option (\<lambda>_. drop (length (lit ''bearer '')) v)
         (strip_prefix (to_ascii_lowercase v) (lit ''bearer '')))"

definition authorize_with_role ::
    "('v, 's) management_state \<Rightarrow> str \<Rightarrow> mgmt_request \<Rightarrow> (str \<Rightarrow> 's handler) \<Rightarrow> 'v \<times> 's
       \<Rightarrow> (mgmt_response \<times> audit_event list) \<times> ('v \<times> 's)" where
  "authorize_with_role ms required_role req next_run vs =
     (case extract_bearer_token (mr_authorization req) of
        None \<Rightarrow> ((status_only 401, []), vs)
      | Some token \<Rightarrow>
          (case ms_verifier ms (ms_client_audience ms) token (fst vs) of
             (Err _, v') \<Rightarrow> ((status_only 401, []), (v', snd vs))
           | (Ok cl, v') \<Rightarrow>
               (case ms_authorizer ms (tc_sub cl) {|required_role|} of
                  Ok True \<Rightarrow> (case next_run (tc_sub cl) (snd vs) of (out, s') \<Rightarrow> (out, (v', s')))
                | Ok False \<Rightarrow> ((status_only 403, []), (v', snd vs))
                | Err (GeneralError _) \<Rightarrow> ((status_only 500, []), (v', snd vs)))))"

text \<open>
  The answer to a path whose methods do not include the one asked for is the framework's:
  \<open>fb\<close> gives its status and may run the middleware's verifier, but no handler.
\<close>

definition handle_management ::
    "hash_iter \<Rightarrow> (mgmt_request \<Rightarrow> 'v \<Rightarrow> nat \<times> 'v) \<Rightarrow> ('v, 's) management_state \<Rightarrow> mgmt_request \<Rightarrow> 'v \<times> 's
       \<Rightarrow> (mgmt_response \<times> audit_event list) \<times> ('v \<times> 's)" where
  "handle_management it fb ms req vs =
     (case management_routes (mr_method req) (mr_path req) of
        NoRoute \<Rightarrow> ((status_only 404, []), vs)
      | MethodNotAllowed \<Rightarrow> (case fb req (fst vs) of (st, v') \<Rightarrow> ((status_only st, []), (v', snd vs)))
      | Routed ep role \<Rightarrow>
          authorize_with_role ms role req (\<lambda>actor. run_endpoint it (ms_resource_service ms) req actor ep) vs)"

subsection \<open>What an endpoint does to the policy\<close>

text \<open>
  The abstract effect of a writing endpoint: the validation of the service in front of the
  abstract operation of the store. \<open>None\<close> for the endpoints that read, for a body the
  extractor rejects and for a path that contradicts the body.
\<close>

definition guarded ::
    "(unit, resource_error) result \<Rightarrow> (policy \<Rightarrow> (unit, resource_error) result \<times> policy)
       \<Rightarrow> policy \<Rightarrow> (unit, resource_error) result \<times> policy" where
  "guarded check spec pol = (case check of Ok _ \<Rightarrow> spec pol | Err e \<Rightarrow> (Err e, pol))"

fun endpoint_write ::
    "(scope_mapping \<Rightarrow> scope_mapping) \<Rightarrow> hash_iter \<Rightarrow> mgmt_request \<Rightarrow> endpoint \<Rightarrow> (policy \<Rightarrow> (unit, resource_error) result \<times> policy) option" where
  "endpoint_write keep it req ListMappings = None"
| "endpoint_write keep it req ListScopes = None"
| "endpoint_write keep it req CreateMapping =
     (case mr_mapping_body req of
        Ok m \<Rightarrow> Some (guarded (validate_resource_mapping it m) (spec_save m)) | Err _ \<Rightarrow> None)"
| "endpoint_write keep it req (UpdateMapping c p) =
     (case mr_mapping_body req of
        Ok m \<Rightarrow> if rm_key m = (c, p) then Some (guarded (validate_resource_mapping it m) (spec_update m)) else None
      | Err _ \<Rightarrow> None)"
| "endpoint_write keep it req (DeleteMapping c p) = Some (spec_remove c p)"
| "endpoint_write keep it req (DeleteClientMappings c) = Some (spec_remove_for c)"
| "endpoint_write keep it req CreateScopes =
     (case mr_scopes_body req of
        Ok b \<Rightarrow> Some (guarded (for_each_check validate_scope_mapping (into_vec b)) (spec_save_scopes (map keep (into_vec b))))
      | Err _ \<Rightarrow> None)"
| "endpoint_write keep it req (UpdateScope sc) =
     (case mr_scope_body req of
        Ok m \<Rightarrow> if sm_scope m = sc then Some (guarded (validate_scope_mapping m) (spec_update_scope (keep m))) else None
      | Err _ \<Rightarrow> None)"
| "endpoint_write keep it req (DeleteScope sc) = Some (spec_remove_scope sc)"

fun success_status :: "endpoint \<Rightarrow> nat" where
  "success_status ListMappings = 200"
| "success_status ListScopes = 200"
| "success_status CreateMapping = 201"
| "success_status CreateScopes = 201"
| "success_status _ = 204"

fun success_events :: "str \<Rightarrow> mgmt_request \<Rightarrow> endpoint \<Rightarrow> audit_event list" where
  "success_events actor req CreateMapping =
     (case mr_mapping_body req of
        Ok m \<Rightarrow> [MappingCreated actor (rm_client_identifier m) (rm_participant_context m)] | Err _ \<Rightarrow> [])"
| "success_events actor req (UpdateMapping c p) = [MappingUpdated actor c p]"
| "success_events actor req (DeleteMapping c p) = [MappingDeleted actor c p]"
| "success_events actor req (DeleteClientMappings c) = [ClientMappingsDeleted actor c]"
| "success_events actor req CreateScopes =
     (case mr_scopes_body req of Ok b \<Rightarrow> map (\<lambda>m. ScopeCreated actor (sm_scope m)) (into_vec b) | Err _ \<Rightarrow> [])"
| "success_events actor req (UpdateScope sc) = [ScopeUpdated actor sc]"
| "success_events actor req (DeleteScope sc) = [ScopeDeleted actor sc]"
| "success_events actor req _ = []"

fun event_actor :: "audit_event \<Rightarrow> str" where
  "event_actor (MappingCreated a _ _) = a"
| "event_actor (MappingUpdated a _ _) = a"
| "event_actor (MappingDeleted a _ _) = a"
| "event_actor (ClientMappingsDeleted a _) = a"
| "event_actor (ScopeCreated a _) = a"
| "event_actor (ScopeUpdated a _) = a"
| "event_actor (ScopeDeleted a _) = a"

fun endpoint_role :: "endpoint \<Rightarrow> str" where
  "endpoint_role ListMappings = ROLE_MANAGEMENT_READ"
| "endpoint_role ListScopes = ROLE_MANAGEMENT_READ"
| "endpoint_role CreateMapping = ROLE_MAPPINGS_WRITE"
| "endpoint_role (UpdateMapping _ _) = ROLE_MAPPINGS_WRITE"
| "endpoint_role (DeleteMapping _ _) = ROLE_MAPPINGS_WRITE"
| "endpoint_role (DeleteClientMappings _) = ROLE_MAPPINGS_WRITE"
| "endpoint_role CreateScopes = ROLE_SCOPES_WRITE"
| "endpoint_role (UpdateScope _) = ROLE_SCOPES_WRITE"
| "endpoint_role (DeleteScope _) = ROLE_SCOPES_WRITE"

lemma success_events_actor: "\<forall>e\<in>set (success_events actor req ep). event_actor e = actor"
  by (cases ep) (auto split: result.split)

subsection \<open>Routing and bearer tokens\<close>

lemma read_routes_role: "read_routes meth path = Some (Some ep) \<Longrightarrow> endpoint_role ep = ROLE_MANAGEMENT_READ"
  by (auto simp: read_routes_def split: if_splits)

lemma mappings_write_routes_role:
  "mappings_write_routes meth path = Some (Some ep) \<Longrightarrow> endpoint_role ep = ROLE_MAPPINGS_WRITE"
  by (auto simp: mappings_write_routes_def split: if_splits list.splits)

lemma scopes_write_routes_role:
  "scopes_write_routes meth path = Some (Some ep) \<Longrightarrow> endpoint_role ep = ROLE_SCOPES_WRITE"
  by (auto simp: scopes_write_routes_def split: if_splits list.splits)

lemma management_routes_role: "management_routes meth path = Routed ep role \<Longrightarrow> role = endpoint_role ep"
  by (auto simp: management_routes_def split: option.splits if_splits
      dest: read_routes_role mappings_write_routes_role scopes_write_routes_role)

lemma roles_distinct [simp]:
  "ROLE_MANAGEMENT_READ \<noteq> ROLE_MAPPINGS_WRITE" "ROLE_MAPPINGS_WRITE \<noteq> ROLE_MANAGEMENT_READ"
  "ROLE_MANAGEMENT_READ \<noteq> ROLE_SCOPES_WRITE" "ROLE_SCOPES_WRITE \<noteq> ROLE_MANAGEMENT_READ"
  "ROLE_MAPPINGS_WRITE \<noteq> ROLE_SCOPES_WRITE" "ROLE_SCOPES_WRITE \<noteq> ROLE_MAPPINGS_WRITE"
  by (simp_all add: ROLE_MANAGEMENT_READ_def ROLE_MAPPINGS_WRITE_def ROLE_SCOPES_WRITE_def)

text \<open>The paths and methods that lead to each endpoint: the route table, read backwards.\<close>

fun endpoint_request :: "endpoint \<Rightarrow> http_method set \<times> str list" where
  "endpoint_request ListMappings = ({GET, HEAD}, [seg_mappings])"
| "endpoint_request ListScopes = ({GET, HEAD}, [seg_scopes])"
| "endpoint_request CreateMapping = ({POST}, [seg_mappings])"
| "endpoint_request (UpdateMapping c p) = ({PUT}, [seg_mappings, c, p])"
| "endpoint_request (DeleteMapping c p) = ({DELETE}, [seg_mappings, c, p])"
| "endpoint_request (DeleteClientMappings c) = ({DELETE}, [seg_mappings, c])"
| "endpoint_request CreateScopes = ({POST}, [seg_scopes])"
| "endpoint_request (UpdateScope sc) = ({PUT}, [seg_scopes, sc])"
| "endpoint_request (DeleteScope sc) = ({DELETE}, [seg_scopes, sc])"

lemma segs_distinct [simp]: "seg_mappings \<noteq> seg_scopes" "seg_scopes \<noteq> seg_mappings"
  by (simp_all add: seg_mappings_def seg_scopes_def)

lemma seg_nonempty [simp]: "seg_mappings \<noteq> []" "seg_scopes \<noteq> []" "[] \<noteq> seg_mappings" "[] \<noteq> seg_scopes"
  by (simp_all add: seg_mappings_def seg_scopes_def)

lemma management_routes_sound:
  "management_routes meth path = Routed ep role \<Longrightarrow>
     meth \<in> fst (endpoint_request ep) \<and> path = snd (endpoint_request ep) \<and> [] \<notin> set path"
  by (auto simp: management_routes_def read_routes_def mappings_write_routes_def scopes_write_routes_def
      split: option.splits if_splits list.splits)

lemma management_routes_complete:
  "meth \<in> fst (endpoint_request ep) \<Longrightarrow> [] \<notin> set (snd (endpoint_request ep)) \<Longrightarrow>
     management_routes meth (snd (endpoint_request ep)) = Routed ep (endpoint_role ep)"
  by (cases ep) (auto simp: management_routes_def read_routes_def mappings_write_routes_def scopes_write_routes_def)

text \<open>A bearer header in any case yields the rest of the header with its case kept.\<close>

lemma header_to_str_Some: "header_to_str v = Some w \<Longrightarrow> w = v"
  by (simp add: header_to_str_def split: if_splits)

lemma extract_bearer_token_eq:
  "extract_bearer_token (Some v) =
     (if header_to_str v \<noteq> None \<and> to_ascii_lowercase (take 7 v) = lit ''bearer '' then Some (drop 7 v) else None)"
proof -
  have len: "length (lit ''bearer '') = 7" by simp
  show ?thesis
    unfolding extract_bearer_token_def strip_prefix_def to_ascii_lowercase_def take_map len
    by (cases "header_to_str v") (auto dest!: header_to_str_Some)
qed

lemma extract_bearer_token_Some_iff:
  "extract_bearer_token h = Some tok \<longleftrightarrow>
     (\<exists>scheme. h = Some (scheme @ tok) \<and> to_ascii_lowercase scheme = lit ''bearer ''
        \<and> header_to_str (scheme @ tok) \<noteq> None)"
  (is "?l \<longleftrightarrow> ?r")
proof
  assume ?l
  then obtain v where "h = Some v" "extract_bearer_token (Some v) = Some tok"
    by (cases h) (auto simp: extract_bearer_token_def)
  then show ?r
    by (intro exI [of _ "take 7 v"]) (auto simp: extract_bearer_token_eq split: if_splits)
next
  assume ?r
  then obtain scheme where h: "h = Some (scheme @ tok)" "to_ascii_lowercase scheme = lit ''bearer ''"
      "header_to_str (scheme @ tok) \<noteq> None"
    by blast
  then have "length (to_ascii_lowercase scheme) = 7" by simp
  then have "length scheme = 7" by (simp add: to_ascii_lowercase_def)
  with h show ?l
    by (simp add: extract_bearer_token_eq)
qed

subsection \<open>Handlers refine the abstract effects\<close>

lemma finish_simps [simp]:
  "snd (finish rs st evs) = snd rs"
  "fst (finish (Ok u, s) st evs) = (status_only st, evs)"
  "fst (finish (Err e, s) st evs) = (mgmt_error_response (ResourceFailed e), [])"
  by (auto simp: finish_def split: prod.split result.split)

lemma mgmt_error_body [simp]:
  "rs_body (mgmt_error_response e) \<noteq> MappingList ms" "rs_body (mgmt_error_response e) \<noteq> ScopeList sms"
  by (cases e rule: mgmt_error_response.cases; simp add: status_only_def json_error_def)+

lemma rs_status_only [simp]: "rs_status (status_only n) = n" "rs_body (status_only n) = NoBody"
  by (simp_all add: status_only_def)

lemma write_meets_guarded:
  "write_meets (guarded (Ok u) spec) pol pol' r \<longleftrightarrow> write_meets spec pol pol' r"
  "write_meets (guarded (Err e) spec) pol pol (Err e)"
  by (auto simp: write_meets_def guarded_def)

lemma validation_no_db_error:
  "validate_resource_mapping it m = Err e \<Longrightarrow> no_db_error (Err e :: (unit, resource_error) result)"
  "validate_scope_mapping sm = Err e \<Longrightarrow> no_db_error (Err e :: (unit, resource_error) result)"
  "for_each_check validate_scope_mapping sms = Err e \<Longrightarrow> no_db_error (Err e :: (unit, resource_error) result)"
  by (auto simp: no_db_error_def
      dest!: for_each_check_ErrD validate_resource_mapping_ErrD validate_scope_mapping_ErrD)

context store_contract begin

text \<open>A state in which no write fails with a database error.\<close>

definition steady :: "'s \<Rightarrow> bool" where
  "steady s \<longleftrightarrow>
     (\<forall>m. no_db_error (fst (st_save_mapping ops m s)))
     \<and> (\<forall>m. no_db_error (fst (st_update_mapping ops m s)))
     \<and> (\<forall>c p. no_db_error (fst (st_remove_mapping ops c p s)))
     \<and> (\<forall>c. no_db_error (fst (st_remove_mappings_for ops c s)))
     \<and> (\<forall>ms. no_db_error (fst (st_save_scope_mappings ops ms s)))
     \<and> (\<forall>m. no_db_error (fst (st_update_scope_mapping ops m s)))
     \<and> (\<forall>sc. no_db_error (fst (st_remove_scope_mapping ops sc s)))"

lemma steadyD:
  "steady s \<Longrightarrow> st_save_mapping ops m s = (r, s') \<Longrightarrow> no_db_error r"
  "steady s \<Longrightarrow> st_update_mapping ops m s = (r, s') \<Longrightarrow> no_db_error r"
  "steady s \<Longrightarrow> st_remove_mapping ops c p s = (r, s') \<Longrightarrow> no_db_error r"
  "steady s \<Longrightarrow> st_remove_mappings_for ops c s = (r, s') \<Longrightarrow> no_db_error r"
  "steady s \<Longrightarrow> st_save_scope_mappings ops ms s = (r, s') \<Longrightarrow> no_db_error r"
  "steady s \<Longrightarrow> st_update_scope_mapping ops sm s = (r, s') \<Longrightarrow> no_db_error r"
  "steady s \<Longrightarrow> st_remove_scope_mapping ops sc s = (r, s') \<Longrightarrow> no_db_error r"
  unfolding steady_def by (metis fst_conv)+

lemma run_endpoint_write:
  assumes "invar s" "endpoint_write keep it req ep = Some w"
  obtains r s' where "run_endpoint it ops req actor ep s = finish (r, s') (success_status ep) (success_events actor req ep)"
    "invar s'" "write_meets w (policy_of s) (policy_of s') r" "steady s \<Longrightarrow> no_db_error r"
proof -
  have "\<exists>r s'. run_endpoint it ops req actor ep s = finish (r, s') (success_status ep) (success_events actor req ep)
      \<and> invar s' \<and> write_meets w (policy_of s) (policy_of s') r \<and> (steady s \<longrightarrow> no_db_error r)"
  proof (cases ep)
    case CreateMapping
    then obtain m where "mr_mapping_body req = Ok m" "w = guarded (validate_resource_mapping it m) (spec_save m)"
      using assms(2) by (auto split: result.splits)
    with CreateMapping assms(1) save_law [of s m] steadyD(1) [of s m] show ?thesis
      by (cases "validate_resource_mapping it m"; cases "st_save_mapping ops m s")
        (auto simp: h_create_mapping_def svc_save_def write_meets_guarded validation_no_db_error intro!: exI)
  next
    case (UpdateMapping c p)
    then obtain m where "mr_mapping_body req = Ok m" "rm_key m = (c, p)"
        "w = guarded (validate_resource_mapping it m) (spec_update m)"
      using assms(2) by (auto split: result.splits if_splits)
    with UpdateMapping assms(1) update_law [of s m] steadyD(2) [of s m] show ?thesis
      by (cases "validate_resource_mapping it m"; cases "st_update_mapping ops m s")
        (auto simp: h_update_mapping_def svc_update_def write_meets_guarded validation_no_db_error intro!: exI)
  next
    case (DeleteMapping c p)
    with assms remove_law [of s c p] steadyD(3) [of s c p] show ?thesis
      by (cases "st_remove_mapping ops c p s") (auto simp: h_delete_mapping_def svc_remove_def intro!: exI)
  next
    case (DeleteClientMappings c)
    with assms remove_for_law [of s c] steadyD(4) [of s c] show ?thesis
      by (cases "st_remove_mappings_for ops c s") (auto simp: h_delete_client_mappings_def svc_remove_for_def intro!: exI)
  next
    case CreateScopes
    then obtain b where "mr_scopes_body req = Ok b"
        "w = guarded (for_each_check validate_scope_mapping (into_vec b)) (spec_save_scopes (map keep (into_vec b)))"
      using assms(2) by (auto split: result.splits)
    with CreateScopes assms(1) save_scopes_law [of s "into_vec b"] steadyD(5) [of s "into_vec b"] show ?thesis
      by (cases "for_each_check validate_scope_mapping (into_vec b)"; cases "st_save_scope_mappings ops (into_vec b) s")
        (auto simp: h_create_scope_mapping_def svc_save_scope_mappings_def write_meets_guarded validation_no_db_error intro!: exI)
  next
    case (UpdateScope sc)
    then obtain m where "mr_scope_body req = Ok m" "sm_scope m = sc"
        "w = guarded (validate_scope_mapping m) (spec_update_scope (keep m))"
      using assms(2) by (auto split: result.splits if_splits)
    with UpdateScope assms(1) update_scope_law [of s m] steadyD(6) [of s m] show ?thesis
      by (cases "validate_scope_mapping m"; cases "st_update_scope_mapping ops m s")
        (auto simp: h_update_scope_mapping_def svc_update_scope_mapping_def write_meets_guarded validation_no_db_error intro!: exI)
  next
    case (DeleteScope sc)
    with assms remove_scope_law [of s sc] steadyD(7) [of s sc] show ?thesis
      by (cases "st_remove_scope_mapping ops sc s") (auto simp: h_delete_scope_mapping_def svc_delete_scope_mapping_def intro!: exI)
  qed (use assms(2) in simp_all)
  with that show ?thesis by blast
qed

text \<open>The other endpoints only read, and what they show is the policy.\<close>

lemma run_list_mappings:
  assumes "invar s" "h_list_mappings ops s = ((resp, evs), s')"
  shows "invar s' \<and> policy_of s' = policy_of s \<and> evs = []
     \<and> (\<forall>ms. rs_body resp = MappingList ms \<longrightarrow> lists_mappings (policy_of s) ms)
     \<and> (\<forall>ms. rs_body resp \<noteq> ScopeList ms)"
  using assms list_law [OF assms(1)]
  by (cases "st_list_mappings ops s")
    (auto simp: h_list_mappings_def svc_list_mappings_def read_meets_def split: result.splits)

lemma run_list_scopes:
  assumes "invar s" "h_list_scope_mappings ops s = ((resp, evs), s')"
  shows "invar s' \<and> policy_of s' = policy_of s \<and> evs = []
     \<and> (\<forall>ms. rs_body resp = ScopeList ms \<longrightarrow> lists_scopes (policy_of s) ms)
     \<and> (\<forall>ms. rs_body resp \<noteq> MappingList ms)"
  using assms list_scopes_law [OF assms(1)]
  by (cases "st_list_scope_mappings ops s")
    (auto simp: h_list_scope_mappings_def svc_list_scope_mappings_def read_meets_def split: result.splits)

lemma run_endpoint_rejected:
  assumes "endpoint_write keep it req ep = None" "ep \<noteq> ListMappings" "ep \<noteq> ListScopes"
  obtains st where "run_endpoint it ops req actor ep s = ((status_only st, []), s)"
  using assms
  by (cases ep) (auto simp: reject_def h_update_mapping_def h_update_scope_mapping_def
      split: result.splits if_splits)

lemma run_endpoint_read:
  assumes "invar s" "endpoint_write keep it req ep = None" "run_endpoint it ops req actor ep s = ((resp, evs), s')"
  shows "invar s' \<and> policy_of s' = policy_of s \<and> evs = []
     \<and> (\<forall>ms. rs_body resp = MappingList ms \<longrightarrow> ep = ListMappings \<and> lists_mappings (policy_of s) ms)
     \<and> (\<forall>ms. rs_body resp = ScopeList ms \<longrightarrow> ep = ListScopes \<and> lists_scopes (policy_of s) ms)"
proof (cases "ep = ListMappings \<or> ep = ListScopes")
  case True
  with assms run_list_mappings [of s resp evs s'] run_list_scopes [of s resp evs s'] show ?thesis
    by auto
next
  case False
  then obtain st where "run_endpoint it ops req actor ep s = ((status_only st, []), s)"
    using run_endpoint_rejected [OF assms(2)] by blast
  with assms show ?thesis by auto
qed

end

subsection \<open>The abstract effects\<close>

lemma policy_valid_guarded:
  "policy_valid pol \<Longrightarrow> (check = Ok () \<Longrightarrow> policy_valid (snd (spec pol)))
     \<Longrightarrow> policy_valid (snd (guarded check spec pol))"
  by (cases check) (auto simp: guarded_def)

lemma endpoint_write_valid:
  assumes "endpoint_write keep it req ep = Some w" "valid_iter it" "policy_valid pol"
    and keep: "\<And>m. valid_scope_mapping m \<Longrightarrow> valid_scope_mapping (keep m)"
  shows "policy_valid (snd (w pol))"
proof (cases ep)
  case CreateMapping
  with assms show ?thesis
    by (auto split: result.splits intro!: policy_valid_guarded policy_valid_mappings(1)
        simp: validate_resource_mapping_Ok_iff)
next
  case UpdateMapping
  with assms show ?thesis
    by (auto split: result.splits if_splits intro!: policy_valid_guarded policy_valid_mappings(2)
        simp: validate_resource_mapping_Ok_iff)
next
  case CreateScopes
  with assms show ?thesis
    by (auto split: result.splits intro!: policy_valid_guarded policy_valid_scopes(1)
        simp: for_each_check_Ok_iff validate_scope_mapping_Ok_iff)
next
  case UpdateScope
  with assms show ?thesis
    by (auto split: result.splits if_splits intro!: policy_valid_guarded policy_valid_scopes(2)
        simp: validate_scope_mapping_Ok_iff)
qed (use assms in \<open>auto intro: policy_valid_mappings policy_valid_scopes\<close>)

text \<open>The role of an endpoint bounds the half of the policy it may change.\<close>

lemma endpoint_write_frame:
  assumes "endpoint_write keep it req ep = Some w"
  shows "pol_mappings (snd (w pol)) \<noteq> pol_mappings pol \<Longrightarrow> endpoint_role ep = ROLE_MAPPINGS_WRITE"
    and "pol_scopes (snd (w pol)) \<noteq> pol_scopes pol \<Longrightarrow> endpoint_role ep = ROLE_SCOPES_WRITE"
  using assms by (cases ep; auto simp: guarded_def spec_frames split: result.splits if_splits)+

lemma endpoint_write_error: "endpoint_write keep it req ep = Some w \<Longrightarrow> w pol = (Err e, pol') \<Longrightarrow> pol' = pol"
  by (cases ep) (auto simp: guarded_def spec_mapping_defs spec_scope_defs split: result.splits if_splits option.splits)

lemma endpoint_write_silent:
  "endpoint_write keep it req ep = Some w \<Longrightarrow> success_events actor req ep = [] \<Longrightarrow> snd (w pol) = pol"
  by (cases ep) (auto simp: guarded_def spec_save_scopes_def split: result.splits if_splits)

lemma endpoint_write_ok_status: "endpoint_write keep it req ep = Some w \<Longrightarrow> success_status ep \<in> {201, 204}"
  by (cases ep) auto

definition scope_in_body :: "mgmt_request \<Rightarrow> scope_mapping \<Rightarrow> bool" where
  "scope_in_body req m \<longleftrightarrow>
     mr_scope_body req = Ok m \<or> (\<exists>b. mr_scopes_body req = Ok b \<and> m \<in> set (into_vec b))"

text \<open>A mapping that appears in the policy came in the body of the request.\<close>

lemma endpoint_write_source:
  assumes "endpoint_write keep it req ep = Some w"
  shows "pol_mappings (snd (w pol)) k = Some m \<Longrightarrow>
      pol_mappings pol k = Some m \<or> mr_mapping_body req = Ok m \<and> endpoint_role ep = ROLE_MAPPINGS_WRITE"
    and "pol_scopes (snd (w pol)) sc = Some sm \<Longrightarrow>
      pol_scopes pol sc = Some sm
      \<or> (\<exists>x. sm = keep x \<and> scope_in_body req x)
        \<and> endpoint_role ep = ROLE_SCOPES_WRITE"
  using assms
  by (cases ep; auto simp: guarded_def spec_mapping_defs spec_scope_defs restrict_map_def
      scope_in_body_def split: result.splits if_splits option.splits dest!: add_scopes_SomeD)+

subsection \<open>A request through the middleware\<close>

lemma handle_management_cases:
  assumes "handle_management it fb ms req (v, s) = ((resp, evs), (v', s'))"
  obtains (stopped) st where "resp = status_only st" "evs = []" "s' = s"
    | (reached) ep tok cl where
        "management_routes (mr_method req) (mr_path req) = Routed ep (endpoint_role ep)"
        "extract_bearer_token (mr_authorization req) = Some tok"
        "ms_verifier ms (ms_client_audience ms) tok v = (Ok cl, v')"
        "ms_authorizer ms (tc_sub cl) {|endpoint_role ep|} = Ok True"
        "run_endpoint it (ms_resource_service ms) req (tc_sub cl) ep s = ((resp, evs), s')"
proof (cases "management_routes (mr_method req) (mr_path req)")
  case (Routed ep role)
  note role = management_routes_role [OF this]
  show ?thesis
  proof (cases "extract_bearer_token (mr_authorization req)")
    case None
    with assms Routed show ?thesis
      by (intro stopped) (auto simp: handle_management_def authorize_with_role_def)
  next
    case (Some tok)
    obtain rv v1 where ver: "ms_verifier ms (ms_client_audience ms) tok v = (rv, v1)"
      by (cases "ms_verifier ms (ms_client_audience ms) tok v")
    show ?thesis
    proof (cases "\<exists>cl. rv = Ok cl \<and> ms_authorizer ms (tc_sub cl) {|role|} = Ok True")
      case True
      with assms Routed Some ver role show ?thesis
        by (auto intro!: reached simp: handle_management_def authorize_with_role_def split: prod.splits)
    next
      case False
      then have "\<exists>st. handle_management it fb ms req (v, s) = ((status_only st, []), (v1, s))"
        using Routed Some ver by (auto simp: handle_management_def authorize_with_role_def
            split: result.splits bool.splits auth_error.splits)
      with assms show ?thesis by (auto intro: stopped)
    qed
  qed
qed (use assms in \<open>auto simp: handle_management_def intro: stopped split: prod.splits\<close>)

text \<open>A caller with a role: its bearer token is vouched for the service's audience and its subject holds the role.\<close>

definition caller_has_role ::
    "('v \<Rightarrow> str \<Rightarrow> str \<Rightarrow> token_claims \<Rightarrow> bool) \<Rightarrow> (str \<Rightarrow> str \<Rightarrow> bool) \<Rightarrow> ('v, 's) management_state
       \<Rightarrow> mgmt_request \<Rightarrow> 'v \<Rightarrow> str \<Rightarrow> str \<Rightarrow> bool" where
  "caller_has_role vouched holds ms req v sub role \<longleftrightarrow>
     (\<exists>tok cl. extract_bearer_token (mr_authorization req) = Some tok
        \<and> vouched v (ms_client_audience ms) tok cl \<and> tc_sub cl = sub \<and> holds sub role)"

locale management_setting =
  store: store_contract "ms_resource_service ms" policy_of invar keep +
  ver: token_verifier "ms_verifier ms" vouched +
  auth: role_authorizer "ms_authorizer ms" holds
  for ms :: "('v, 's) management_state"
    and policy_of :: "'s \<Rightarrow> policy" and invar :: "'s \<Rightarrow> bool"
    and keep :: "scope_mapping \<Rightarrow> scope_mapping"
    and vouched :: "'v \<Rightarrow> str \<Rightarrow> str \<Rightarrow> token_claims \<Rightarrow> bool"
    and holds :: "str \<Rightarrow> str \<Rightarrow> bool"
begin

lemma reached_role:
  assumes "extract_bearer_token (mr_authorization req) = Some tok"
    and "ms_verifier ms (ms_client_audience ms) tok v = (Ok cl, v')"
    and "ms_authorizer ms (tc_sub cl) {|role|} = Ok True"
  shows "caller_has_role vouched holds ms req v (tc_sub cl) role"
  using assms ver.accepted_vouched auth.authorize_single
  unfolding caller_has_role_def by blast

lemma handle_cases:
  assumes "invar s" "handle_management it fb ms req (v, s) = ((resp, evs), (v', s'))"
  obtains (stopped) st where "resp = status_only st" "evs = []" "s' = s"
    | (wrote) ep w sub r where
        "management_routes (mr_method req) (mr_path req) = Routed ep (endpoint_role ep)"
        "caller_has_role vouched holds ms req v sub (endpoint_role ep)"
        "endpoint_write keep it req ep = Some w"
        "(resp, evs) = fst (finish (r, s') (success_status ep) (success_events sub req ep))"
        "invar s'" "write_meets w (policy_of s) (policy_of s') r" "store.steady s \<Longrightarrow> no_db_error r"
    | (observed) ep sub where
        "management_routes (mr_method req) (mr_path req) = Routed ep (endpoint_role ep)"
        "caller_has_role vouched holds ms req v sub (endpoint_role ep)"
        "invar s'" "policy_of s' = policy_of s" "evs = []"
        "\<forall>l. rs_body resp = MappingList l \<longrightarrow> ep = ListMappings \<and> lists_mappings (policy_of s) l"
        "\<forall>l. rs_body resp = ScopeList l \<longrightarrow> ep = ListScopes \<and> lists_scopes (policy_of s) l"
  using assms(2)
proof (rule handle_management_cases)
  fix st
  assume "resp = status_only st" "evs = []" "s' = s"
  then show thesis by (rule stopped)
next
  fix ep tok cl
  assume route: "management_routes (mr_method req) (mr_path req) = Routed ep (endpoint_role ep)"
    and tok: "extract_bearer_token (mr_authorization req) = Some tok"
      "ms_verifier ms (ms_client_audience ms) tok v = (Ok cl, v')"
      "ms_authorizer ms (tc_sub cl) {|endpoint_role ep|} = Ok True"
    and run: "run_endpoint it (ms_resource_service ms) req (tc_sub cl) ep s = ((resp, evs), s')"
  note role = reached_role [OF tok]
  show thesis
  proof (cases "endpoint_write keep it req ep")
    case None
    from store.run_endpoint_read [OF assms(1) None run] observed [OF route role] show thesis by blast
  next
    case (Some w)
    obtain r s1 where r: "run_endpoint it (ms_resource_service ms) req (tc_sub cl) ep s
          = finish (r, s1) (success_status ep) (success_events (tc_sub cl) req ep)"
        "invar s1" "write_meets w (policy_of s) (policy_of s1) r" "store.steady s \<Longrightarrow> no_db_error r"
      by (rule store.run_endpoint_write [OF assms(1) Some, of "tc_sub cl"]) blast
    with run have eq: "((resp, evs), s') = finish (r, s1) (success_status ep) (success_events (tc_sub cl) req ep)"
      by simp
    have "s1 = s'" "(resp, evs) = fst (finish (r, s') (success_status ep) (success_events (tc_sub cl) req ep))"
      using arg_cong [OF eq, of snd] arg_cong [OF eq, of fst] by simp_all
    with wrote [OF route role Some] r show thesis by simp
  qed
qed

lemma management_invariant:
  assumes "invar s" "handle_management it fb ms req (v, s) = (out, (v', s'))"
  shows "invar s'" and "valid_iter it \<Longrightarrow> policy_valid (policy_of s) \<Longrightarrow> policy_valid (policy_of s')"
proof -
  obtain resp evs where h: "handle_management it fb ms req (v, s) = ((resp, evs), (v', s'))"
    using assms(2) by (cases out) simp
  show "invar s'"
    using assms(1) h by (rule handle_cases) (use assms(1) in auto)
  show "valid_iter it \<Longrightarrow> policy_valid (policy_of s) \<Longrightarrow> policy_valid (policy_of s')"
    using assms(1) h
    by (rule handle_cases)
      (simp_all, metis endpoint_write_valid store.keep_valid write_meets_preserves [where P = policy_valid])
qed

lemma management_reads_guarded:
  assumes "invar s" "handle_management it fb ms req (v, s) = ((resp, evs), (v', s'))"
  shows "rs_body resp = MappingList l \<Longrightarrow>
      lists_mappings (policy_of s) l \<and> (\<exists>sub. caller_has_role vouched holds ms req v sub ROLE_MANAGEMENT_READ)"
    and "rs_body resp = ScopeList k \<Longrightarrow>
      lists_scopes (policy_of s) k \<and> (\<exists>sub. caller_has_role vouched holds ms req v sub ROLE_MANAGEMENT_READ)"
proof -
  have wrote: "\<not> (rs_body resp = MappingList a \<or> rs_body resp = ScopeList b)"
    if "(resp, evs) = fst (finish (r, s') st evs')" for r st evs' a b
    using that by (cases r) auto
  show "rs_body resp = MappingList l \<Longrightarrow>
      lists_mappings (policy_of s) l \<and> (\<exists>sub. caller_has_role vouched holds ms req v sub ROLE_MANAGEMENT_READ)"
    and "rs_body resp = ScopeList k \<Longrightarrow>
      lists_scopes (policy_of s) k \<and> (\<exists>sub. caller_has_role vouched holds ms req v sub ROLE_MANAGEMENT_READ)"
    using assms by (rule handle_cases; use wrote in force)+
qed

lemma management_writes_guarded:
  assumes "invar s" "handle_management it fb ms req (v, s) = ((resp, evs), (v', s'))"
  shows "pol_mappings (policy_of s') \<noteq> pol_mappings (policy_of s) \<Longrightarrow>
      \<exists>sub. caller_has_role vouched holds ms req v sub ROLE_MAPPINGS_WRITE"
    and "pol_scopes (policy_of s') \<noteq> pol_scopes (policy_of s) \<Longrightarrow>
      \<exists>sub. caller_has_role vouched holds ms req v sub ROLE_SCOPES_WRITE"
  using assms(1,2)
  by (rule handle_cases; metis write_meets_frame endpoint_write_frame)+

text \<open>
  No silent change: a request that changed the policy was audited under the subject that
  holds the role, or answered with a server error, which leaves the outcome open.
\<close>

lemma management_audited:
  assumes "invar s" "handle_management it fb ms req (v, s) = ((resp, evs), (v', s'))"
    and "policy_of s' \<noteq> policy_of s"
  obtains (failed) "rs_status resp = 500" "\<not> store.steady s"
    | (audited) ep sub where "management_routes (mr_method req) (mr_path req) = Routed ep (endpoint_role ep)"
        "caller_has_role vouched holds ms req v sub (endpoint_role ep)"
        "evs = success_events sub req ep" "evs \<noteq> []" "rs_status resp = success_status ep" "rs_status resp \<in> {201, 204}"
  using assms(1,2)
proof (rule handle_cases)
  fix ep w sub r
  assume route: "management_routes (mr_method req) (mr_path req) = Routed ep (endpoint_role ep)"
    and role: "caller_has_role vouched holds ms req v sub (endpoint_role ep)"
    and ew: "endpoint_write keep it req ep = Some w"
    and out: "(resp, evs) = fst (finish (r, s') (success_status ep) (success_events sub req ep))"
    and wm: "write_meets w (policy_of s) (policy_of s') r"
    and steady: "store.steady s \<Longrightarrow> no_db_error r"
  show thesis
  proof (cases r)
    case (Ok u)
    with wm have "policy_of s' = snd (w (policy_of s))" by (auto simp: write_meets_def) (metis snd_conv)
    with assms(3) have "success_events sub req ep \<noteq> []" using endpoint_write_silent [OF ew] by metis
    with out Ok show thesis
      using endpoint_write_ok_status [OF ew] by (intro audited [OF route role]) auto
  next
    case (Err e)
    then have "\<exists>msg. e = DatabaseError msg"
      using wm assms(3) endpoint_write_error [OF ew, of "policy_of s" e "policy_of s'"]
      by (auto simp: write_meets_def)
    moreover from this steady Err have "\<not> store.steady s" by (auto simp: no_db_error_def)
    ultimately show thesis using out Err failed by auto
  qed
qed (use assms(3) in auto)

text \<open>
  The other direction: an accepted caller with the role of a writing endpoint gets the
  write, with its status and its events; in a steady state it is the abstract effect.
\<close>

lemma management_performs:
  assumes "invar s" "management_routes (mr_method req) (mr_path req) = Routed ep role"
    and "endpoint_write keep it req ep = Some w"
    and "extract_bearer_token (mr_authorization req) = Some tok"
    and "ms_verifier ms (ms_client_audience ms) tok v = (Ok cl, v')" "holds (tc_sub cl) role"
  obtains r s' where
    "handle_management it fb ms req (v, s)
       = (fst (finish (r, s') (success_status ep) (success_events (tc_sub cl) req ep)), (v', s'))"
    "invar s'" "write_meets w (policy_of s) (policy_of s') r"
    "store.steady s \<Longrightarrow> (r, policy_of s') = w (policy_of s)"
proof -
  obtain r s' where run: "run_endpoint it (ms_resource_service ms) req (tc_sub cl) ep s
        = finish (r, s') (success_status ep) (success_events (tc_sub cl) req ep)"
      and r: "invar s'" "write_meets w (policy_of s) (policy_of s') r" "store.steady s \<Longrightarrow> no_db_error r"
    by (rule store.run_endpoint_write [OF assms(1,3), of "tc_sub cl"]) blast
  have "handle_management it fb ms req (v, s)
       = (fst (finish (r, s') (success_status ep) (success_events (tc_sub cl) req ep)), (v', s'))"
    using assms run auth.authorize_single [of "tc_sub cl" role]
    by (simp add: handle_management_def authorize_with_role_def split_beta)
  with that r write_meets_exact [OF r(2)] show thesis by blast
qed

text \<open>Where the entries of the policy come from.\<close>

lemma write_meets_source:
  assumes "write_meets w pol pol' r" "P pol'"
  shows "P pol \<or> P (snd (w pol))"
  using assms by (cases rule: write_meets_cases) (auto simp: prod_eq_iff)

lemma management_mapping_source:
  assumes "invar s" "handle_management it fb ms req (v, s) = ((resp, evs), (v', s'))"
    and "pol_mappings (policy_of s') k = Some m"
  shows "pol_mappings (policy_of s) k = Some m
     \<or> mr_mapping_body req = Ok m \<and> (\<exists>sub. caller_has_role vouched holds ms req v sub ROLE_MAPPINGS_WRITE)"
  using assms(1,2)
proof (rule handle_cases)
  fix ep w sub r
  assume "caller_has_role vouched holds ms req v sub (endpoint_role ep)"
    and "endpoint_write keep it req ep = Some w" "write_meets w (policy_of s) (policy_of s') r"
  with assms(3) show ?thesis
    using write_meets_source [of w _ _ r "\<lambda>pol. pol_mappings pol k = Some m"] endpoint_write_source(1) by metis
qed (use assms(3) in auto)

lemma management_scope_source:
  assumes "invar s" "handle_management it fb ms req (v, s) = ((resp, evs), (v', s'))"
    and "pol_scopes (policy_of s') sc = Some sm"
  shows "pol_scopes (policy_of s) sc = Some sm
     \<or> (\<exists>x. sm = keep x \<and> scope_in_body req x)
       \<and> (\<exists>sub. caller_has_role vouched holds ms req v sub ROLE_SCOPES_WRITE)"
  using assms(1,2)
proof (rule handle_cases)
  fix ep w sub r
  assume "caller_has_role vouched holds ms req v sub (endpoint_role ep)"
    and "endpoint_write keep it req ep = Some w" "write_meets w (policy_of s) (policy_of s') r"
  with assms(3) show ?thesis
    using write_meets_source [of w _ _ r "\<lambda>pol. pol_scopes pol sc = Some sm"] endpoint_write_source(2) by metis
qed (use assms(3) in auto)

end

context reliable_store begin

lemma always_steady: "invar s \<Longrightarrow> steady s"
  by (simp add: steady_def save_reliable update_reliable remove_reliable remove_for_reliable
      save_scopes_reliable update_scope_reliable remove_scope_reliable)

end

end
