(* ===== verification/Server_Assembly.thy ===== *)
theory Server_Assembly
  imports Server_Config K8s_Verifier Service_Account Memory_Store Postgres_Store Management_Api
begin

section \<open>Assembly of the runtime\<close>

text \<open>
  \<^verbatim>\<open>crates/jwtlet-server/src/assembly/mod.rs\<close> and \<^verbatim>\<open>meta/mod.rs\<close>: from a
  configuration and a store to the running service.

  The Vault client, the HTTP client, the certificate parser and the operating system are
  not part of the program: they are the fields of a platform over a world. The exchange
  and the management API get a verifier each; both use the same environment.
\<close>

subsection \<open>The metadata document\<close>

record authorization_server_metadata =
  am_issuer :: str
  am_token_endpoint :: str
  am_jwks_uri :: str
  am_grant_types_supported :: "str list"
  am_token_endpoint_auth_methods_supported :: "str list"

definition new_metadata :: "str \<Rightarrow> authorization_server_metadata" where
  "new_metadata issuer =
     \<lparr>am_issuer = issuer,
      am_token_endpoint = issuer @ lit ''/token'',
      am_jwks_uri = issuer @ lit ''/.well-known/jwks.json'',
      am_grant_types_supported = [lit ''urn:ietf:params:oauth:grant-type:token-exchange''],
      am_token_endpoint_auth_methods_supported = [lit ''none'']\<rparr>"

subsection \<open>The platform\<close>

record vault_client_config =
  hv_vault_url :: str
  hv_token_file_path :: str
  hv_signing_key_name :: str

record 'c http_client_options =
  hc_connect_timeout :: duration
  hc_timeout :: duration
  hc_root_certificates :: "'c list"

record ('w, 'c, 'vc, 'kr, 'g) platform =
  pf_k8s :: "'w k8s_env"
  pf_temp_dir :: str
  pf_new_uuid :: "'w \<Rightarrow> str \<times> 'w"
  pf_create_new :: "str \<Rightarrow> nat \<Rightarrow> 'w \<Rightarrow> (unit, str) result \<times> 'w"
  pf_write_all :: "str \<Rightarrow> str \<Rightarrow> 'w \<Rightarrow> (unit, str) result \<times> 'w"
  pf_exists :: "str \<Rightarrow> 'w \<Rightarrow> bool"
  pf_read_file :: "str \<Rightarrow> 'w \<Rightarrow> (nat list, str) result \<times> 'w"
  pf_parse_cert :: "nat list \<Rightarrow> ('c, str) result"
  pf_build_client :: "'c http_client_options \<Rightarrow> (unit, str) result"
  pf_vault_new :: "vault_client_config \<Rightarrow> ('vc, str) result"
  pf_vault_init :: "'vc \<Rightarrow> 'w \<Rightarrow> ('vc, str) result \<times> 'w"
  pf_key_resolver_init :: "'vc \<Rightarrow> str \<Rightarrow> 'w \<Rightarrow> ('kr, jwt_verification_error) result \<times> 'w"
  pf_generator :: "'vc \<Rightarrow> str \<Rightarrow> 'g generator"

datatype jwtlet_error =
    Configuration str
  | Database str
  | Vault str
  | Verifier jwt_verification_error
  | Io str

text \<open>
  The runtime: the services with the functions they call, and the two verifiers in the
  state in which they start. \<open>rt_warnings\<close> are the warnings about the configuration that a
  successful assembly logs; those about the environment (a literal Vault token, a missing
  cluster CA) are not recorded.
\<close>

record ('w, 's, 'kr, 'g) jwtlet_runtime =
  rt_token_service :: "(k8s_verifier \<times> 'w, 's, 'g) token_exchange_service"
  rt_exchange_verifier :: k8s_verifier
  rt_resource_service :: "'s resource_store"
  rt_key_resolver :: 'kr
  rt_service_account_authorizer :: "str \<Rightarrow> str fset \<Rightarrow> (bool, auth_error) result"
  rt_management_verify :: "(k8s_verifier \<times> 'w) verifier"
  rt_management_verifier :: k8s_verifier
  rt_management_client_audience :: str
  rt_metadata :: authorization_server_metadata
  rt_warnings :: "str list"

definition DEFAULT_SIGNING_KEY_PREFIX :: str where
  "DEFAULT_SIGNING_KEY_PREFIX = lit ''signing''"

definition K8S_CONNECT_TIMEOUT :: duration where
  "K8S_CONNECT_TIMEOUT = \<lparr>dur_secs = 5, dur_nanos = 0\<rparr>"

definition K8S_REQUEST_TIMEOUT :: duration where
  "K8S_REQUEST_TIMEOUT = \<lparr>dur_secs = 10, dur_nanos = 0\<rparr>"

definition K8S_CA :: str where
  "K8S_CA = lit ''/var/run/secrets/kubernetes.io/serviceaccount/ca.crt''"

subsection \<open>Component helpers\<close>

abbreviation em_dash :: str where
  "em_dash \<equiv> [8212]"

definition is_api_server_audience :: "k8s_config \<Rightarrow> str \<Rightarrow> bool" where
  "is_api_server_audience kc audience \<longleftrightarrow>
     (\<exists>v\<in>set [kc_cluster_issuer kc, kc_api_server_url kc].
        case v of None \<Rightarrow> False | Some a \<Rightarrow> trim_end_matches 47 a = trim_end_matches 47 audience)"

definition warn_if_api_server_audience :: "jwtlet_config \<Rightarrow> str \<Rightarrow> str \<Rightarrow> str list" where
  "warn_if_api_server_audience cfg setting audience =
     error_if (is_api_server_audience (jc_k8s cfg) audience)
       (setting @ lit '' '' @ sq @ audience @ sq @ lit '' is the Kubernetes API server audience '' @ em_dash
        @ lit '' tokens presented to jwtlet are also valid Kubernetes API credentials and could be replayed ''
        @ lit ''against the cluster. Prefer a dedicated audience with projected service account tokens.'')"

definition missing_role_warnings :: "(str, str list) hash_map \<Rightarrow> str list" where
  "missing_role_warnings accounts =
     (let all_roles = concat (map snd accounts) in
      concat (map (\<lambda>role. error_if (role \<notin> set all_roles)
                     (lit ''No service account with '' @ sq @ role @ sq @ lit '' role is configured '' @ em_dash
                      @ lit '' those management API routes will return 403 Forbidden''))
        [ROLE_MAPPINGS_WRITE, ROLE_SCOPES_WRITE]))"

definition configured_accounts :: "(str, str list) hash_map \<Rightarrow> service_account_store" where
  "configured_accounts accounts =
     from_accounts (map (\<lambda>(i, roles). \<lparr>sa_client_id = i, sa_roles = fset_of_list roles\<rparr>) accounts)"

definition build_service_account_authorizer ::
    "(str, str list) hash_map \<Rightarrow> str \<Rightarrow> str fset \<Rightarrow> (bool, auth_error) result" where
  "build_service_account_authorizer accounts = mem_authorize (configured_accounts accounts)"

definition create_key_resolver ::
    "('w, 'c, 'vc, 'kr, 'g) platform \<Rightarrow> 'vc \<Rightarrow> 'w \<Rightarrow> ('kr, jwtlet_error) result \<times> 'w" where
  "create_key_resolver pf vault_client w =
     map_err_io Verifier (pf_key_resolver_init pf vault_client (lit ''jwtlet'') w)"

text \<open>\<^verbatim>\<open>Path::join\<close>: an absolute second path replaces the first.\<close>

definition path_join :: "str \<Rightarrow> str \<Rightarrow> str" where
  "path_join d x =
     (if starts_with x [47] \<or> d = [] then x else if last d = 47 then d @ x else d @ [47] @ x)"

text \<open>The file is created, never opened if it exists, with mode \<^verbatim>\<open>0o600\<close>.\<close>

definition write_private_temp_file ::
    "('w, 'c, 'vc, 'kr, 'g) platform \<Rightarrow> str \<Rightarrow> str \<Rightarrow> 'w \<Rightarrow> (str, str) result \<times> 'w" where
  "write_private_temp_file pf prefix contents w =
     (case pf_new_uuid pf w of
        (uuid, w1) \<Rightarrow>
          (let path = path_join (pf_temp_dir pf) (prefix @ lit ''-'' @ uuid) in
           bind_io (pf_create_new pf path 384 w1) (\<lambda>_ w2.
           bind_io (pf_write_all pf path contents w2) (\<lambda>_ w3. (Ok path, w3)))))"

definition create_vault_client ::
    "('w, 'c, 'vc, 'kr, 'g) platform \<Rightarrow> vault_config \<Rightarrow> str \<Rightarrow> 'w \<Rightarrow> ('vc, jwtlet_error) result \<times> 'w" where
  "create_vault_client pf vc signing_key_name w =
     bind_io (ok_or (vc_url vc) (Configuration (lit ''vault.url is required'')), w) (\<lambda>url w1.
     bind_io
       (case (vc_token_file vc, vc_token vc) of
          (Some path, _) \<Rightarrow> (Ok path, w1)
        | (None, Some token) \<Rightarrow> map_err_io Io (write_private_temp_file pf (lit ''jwtlet_vault_token'') token w1)
        | (None, None) \<Rightarrow> (Err (Configuration (lit ''Either vault.token or vault.token_file is required'')), w1))
       (\<lambda>token_file w2.
     bind_io
       (map_err Vault (pf_vault_new pf
          \<lparr>hv_vault_url = url, hv_token_file_path = token_file, hv_signing_key_name = signing_key_name\<rparr>), w2)
       (\<lambda>client w3. map_err_io Vault (pf_vault_init pf client w3))))"

definition add_cluster_ca ::
    "('w, 'c, 'vc, 'kr, 'g) platform \<Rightarrow> 'w \<Rightarrow> ('c list, jwtlet_error) result \<times> 'w" where
  "add_cluster_ca pf w =
     (if pf_exists pf K8S_CA w
      then bind_io (map_err_io Io (pf_read_file pf K8S_CA w)) (\<lambda>pem w1.
             (and_then (map_err (\<lambda>e. Configuration (lit ''Invalid cluster CA cert: '' @ e)) (pf_parse_cert pf pem))
                (\<lambda>cert. Ok [cert]), w1))
      else (Ok [], w))"

definition initialized_verifier ::
    "'w k8s_env \<Rightarrow> k8s_verifier \<Rightarrow> 'w \<Rightarrow> (k8s_verifier, jwtlet_error) result \<times> 'w" where
  "initialized_verifier env kv w =
     (case k8s_initialize env (kv, w) of
        (Ok _, (kv', w')) \<Rightarrow> (Ok kv', w')
      | (Err e, (_, w')) \<Rightarrow> (Err (Verifier e), w'))"

definition create_k8s_verifier ::
    "('w, 'c, 'vc, 'kr, 'g) platform \<Rightarrow> k8s_config \<Rightarrow> 'w \<Rightarrow> (k8s_verifier, jwtlet_error) result \<times> 'w" where
  "create_k8s_verifier pf kc w =
     bind_io (ok_or (kc_api_server_url kc) (Configuration (lit ''k8s.api_server_url is required'')), w) (\<lambda>url w1.
     bind_io (ok_or (kc_cluster_issuer kc) (Configuration (lit ''k8s.cluster_issuer is required'')), w1) (\<lambda>issuer w2.
     bind_io (add_cluster_ca pf w2) (\<lambda>roots w3.
     bind_io
       (map_err (\<lambda>e. Configuration (lit ''Failed to build HTTP client: '' @ e))
          (pf_build_client pf \<lparr>hc_connect_timeout = K8S_CONNECT_TIMEOUT, hc_timeout = K8S_REQUEST_TIMEOUT,
             hc_root_certificates = roots\<rparr>), w3)
       (\<lambda>_ w4.
     initialized_verifier (pf_k8s pf)
       \<lparr>kv_api_server_url = url, kv_cluster_issuer = issuer, kv_token_file = kc_token_file kc,
        kv_require_service_account = True, kv_state = None, kv_renewal_handle = False\<rparr> w4))))"

subsection \<open>Top-level assembly\<close>

definition signing_key_name :: "jwtlet_config \<Rightarrow> str" where
  "signing_key_name cfg =
     DEFAULT_SIGNING_KEY_PREFIX @ lit ''-'' @ tk_participant_context_claim (jc_token cfg)"

definition shared_audience_warning :: "str \<Rightarrow> str \<Rightarrow> str list" where
  "shared_audience_warning management_audience client_audience =
     error_if (management_audience = client_audience)
       (lit ''management.client_audience is not set or equals token.client_audience '' @ em_dash
        @ lit '' exchange callers and management callers share the same token audience. ''
        @ lit ''Consider setting management.client_audience to a distinct value.'')"

definition management_audience :: "jwtlet_config \<Rightarrow> str \<Rightarrow> str" where
  "management_audience cfg client_audience =
     (case mc_client_audience (jc_management cfg) of None \<Rightarrow> client_audience | Some a \<Rightarrow> a)"

definition build_token_service ::
    "('w, 'c, 'vc, 'kr, 'g) platform \<Rightarrow> jwtlet_config \<Rightarrow> 's resource_store \<Rightarrow> 'vc \<Rightarrow> str \<Rightarrow> str \<Rightarrow> str
       \<Rightarrow> (k8s_verifier \<times> 'w, 's, 'g) token_exchange_service" where
  "build_token_service pf cfg store vault_client client_audience audience issuer =
     \<lparr>te_client_audience = client_audience, te_audience = audience, te_issuer = issuer,
      te_jwtlet_participant_context = tk_participant_context_claim (jc_token cfg),
      te_token_ttl_secs = tk_token_ttl_secs (jc_token cfg),
      te_verifier = k8s_verify_token (pf_k8s pf), te_resource_service = store,
      te_generator = pf_generator pf vault_client DEFAULT_SIGNING_KEY_PREFIX\<rparr>"

definition build_runtime ::
    "('w, 'c, 'vc, 'kr, 'g) platform \<Rightarrow> jwtlet_config \<Rightarrow> 's resource_store \<Rightarrow> 'vc \<Rightarrow> 'kr \<Rightarrow> str \<Rightarrow> str \<Rightarrow> str
       \<Rightarrow> k8s_verifier \<Rightarrow> k8s_verifier \<Rightarrow> ('w, 's, 'kr, 'g) jwtlet_runtime" where
  "build_runtime pf cfg store vault_client key_resolver client_audience audience issuer
       exchange_verifier management_verifier =
     \<lparr>rt_token_service = build_token_service pf cfg store vault_client client_audience audience issuer,
      rt_exchange_verifier = exchange_verifier,
      rt_resource_service = store,
      rt_key_resolver = key_resolver,
      rt_service_account_authorizer = build_service_account_authorizer (jc_service_accounts cfg),
      rt_management_verify = k8s_verify_token (pf_k8s pf),
      rt_management_verifier = management_verifier,
      rt_management_client_audience = management_audience cfg client_audience,
      rt_metadata = new_metadata issuer,
      rt_warnings =
        missing_role_warnings (jc_service_accounts cfg)
        @ shared_audience_warning (management_audience cfg client_audience) client_audience
        @ warn_if_api_server_audience cfg (lit ''token.client_audience'') client_audience
        @ warn_if_api_server_audience cfg (lit ''management.client_audience'')
            (management_audience cfg client_audience)\<rparr>"

definition assemble ::
    "('w, 'c, 'vc, 'kr, 'g) platform \<Rightarrow> jwtlet_config \<Rightarrow> 's resource_store \<Rightarrow> 'w
       \<Rightarrow> (('w, 's, 'kr, 'g) jwtlet_runtime, jwtlet_error) result \<times> 'w" where
  "assemble pf cfg store w =
     bind_io (create_vault_client pf (jc_vault cfg) (signing_key_name cfg) w) (\<lambda>vault_client w1.
     bind_io (create_key_resolver pf vault_client w1) (\<lambda>key_resolver w2.
     bind_io (ok_or (tk_client_audience (jc_token cfg))
         (Configuration (lit ''token.client_audience is required'')), w2) (\<lambda>client_audience w3.
     bind_io (ok_or (tk_audience (jc_token cfg))
         (Configuration (lit ''token.audience is required'')), w3) (\<lambda>audience w4.
     bind_io (ok_or (jc_issuer cfg) (Configuration (lit ''issuer is required'')), w4) (\<lambda>issuer w5.
     bind_io (create_k8s_verifier pf (jc_k8s cfg) w5) (\<lambda>exchange_verifier w6.
     bind_io (create_k8s_verifier pf (jc_k8s cfg) w6) (\<lambda>management_verifier w7.
       (Ok (build_runtime pf cfg store vault_client key_resolver client_audience audience issuer
              exchange_verifier management_verifier), w7))))))))"

text \<open>The memory backend: the assembled runtime over an empty store.\<close>

definition assemble_memory ::
    "('w, 'c, 'vc, 'kr, 'g) platform \<Rightarrow> jwtlet_config \<Rightarrow> 'w
       \<Rightarrow> (('w, inner_store, 'kr, 'g) jwtlet_runtime \<times> inner_store, jwtlet_error) result \<times> 'w" where
  "assemble_memory pf cfg w = bind_io (assemble pf cfg memory_store w) (\<lambda>rt w'. (Ok (rt, mem_new), w'))"

subsection \<open>The Postgres backend\<close>

text \<open>
  The options the program sets on a connection and on the pool; an unset option keeps the
  driver's default. The driver parses a URL and connects; its pool is the one of the
  Postgres store.
\<close>

datatype pg_ssl_mode = Disable | Prefer | Require | VerifyCa | VerifyFull

record 'b pg_connect_options =
  co_url :: 'b
  co_application_name :: "str option"
  co_ssl_mode :: "pg_ssl_mode option"
  co_ssl_root_cert :: "str option"
  co_statement_cache_capacity :: "u64 option"

record pg_pool_options =
  po_max_connections :: "u32 option"
  po_min_connections :: "u32 option"
  po_acquire_timeout :: "duration option"
  po_idle_timeout :: "duration option option"
  po_max_lifetime :: "duration option option"
  po_test_before_acquire :: "bool option"

record ('w, 'b, 'db, 'tx) pg_driver =
  dr_parse_url :: "str \<Rightarrow> ('b, str) result"
  dr_connect :: "pg_pool_options \<Rightarrow> 'b pg_connect_options \<Rightarrow> 'w \<Rightarrow> ('db, str) result \<times> 'w"
  dr_pool :: "('db, 'tx) pg_pool"

definition parse_ssl_mode :: "str \<Rightarrow> (pg_ssl_mode, jwtlet_error) result" where
  "parse_ssl_mode mode =
     (if mode = lit ''disable'' then Ok Disable
      else if mode = lit ''prefer'' then Ok Prefer
      else if mode = lit ''require'' then Ok Require
      else if mode = lit ''verify-ca'' then Ok VerifyCa
      else if mode = lit ''verify-full'' then Ok VerifyFull
      else Err (Configuration (lit ''Invalid storage_backend.pool.sslmode '' @ sq @ mode @ sq)))"

definition build_connect_options ::
    "('w, 'b, 'db, 'tx) pg_driver \<Rightarrow> str \<Rightarrow> postgres_pool_config \<Rightarrow> ('b pg_connect_options, jwtlet_error) result" where
  "build_connect_options dr url pool =
     and_then (map_err (\<lambda>e. Configuration (lit ''Invalid storage_backend.url: '' @ e)) (dr_parse_url dr url)) (\<lambda>base.
     and_then (case pp_sslmode pool of
                 None \<Rightarrow> Ok None
               | Some mode \<Rightarrow> and_then (parse_ssl_mode mode) (\<lambda>parsed. Ok (Some parsed))) (\<lambda>ssl.
     Ok \<lparr>co_url = base, co_application_name = pp_application_name pool, co_ssl_mode = ssl,
         co_ssl_root_cert = pp_ssl_root_cert pool,
         co_statement_cache_capacity = pp_statement_cache_capacity pool\<rparr>))"

definition build_pool_options :: "postgres_pool_config \<Rightarrow> pg_pool_options" where
  "build_pool_options pool =
     \<lparr>po_max_connections = pp_max_connections pool, po_min_connections = pp_min_connections pool,
      po_acquire_timeout = pp_acquire_timeout pool,
      po_idle_timeout = map_option Some (pp_idle_timeout pool),
      po_max_lifetime = map_option Some (pp_max_lifetime pool),
      po_test_before_acquire = pp_test_before_acquire pool\<rparr>"

definition connect_postgres ::
    "('w, 'b, 'db, 'tx) pg_driver \<Rightarrow> str \<Rightarrow> postgres_pool_config \<Rightarrow> 'w \<Rightarrow> ('db, jwtlet_error) result \<times> 'w" where
  "connect_postgres dr url pool w =
     bind_io (build_connect_options dr url pool, w) (\<lambda>connect_options w1.
     bind_io
       (map_err_io (\<lambda>e. Database (lit ''Failed to connect to Postgres: '' @ e))
          (dr_connect dr (build_pool_options pool) connect_options w1))
       (\<lambda>db w2.
     if (case pp_run_migrations_on_startup pool of None \<Rightarrow> True | Some b \<Rightarrow> b)
     then
       (case pg_initialize (dr_pool dr) db of
          (Ok _, db') \<Rightarrow> (Ok db', w2)
        | (Err e, db') \<Rightarrow>
            (Err (Database (lit ''Failed to initialize Postgres store: '' @ show_resource_error e)), w2))
     else (Ok db, w2)))"

definition assemble_postgres ::
    "hash_iter \<Rightarrow> ('w, 'c, 'vc, 'kr, 'g) platform \<Rightarrow> ('w, 'b, 'db, 'tx) pg_driver \<Rightarrow> jwtlet_config \<Rightarrow> 'w
       \<Rightarrow> (('w, 'db, 'kr, 'g) jwtlet_runtime \<times> 'db, jwtlet_error) result \<times> 'w" where
  "assemble_postgres it pf dr cfg w =
     (case jc_storage_backend cfg of
        Memory \<Rightarrow> (Err (Configuration (lit ''assemble_postgres called with non-postgres backend'')), w)
      | Postgres url pool \<Rightarrow>
          (if url = [] then (Err (Configuration (lit ''storage_backend.url is required for postgres backend'')), w)
           else
             bind_io (connect_postgres dr url pool w) (\<lambda>db w1.
             bind_io (assemble pf cfg (postgres_store it (dr_pool dr)) w1) (\<lambda>rt w2. (Ok (rt, db), w2)))))"

subsection \<open>Start-up\<close>

text \<open>
  \<^verbatim>\<open>run_jwtlet\<close> and \<^verbatim>\<open>run\<close> of \<^verbatim>\<open>main.rs\<close>, up to the call of
  \<^verbatim>\<open>run_server\<close>: load, validate, assemble the configured backend.
\<close>

datatype 'e startup_error = LoadFailed 'e | InvalidConfig validation_error | AssemblyFailed jwtlet_error

datatype ('w, 'db, 'kr, 'g) started =
    StartedMemory "('w, inner_store, 'kr, 'g) jwtlet_runtime" inner_store
  | StartedPostgres "('w, 'db, 'kr, 'g) jwtlet_runtime" 'db

definition run_backend ::
    "hash_iter \<Rightarrow> ('w, 'c, 'vc, 'kr, 'g) platform \<Rightarrow> ('w, 'b, 'db, 'tx) pg_driver \<Rightarrow> jwtlet_config \<Rightarrow> 'w
       \<Rightarrow> (('w, 'db, 'kr, 'g) started, jwtlet_error) result \<times> 'w" where
  "run_backend it pf dr cfg w =
     (case jc_storage_backend cfg of
        Memory \<Rightarrow> bind_io (assemble_memory pf cfg w) (\<lambda>(rt, s) w1. (Ok (StartedMemory rt s), w1))
      | Postgres _ _ \<Rightarrow>
          bind_io (assemble_postgres it pf dr cfg w) (\<lambda>(rt, db) w1. (Ok (StartedPostgres rt db), w1)))"

definition run_jwtlet ::
    "hash_iter \<Rightarrow> ('w, 'c, 'vc, 'kr, 'g) platform \<Rightarrow> ('w, 'b, 'db, 'tx) pg_driver
       \<Rightarrow> (str \<Rightarrow> str option) \<Rightarrow> (str \<Rightarrow> bool) \<Rightarrow> (jwtlet_config, 'e) result \<Rightarrow> 'w
       \<Rightarrow> (('w, 'db, 'kr, 'g) started, 'e startup_error) result \<times> 'w" where
  "run_jwtlet it pf dr url_scheme path_exists loaded w =
     bind_io (map_err LoadFailed loaded, w) (\<lambda>cfg w1.
     bind_io (map_err InvalidConfig (validate url_scheme path_exists cfg), w1) (\<lambda>_ w2.
     map_err_io AssemblyFailed (run_backend it pf dr cfg w2)))"

text \<open>\<^verbatim>\<open>ManagementState\<close>, which \<^verbatim>\<open>run_server\<close> builds from the runtime.\<close>

definition management_state_of :: "('w, 's, 'kr, 'g) jwtlet_runtime \<Rightarrow> (k8s_verifier \<times> 'w, 's) management_state" where
  "management_state_of rt =
     \<lparr>ms_resource_service = rt_resource_service rt, ms_authorizer = rt_service_account_authorizer rt,
      ms_verifier = rt_management_verify rt, ms_client_audience = rt_management_client_audience rt\<rparr>"

subsection \<open>What assembly guarantees\<close>

text \<open>A verifier that is ready to use: initialised, from its configuration, for service accounts only.\<close>

definition verifier_ready :: "k8s_config \<Rightarrow> k8s_verifier \<Rightarrow> bool" where
  "verifier_ready kc kv \<longleftrightarrow>
     Some (kv_api_server_url kv) = kc_api_server_url kc \<and> Some (kv_cluster_issuer kv) = kc_cluster_issuer kc
     \<and> kv_token_file kv = kc_token_file kc \<and> kv_require_service_account kv
     \<and> kv_state kv \<noteq> None \<and> kv_renewal_handle kv"

lemma k8s_initialize_Ok:
  assumes "k8s_initialize env (kv, w) = (Ok u, (kv', w'))" "kv_state kv = None"
  shows "\<exists>raw w1. env_read env (kv_token_file kv) w = (Ok raw, w1)
      \<and> kv' = kv\<lparr>kv_state := Some (trim raw), kv_renewal_handle := True\<rparr>"
  using assms by (auto simp: k8s_initialize_def Let_def split: prod.splits result.splits)

lemma initialized_verifier_Ok:
  assumes "initialized_verifier env kv w = (Ok kv', w')" "kv_state kv = None"
  shows "\<exists>raw w1. env_read env (kv_token_file kv) w = (Ok raw, w1)
      \<and> kv' = kv\<lparr>kv_state := Some (trim raw), kv_renewal_handle := True\<rparr>"
  using assms k8s_initialize_Ok [of env kv w]
  by (cases "k8s_initialize env (kv, w)") (auto simp: initialized_verifier_def split: result.splits prod.splits)

lemma initialized_verifier_Err: "initialized_verifier env kv w = (Err e, w') \<Longrightarrow> \<exists>e'. e = Verifier e'"
  by (auto simp: initialized_verifier_def split: result.splits prod.splits)

lemma create_k8s_verifier_Ok:
  assumes "create_k8s_verifier pf kc w = (Ok kv, w')"
  shows "verifier_ready kc kv"
  using assms
  by (auto simp: create_k8s_verifier_def bind_io_Ok_iff ok_or_def verifier_ready_def
      split: option.splits dest!: initialized_verifier_Ok)

lemma assemble_Ok:
  assumes "assemble pf cfg store w = (Ok rt, w')"
  obtains vc kr w1 w2 aud daud iss kv mv where
    "create_vault_client pf (jc_vault cfg) (signing_key_name cfg) w = (Ok vc, w1)"
    "create_key_resolver pf vc w1 = (Ok kr, w2)"
    "rt = build_runtime pf cfg store vc kr aud daud iss kv mv"
    "tk_client_audience (jc_token cfg) = Some aud" "tk_audience (jc_token cfg) = Some daud"
    "jc_issuer cfg = Some iss" "verifier_ready (jc_k8s cfg) kv" "verifier_ready (jc_k8s cfg) mv"
  using assms
  by (auto simp: assemble_def bind_io_Ok_iff ok_or_def split: option.splits dest!: create_k8s_verifier_Ok)

text \<open>
  With a valid configuration no setting is found missing: an assembly fails only where the
  platform fails.
\<close>

definition platform_config_error :: "str \<Rightarrow> bool" where
  "platform_config_error msg \<longleftrightarrow>
     starts_with msg (lit ''Invalid cluster CA cert: '') \<or> starts_with msg (lit ''Failed to build HTTP client: '')"

definition platform_error :: "jwtlet_error \<Rightarrow> bool" where
  "platform_error e \<longleftrightarrow> (case e of Configuration msg \<Rightarrow> platform_config_error msg | _ \<Rightarrow> True)"

lemma bind_io_Err_iff:
  "bind_io rw f = (Err e, w') \<longleftrightarrow> rw = (Err e, w') \<or> (\<exists>a w. rw = (Ok a, w) \<and> f a w = (Err e, w'))"
  by (cases rw; cases "fst rw") auto

lemma map_err_io_Err_iff: "map_err_io f rw = (Err e, w) \<longleftrightarrow> (\<exists>e'. rw = (Err e', w) \<and> e = f e')"
  by (cases rw) (auto simp: map_err_io_def)

lemma starts_with_append [simp]: "starts_with (p @ s) p"
  by (simp add: starts_with_def)

lemma create_vault_client_Err:
  assumes "create_vault_client pf vc key w = (Err e, w')" "\<exists>u. vc_url vc = Some u"
    and "vc_token vc \<noteq> None \<or> vc_token_file vc \<noteq> None"
  shows "platform_error e"
  using assms
  by (auto simp: create_vault_client_def bind_io_Err_iff map_err_io_Err_iff platform_error_def
      split: option.splits)

lemma parse_cert_Err:
  "and_then (map_err (\<lambda>e. Configuration (lit ''Invalid cluster CA cert: '' @ e)) r) (\<lambda>cert. Ok [cert]) = Err e
     \<Longrightarrow> platform_error e"
  by (cases r) (auto simp: platform_error_def platform_config_error_def)

lemma add_cluster_ca_Err: "add_cluster_ca pf w = (Err e, w') \<Longrightarrow> platform_error e"
  by (auto simp: add_cluster_ca_def bind_io_Err_iff map_err_io_Err_iff split: if_splits intro: parse_cert_Err)
    (simp add: platform_error_def)

lemma create_k8s_verifier_Err:
  assumes "create_k8s_verifier pf kc w = (Err e, w')" "\<exists>u. kc_api_server_url kc = Some u"
    and "\<exists>u. kc_cluster_issuer kc = Some u"
  shows "platform_error e"
  using assms add_cluster_ca_Err [of pf w]
  by (auto simp: create_k8s_verifier_def bind_io_Err_iff dest!: initialized_verifier_Err)
    (auto simp: platform_error_def platform_config_error_def)

lemma assemble_Err:
  assumes "valid_config us pe cfg" "assemble pf cfg store w = (Err e, w')"
  shows "platform_error e"
proof -
  note v = valid_configD [OF assms(1)]
  have kr: "platform_error e" if "create_key_resolver pf vc w1 = (Err e, w2)" for vc w1 w2
    using that by (auto simp: create_key_resolver_def map_err_io_Err_iff platform_error_def)
  show ?thesis
    using assms(2) v(1,6,7) create_vault_client_Err [OF _ v(2,3)] kr
      create_k8s_verifier_Err [OF _ _ v(5)] v(4)
    by (auto simp: assemble_def bind_io_Err_iff Let_def)
qed

text \<open>The roles the authorizer knows are those of the configuration.\<close>

lemma map_of_rev_distinct: "distinct (map fst m) \<Longrightarrow> map_of (rev m) = map_of m"
  by (rule map_of_eqI) (auto simp: rev_map [symmetric])

lemma map_of_configured:
  assumes "hash_map_ok accounts"
  shows "map_of (configured_accounts accounts) c = map_option fset_of_list (map_of accounts c)"
proof -
  let ?kv = "map (\<lambda>(i, roles). (i, fset_of_list roles)) accounts"
  have "distinct (map fst ?kv)"
    using assms by (simp add: hash_map_ok_def split_def comp_def)
  then have "map_of (configured_accounts accounts) c = map_of ?kv c"
    by (simp add: configured_accounts_def map_of_from_accounts map_of_rev_distinct split_def comp_def)
  also have "\<dots> = map_option fset_of_list (map_of accounts c)"
    by (induction accounts) auto
  finally show ?thesis .
qed

lemma account_holds_configured:
  assumes "hash_map_ok accounts"
  shows "account_holds (configured_accounts accounts) c r \<longleftrightarrow> (\<exists>roles. map_of accounts c = Some roles \<and> r \<in> set roles)"
  by (auto simp: account_holds_def map_of_configured [OF assms] fset_of_list_elem)

lemma build_runtime_simps [simp]:
  "rt_token_service (build_runtime pf cfg store vc kr aud daud iss kv mv) = build_token_service pf cfg store vc aud daud iss"
  "rt_exchange_verifier (build_runtime pf cfg store vc kr aud daud iss kv mv) = kv"
  "rt_management_verifier (build_runtime pf cfg store vc kr aud daud iss kv mv) = mv"
  "rt_metadata (build_runtime pf cfg store vc kr aud daud iss kv mv) = new_metadata iss"
  "ms_resource_service (management_state_of (build_runtime pf cfg store vc kr aud daud iss kv mv)) = store"
  "ms_authorizer (management_state_of (build_runtime pf cfg store vc kr aud daud iss kv mv))
     = mem_authorize (configured_accounts (jc_service_accounts cfg))"
  "ms_verifier (management_state_of (build_runtime pf cfg store vc kr aud daud iss kv mv)) = k8s_verify_token (pf_k8s pf)"
  "ms_client_audience (management_state_of (build_runtime pf cfg store vc kr aud daud iss kv mv))
     = management_audience cfg aud"
  by (simp_all add: build_runtime_def management_state_of_def build_service_account_authorizer_def)

lemma build_token_service_simps [simp]:
  "te_client_audience (build_token_service pf cfg store vc aud daud iss) = aud"
  "te_audience (build_token_service pf cfg store vc aud daud iss) = daud"
  "te_issuer (build_token_service pf cfg store vc aud daud iss) = iss"
  "te_token_ttl_secs (build_token_service pf cfg store vc aud daud iss) = tk_token_ttl_secs (jc_token cfg)"
  "te_verifier (build_token_service pf cfg store vc aud daud iss) = k8s_verify_token (pf_k8s pf)"
  "te_resource_service (build_token_service pf cfg store vc aud daud iss) = store"
  by (simp_all add: build_token_service_def)

subsection \<open>The Postgres options\<close>

lemma parse_ssl_mode_Ok_iff: "is_ok (parse_ssl_mode mode) \<longleftrightarrow> mode \<in> set VALID_SSL_MODES"
  by (auto simp: parse_ssl_mode_def VALID_SSL_MODES_def)

lemma build_connect_options_valid:
  assumes "valid_config us pe cfg" "jc_storage_backend cfg = Postgres url pool" "dr_parse_url dr url = Ok base"
  shows "\<exists>ssl. build_connect_options dr url pool
      = Ok \<lparr>co_url = base, co_application_name = pp_application_name pool, co_ssl_mode = ssl,
            co_ssl_root_cert = pp_ssl_root_cert pool, co_statement_cache_capacity = pp_statement_cache_capacity pool\<rparr>
    \<and> (pp_sslmode pool = None \<longleftrightarrow> ssl = None)"
proof (cases "pp_sslmode pool")
  case None
  with assms(3) show ?thesis by (simp add: build_connect_options_def)
next
  case (Some mode)
  then have "is_ok (parse_ssl_mode mode)"
    using valid_config_storage(2) [OF assms(1,2) Some] by (simp add: parse_ssl_mode_Ok_iff)
  then obtain parsed where "parse_ssl_mode mode = Ok parsed" by (auto simp: is_ok_iff)
  with assms(3) Some show ?thesis by (simp add: build_connect_options_def)
qed

lemma run_jwtlet_Ok:
  assumes "run_jwtlet it pf dr us pe loaded w = (Ok st, w')"
  obtains cfg where "loaded = Ok cfg" "valid_config us pe cfg" "run_backend it pf dr cfg w = (Ok st, w')"
  using assms
  by (auto simp: run_jwtlet_def bind_io_Ok_iff map_err_io_Ok_iff validate_Ok_iff)

end
