(* ===== verification/Api_Server.thy ===== *)
theory Api_Server
  imports Exchange_Api Server_Assembly "HOL-Library.Multiset"
begin

section \<open>The two servers\<close>

text \<open>
  \<^verbatim>\<open>crates/jwtlet-server/src/server/mod.rs\<close>: the routes of the exchange server and
  of the management server, both over the assembled runtime, and the life cycle of
  \<^verbatim>\<open>run_server\<close>. A server state holds the two verifiers, the world they share and the
  store. The JWK set is what the key resolver of the JWT crate provides.
\<close>

subsection \<open>The exchange server\<close>

record exchange_http_request =
  xr_method :: http_method
  xr_path :: "str list"
  xr_form :: "(token_exchange_form, nat) result"

datatype api_body = EmptyBody | PlainText str | JsonDoc json

record api_response =
  ar_status :: nat
  ar_body :: api_body

record ('w, 's) server_state =
  sv_exchange_verifier :: k8s_verifier
  sv_management_verifier :: k8s_verifier
  sv_world :: 'w
  sv_store :: 's

definition health :: str where
  "health = lit ''OK''"

definition metadata_json :: "authorization_server_metadata \<Rightarrow> json" where
  "metadata_json md = json_object
     [(lit ''issuer'', JString (am_issuer md)),
      (lit ''token_endpoint'', JString (am_token_endpoint md)),
      (lit ''jwks_uri'', JString (am_jwks_uri md)),
      (lit ''grant_types_supported'', JArray (map JString (am_grant_types_supported md))),
      (lit ''token_endpoint_auth_methods_supported'',
         JArray (map JString (am_token_endpoint_auth_methods_supported md)))]"

datatype exchange_route = Health | Token | Jwks | Metadata

definition exchange_routes :: "str list \<Rightarrow> exchange_route option" where
  "exchange_routes path =
     (if path = [lit ''health''] then Some Health
      else if path = [lit ''token''] then Some Token
      else if path = [lit ''.well-known'', lit ''jwks.json''] then Some Jwks
      else if path = [lit ''.well-known'', lit ''oauth-authorization-server''] then Some Metadata
      else None)"

definition route_methods :: "exchange_route \<Rightarrow> http_method list" where
  "route_methods r = (case r of Token \<Rightarrow> [POST] | _ \<Rightarrow> [GET, HEAD])"

definition serve_token ::
    "('w, 's, 'kr, 'g) jwtlet_runtime \<Rightarrow> i64 \<Rightarrow> str \<Rightarrow> token_exchange_form \<Rightarrow> ('w, 's) server_state
       \<Rightarrow> (nat \<times> json) \<times> ('w, 's) server_state" where
  "serve_token rt now jti form st =
     (case post_token (rt_token_service rt) now jti form ((sv_exchange_verifier st, sv_world st), sv_store st) of
        (out, ((kv, w), s)) \<Rightarrow> (out, st\<lparr>sv_exchange_verifier := kv, sv_world := w, sv_store := s\<rparr>))"

definition serve_exchange ::
    "('w, 's, 'kr, 'g) jwtlet_runtime \<Rightarrow> ('kr \<Rightarrow> json) \<Rightarrow> i64 \<Rightarrow> str \<Rightarrow> exchange_http_request
       \<Rightarrow> ('w, 's) server_state \<Rightarrow> api_response \<times> ('w, 's) server_state" where
  "serve_exchange rt jwk_set now jti req st =
     (case exchange_routes (xr_path req) of
        None \<Rightarrow> (\<lparr>ar_status = 404, ar_body = EmptyBody\<rparr>, st)
      | Some r \<Rightarrow>
          (if xr_method req \<notin> set (route_methods r) then (\<lparr>ar_status = 405, ar_body = EmptyBody\<rparr>, st)
           else
             (case r of
                Health \<Rightarrow> (\<lparr>ar_status = 200, ar_body = PlainText health\<rparr>, st)
              | Jwks \<Rightarrow> (\<lparr>ar_status = 200, ar_body = JsonDoc (jwk_set (rt_key_resolver rt))\<rparr>, st)
              | Metadata \<Rightarrow> (\<lparr>ar_status = 200, ar_body = JsonDoc (metadata_json (rt_metadata rt))\<rparr>, st)
              | Token \<Rightarrow>
                  (case xr_form req of
                     Err code \<Rightarrow> (\<lparr>ar_status = code, ar_body = EmptyBody\<rparr>, st)
                   | Ok form \<Rightarrow>
                       (case serve_token rt now jti form st of
                          ((status, body), st') \<Rightarrow> (\<lparr>ar_status = status, ar_body = JsonDoc body\<rparr>, st'))))))"

subsection \<open>The management server\<close>

definition serve_management ::
    "hash_iter \<Rightarrow> (mgmt_request \<Rightarrow> k8s_verifier \<times> 'w \<Rightarrow> nat \<times> (k8s_verifier \<times> 'w))
       \<Rightarrow> ('w, 's, 'kr, 'g) jwtlet_runtime \<Rightarrow> mgmt_request \<Rightarrow> ('w, 's) server_state
       \<Rightarrow> (mgmt_response \<times> audit_event list) \<times> ('w, 's) server_state" where
  "serve_management it fb rt req st =
     (case mr_path req of
        [a] \<Rightarrow>
          (if a = lit ''health''
           then (if mr_method req = GET \<or> mr_method req = HEAD
                 then ((\<lparr>rs_status = 200, rs_body = TextBody health\<rparr>, []), st)
                 else ((status_only 405, []), st))
           else ((status_only 404, []), st))
      | a # b # path \<Rightarrow>
          (if a = lit ''api'' \<and> b = lit ''v1''
           then
             (case handle_management it fb (management_state_of rt) (req\<lparr>mr_path := path\<rparr>)
                     ((sv_management_verifier st, sv_world st), sv_store st) of
                (out, ((kv, w), s)) \<Rightarrow>
                  (out, st\<lparr>sv_management_verifier := kv, sv_world := w, sv_store := s\<rparr>))
           else ((status_only 404, []), st))
      | [] \<Rightarrow> ((status_only 404, []), st))"

subsection \<open>The life cycle of the process\<close>

text \<open>
  \<^verbatim>\<open>run_server\<close>: two spawned tasks, a cancellation token, a select between the
  shutdown signal and the first task that ends, and a loop that joins what is left. A task
  (\<^verbatim>\<open>run_token_exchange_api\<close>, \<^verbatim>\<open>run_management_api\<close>) binds its listener, serves
  until the token is cancelled, and has then ended with its outcome until it is joined; it
  ends early when it cannot bind, when the server fails or when it panics. What is logged is
  kept in order; an entry also names its task, which the log line does not.
\<close>

datatype server_task = ExchangeTask | ManagementTask

datatype server_error = Io str

fun show_server_error :: "server_error \<Rightarrow> str" where
  "show_server_error (Io e) = lit ''IO error: '' @ e"

datatype task_result = TaskOk | TaskFailed server_error | TaskPanicked str

datatype log_entry =
    Listening server_task
  | CtrlCError str
  | ReceivedShutdownSignal
  | TaskCompleted server_task
  | TaskError server_task str
  | TaskPanic server_task str

fun handle_task_result :: "server_task \<times> task_result \<Rightarrow> log_entry" where
  "handle_task_result (t, TaskOk) = TaskCompleted t"
| "handle_task_result (t, TaskFailed e) = TaskError t (show_server_error e)"
| "handle_task_result (t, TaskPanicked e) = TaskPanic t e"

text \<open>
  \<^verbatim>\<open>wait_for_shutdown\<close> returns on an interrupt and, where the handler for it could be
  installed, on a termination signal; it returns with an error line when the interrupt cannot
  be awaited. Elsewhere than on Unix there is no termination signal.
\<close>

datatype signal_event = CtrlC "(unit, str) result" | SigTerm

fun wait_for_shutdown :: "bool \<Rightarrow> signal_event \<Rightarrow> log_entry list option" where
  "wait_for_shutdown sigterm_installed (CtrlC (Ok _)) = Some []"
| "wait_for_shutdown sigterm_installed (CtrlC (Err e)) = Some [CtrlCError e]"
| "wait_for_shutdown sigterm_installed SigTerm = (if sigterm_installed then Some [] else None)"

datatype run_phase = Selecting | Draining | Returned

record run_state =
  run_phase :: run_phase
  run_cancelled :: bool
  run_binding :: "server_task list"
  run_serving :: "server_task list"
  run_ended :: "(server_task \<times> task_result) list"
  run_log :: "log_entry list"

definition run_start :: run_state where
  "run_start = \<lparr>run_phase = Selecting, run_cancelled = False,
     run_binding = [ExchangeTask, ManagementTask], run_serving = [], run_ended = [], run_log = []\<rparr>"

inductive run_step :: "run_state \<Rightarrow> run_state \<Rightarrow> bool" where
  bound: "t \<in> set (run_binding r) \<Longrightarrow>
    run_step r (r\<lparr>run_binding := remove1 t (run_binding r), run_serving := t # run_serving r,
                  run_log := run_log r @ [Listening t]\<rparr>)"
| bind_failed: "t \<in> set (run_binding r) \<Longrightarrow> res \<noteq> TaskOk \<Longrightarrow>
    run_step r (r\<lparr>run_binding := remove1 t (run_binding r), run_ended := run_ended r @ [(t, res)]\<rparr>)"
| serve_failed: "t \<in> set (run_serving r) \<Longrightarrow> res \<noteq> TaskOk \<Longrightarrow>
    run_step r (r\<lparr>run_serving := remove1 t (run_serving r), run_ended := run_ended r @ [(t, res)]\<rparr>)"
| served: "t \<in> set (run_serving r) \<Longrightarrow> run_cancelled r \<Longrightarrow>
    run_step r (r\<lparr>run_serving := remove1 t (run_serving r), run_ended := run_ended r @ [(t, TaskOk)]\<rparr>)"
| shutdown_signal: "run_phase r = Selecting \<Longrightarrow> wait_for_shutdown sigterm_installed signal = Some lines \<Longrightarrow>
    run_step r (r\<lparr>run_phase := Draining, run_cancelled := True, run_log := run_log r @ lines @ [ReceivedShutdownSignal]\<rparr>)"
| first_joined: "run_phase r = Selecting \<Longrightarrow> x \<in> set (run_ended r) \<Longrightarrow>
    run_step r (r\<lparr>run_phase := Draining, run_cancelled := True, run_ended := remove1 x (run_ended r),
                  run_log := run_log r @ [handle_task_result x]\<rparr>)"
| next_joined: "run_phase r = Draining \<Longrightarrow> x \<in> set (run_ended r) \<Longrightarrow>
    run_step r (r\<lparr>run_ended := remove1 x (run_ended r), run_log := run_log r @ [handle_task_result x]\<rparr>)"
| all_joined: "run_phase r = Draining \<Longrightarrow> run_binding r = [] \<Longrightarrow> run_serving r = [] \<Longrightarrow> run_ended r = [] \<Longrightarrow>
    run_step r (r\<lparr>run_phase := Returned\<rparr>)"

inductive_cases run_stepE: "run_step r r'"

inductive run_reach :: "run_state \<Rightarrow> bool" where
  reach_start: "run_reach run_start"
| reach_step: "run_reach r \<Longrightarrow> run_step r r' \<Longrightarrow> run_reach r'"

text \<open>The value of \<^verbatim>\<open>run_server\<close> once it has returned.\<close>

definition run_server_result :: "run_state \<Rightarrow> (unit, server_error) result option" where
  "run_server_result r = (if run_phase r = Returned then Some (Ok ()) else None)"

text \<open>The tasks whose results have been logged, and the lines that tell why the servers stop.\<close>

fun logged_task :: "log_entry \<Rightarrow> server_task list" where
  "logged_task (TaskCompleted t) = [t]"
| "logged_task (TaskError t _) = [t]"
| "logged_task (TaskPanic t _) = [t]"
| "logged_task _ = []"

fun stop_reason :: "log_entry \<Rightarrow> bool" where
  "stop_reason ReceivedShutdownSignal = True"
| "stop_reason (TaskError _ _) = True"
| "stop_reason (TaskPanic _ _) = True"
| "stop_reason _ = False"

abbreviation joined_tasks :: "run_state \<Rightarrow> server_task list" where
  "joined_tasks r \<equiv> concat (map logged_task (run_log r))"

lemma logged_task_result [simp]: "logged_task (handle_task_result x) = [fst x]"
  by (cases x rule: handle_task_result.cases) simp_all

lemma stop_reason_result [simp]: "stop_reason (handle_task_result x) \<longleftrightarrow> snd x \<noteq> TaskOk"
  by (cases x rule: handle_task_result.cases) simp_all

lemma wait_for_shutdown_lines [simp]:
  "wait_for_shutdown b signal = Some lines \<Longrightarrow> concat (map logged_task lines) = []"
  by (cases "(b, signal)" rule: wait_for_shutdown.cases) (auto split: if_splits)

text \<open>
  Each task is binding, serving, has ended or has been joined, and exactly one of these; the
  servers are cancelled for a logged reason.
\<close>

definition run_invariant :: "run_state \<Rightarrow> bool" where
  "run_invariant r \<longleftrightarrow>
     (run_cancelled r \<longleftrightarrow> run_phase r \<noteq> Selecting)
     \<and> (run_phase r = Selecting \<longrightarrow> (\<forall>x\<in>set (run_ended r). snd x \<noteq> TaskOk))
     \<and> (run_phase r \<noteq> Selecting \<longrightarrow> (\<exists>l\<in>set (run_log r). stop_reason l))
     \<and> (run_phase r = Returned \<longrightarrow> run_binding r = [] \<and> run_serving r = [] \<and> run_ended r = [])
     \<and> mset (run_binding r) + mset (run_serving r) + mset (map fst (run_ended r)) + mset (joined_tasks r)
         = {#ExchangeTask, ManagementTask#}"

lemma mset_map_remove1: "x \<in> set xs \<Longrightarrow> mset (map f xs) = add_mset (f x) (mset (map f (remove1 x xs)))"
  by (induction xs) auto

lemma run_invariant_join:
  assumes "run_invariant r" "x \<in> set (run_ended r)" "run_phase r \<noteq> Returned"
  shows "run_invariant (r\<lparr>run_phase := Draining, run_cancelled := True, run_ended := remove1 x (run_ended r),
    run_log := run_log r @ [handle_task_result x]\<rparr>)"
  using assms mset_map_remove1 [of x "run_ended r" fst] by (auto simp: run_invariant_def simp del: mset_map)

lemma run_invariant_step: "run_step r r' \<Longrightarrow> run_invariant r \<Longrightarrow> run_invariant r'"
proof (erule run_stepE)
  fix x
  assume "run_invariant r" "run_phase r = Draining" "x \<in> set (run_ended r)"
    and r': "r' = r\<lparr>run_ended := remove1 x (run_ended r), run_log := run_log r @ [handle_task_result x]\<rparr>"
  moreover from this have "r' = r\<lparr>run_phase := Draining, run_cancelled := True, run_ended := remove1 x (run_ended r),
      run_log := run_log r @ [handle_task_result x]\<rparr>"
    by (simp add: run_invariant_def)
  ultimately show "run_invariant r'" using run_invariant_join [of r x] by simp
qed (use run_invariant_join [of r] wait_for_shutdown_lines in \<open>auto simp: run_invariant_def simp del: concat_eq_Nil_conv\<close>)

lemma run_reach_invariant: "run_reach r \<Longrightarrow> run_invariant r"
proof (induction rule: run_reach.induct)
  case reach_start
  show ?case by (simp add: run_start_def run_invariant_def)
qed (rule run_invariant_step)

text \<open>Every step makes progress towards the return, and until then some step is possible.\<close>

definition run_measure :: "run_state \<Rightarrow> nat" where
  "run_measure r =
     3 * length (run_binding r) + 2 * length (run_serving r) + length (run_ended r)
     + (case run_phase r of Selecting \<Rightarrow> 2 | Draining \<Rightarrow> 1 | Returned \<Rightarrow> 0)"

lemma length_remove1_Suc: "t \<in> set xs \<Longrightarrow> length xs = Suc (length (remove1 t xs))"
  using length_pos_if_in_set [of t xs] by (simp add: length_remove1)

lemma run_step_decreases: "run_step r r' \<Longrightarrow> run_measure r' < run_measure r"
  by (erule run_stepE)
    (auto simp: run_measure_def length_remove1_Suc [of _ "run_binding r"] length_remove1_Suc [of _ "run_serving r"]
      length_remove1_Suc [of _ "run_ended r"] simp del: length_remove1)

lemma run_progress: "run_invariant r \<Longrightarrow> run_phase r \<noteq> Returned \<Longrightarrow> \<exists>r'. run_step r r'"
proof (cases "run_phase r")
  case Draining
  assume "run_invariant r"
  with Draining have "run_cancelled r" by (simp add: run_invariant_def)
  consider "run_binding r = []" "run_serving r = []" "run_ended r = []" | t where "t \<in> set (run_binding r)"
    | t where "t \<in> set (run_serving r)" | x where "x \<in> set (run_ended r)"
    by (metis list.set_intros(1) neq_Nil_conv)
  then show ?thesis
    by cases (use Draining \<open>run_cancelled r\<close> in \<open>blast intro: run_step.intros\<close>)+
next
  case Selecting
  then show ?thesis using shutdown_signal [of r True SigTerm] by auto
qed simp

lemma run_length: "(run_step ^^ n) r r' \<Longrightarrow> n + run_measure r' \<le> run_measure r"
proof (induction n arbitrary: r')
  case (Suc n)
  then obtain r1 where "(run_step ^^ n) r r1" "run_step r1 r'" by auto
  with Suc.IH [of r1] run_step_decreases [of r1 r'] show ?case by simp
qed simp

lemma run_steps_reach: "(run_step ^^ n) run_start r \<Longrightarrow> run_reach r"
  by (induction n arbitrary: r) (auto intro: run_reach.intros)

end
