(* ===== verification/Request_Phases.thy ===== *)
theory Request_Phases
  imports Api_Server
begin

section \<open>Requests in phases\<close>

text \<open>
  The handlers are asynchronous: at every \<^verbatim>\<open>await\<close> another request may run. The phases
  of a request are what lies between: an exchange checks its form, awaits the verifier,
  awaits the store, awaits the generator and answers; a management request awaits the
  verifier and then, once admitted, its handler's single operation on the store. Run back to
  back the phases are the handlers of \<open>Exchange_Api\<close> and \<open>Management_Api\<close>.

  A store may itself await in the middle of an operation. The memory store does not; the
  lookup of the Postgres store does, between its two statements, which cuts the second phase
  of an exchange in two. Its transactions are single steps, as the database isolates them.
\<close>

subsection \<open>An exchange\<close>

definition exchange_begin :: "token_exchange_form \<Rightarrow> (unit, 'g exchange_api_error) result" where
  "exchange_begin form =
     (if ef_grant_type form \<noteq> TOKEN_EXCHANGE_GRANT_TYPE then Err (UnsupportedGrantType (ef_grant_type form))
      else if ef_subject_token_type form \<noteq> ISSUED_TOKEN_TYPE
      then Err (UnsupportedTokenType (ef_subject_token_type form))
      else Ok ())"

definition exchange_verify ::
    "('v, 's, 'g) token_exchange_service \<Rightarrow> token_exchange_form \<Rightarrow> 'v
       \<Rightarrow> (token_claims, 'g exchange_api_error) result \<times> 'v" where
  "exchange_verify svc form v =
     map_err_io (\<lambda>e. ExchangeFailed (TokenVerification e))
       (te_verifier svc (te_client_audience svc) (ef_subject_token form) v)"

text \<open>The error of the resource service as the error of the exchange.\<close>

fun exchange_error_of :: "resource_error \<Rightarrow> 'g exchange_error" where
  "exchange_error_of (ClaimConflict msg) = ScopeConflict msg"
| "exchange_error_of e = ServiceError e"

definition exchange_resolve ::
    "('v, 's, 'g) token_exchange_service \<Rightarrow> token_exchange_form \<Rightarrow> token_claims \<Rightarrow> 's
       \<Rightarrow> (verification_result \<times> str, 'g exchange_api_error) result \<times> 's" where
  "exchange_resolve svc form client s =
     bind_io
       (map_err_io (\<lambda>e. ExchangeFailed (exchange_error_of e))
          (svc_verify (te_resource_service svc) (tc_sub client) (ef_resource form) (requested_scopes form) s))
       (\<lambda>vr s'.
          (map_err ExchangeFailed
             (if \<not> vr_verified vr then Err Unauthorized
              else and_then (resolve_audience (ef_audience form) (vr_audiences vr) (te_audience svc))
                     (\<lambda>aud. Ok (vr, aud))), s'))"

definition exchange_sign ::
    "('v, 's, 'g) token_exchange_service \<Rightarrow> i64 \<Rightarrow> str \<Rightarrow> token_exchange_form \<Rightarrow> token_claims
       \<Rightarrow> verification_result \<times> str \<Rightarrow> (nat \<times> token_exchange_response, 'g exchange_api_error) result" where
  "exchange_sign svc now jti form client va =
     and_then
       (map_err (\<lambda>e. ExchangeFailed (Generation e))
          (te_generator svc (te_jwtlet_participant_context svc)
             (participant_claims svc now (ef_resource form) (snd va)
                (token_custom (vr_claims (fst va)) client jti))))
       (\<lambda>token. Ok (200,
          \<lparr>er_access_token = token, er_issued_token_type = ISSUED_TOKEN_TYPE, er_token_type = lit ''Bearer'',
           er_expires_in = te_token_ttl_secs svc, er_scope = granted_scope (requested_scopes form)\<rparr>))"

definition exchange_answer :: "(nat \<times> token_exchange_response, 'g exchange_api_error) result \<Rightarrow> nat \<times> json" where
  "exchange_answer r =
     (case r of Ok (status, resp) \<Rightarrow> (status, exchange_response_body resp) | Err e \<Rightarrow> exchange_error_response e)"

definition exchange_in_phases ::
    "('v, 's, 'g) token_exchange_service \<Rightarrow> i64 \<Rightarrow> str \<Rightarrow> token_exchange_form \<Rightarrow> 'v \<times> 's
       \<Rightarrow> (nat \<times> token_exchange_response, 'g exchange_api_error) result \<times> ('v \<times> 's)" where
  "exchange_in_phases svc now jti form vs =
     (case exchange_begin form of
        Err e \<Rightarrow> (Err e, vs)
      | Ok _ \<Rightarrow>
          (case exchange_verify svc form (fst vs) of
             (Err e, v') \<Rightarrow> (Err e, (v', snd vs))
           | (Ok client, v') \<Rightarrow>
               (case exchange_resolve svc form client (snd vs) of
                  (Err e, s') \<Rightarrow> (Err e, (v', s'))
                | (Ok va, s') \<Rightarrow> (exchange_sign svc now jti form client va, (v', s')))))"

lemma exchange_in_phases_eq: "exchange_in_phases svc now jti form vs = token_exchange svc now jti form vs"
proof -
  obtain rv v1 where ver: "te_verifier svc (te_client_audience svc) (ef_subject_token form) (fst vs) = (rv, v1)"
    by (rule prod.exhaust)
  have step: "(case exchange_resolve svc form client s of
        (Err e, s') \<Rightarrow> (Err e, (v1, s')) | (Ok va, s') \<Rightarrow> (exchange_sign svc now jti form client va, (v1, s')))
      = (case exchange_token svc now jti (ef_resource form) (requested_scopes form) (ef_subject_token form)
             (ef_audience form) vs of
          (r, vs') \<Rightarrow> (and_then (map_err ExchangeFailed r) (\<lambda>token.
             Ok (200, \<lparr>er_access_token = token, er_issued_token_type = ISSUED_TOKEN_TYPE,
                er_token_type = lit ''Bearer'', er_expires_in = te_token_ttl_secs svc,
                er_scope = granted_scope (requested_scopes form)\<rparr>)), vs'))"
    if "rv = Ok client" "s = snd vs" for client s
  proof -
    obtain rs s1 where sv: "svc_verify (te_resource_service svc) (tc_sub client) (ef_resource form)
        (requested_scopes form) (snd vs) = (rs, s1)"
      by (rule prod.exhaust)
    show ?thesis
    proof (cases rs)
      case (Ok vr)
      with that ver sv show ?thesis
        by (auto simp: exchange_resolve_def exchange_token_def exchange_sign_def and_then_def map_err_def split: result.split)
    next
      case (Err e)
      with that ver sv show ?thesis
        by (cases e) (auto simp: exchange_resolve_def exchange_token_def)
    qed
  qed
  show ?thesis
  proof (cases rv)
    case (Ok client)
    with ver step [OF Ok refl] show ?thesis
      by (auto simp: exchange_in_phases_def exchange_begin_def exchange_verify_def token_exchange_def Let_def)
  next
    case (Err e)
    with ver show ?thesis
      by (auto simp: exchange_in_phases_def exchange_begin_def exchange_verify_def token_exchange_def
          exchange_token_def Let_def)
  qed
qed

subsection \<open>A lookup in two steps\<close>

record 's resolve_steps =
  rs_lookup :: "str \<Rightarrow> str \<Rightarrow> 's \<Rightarrow> (resource_mapping option, resource_error) result \<times> 's"
  rs_expand :: "resource_mapping \<Rightarrow> 's \<Rightarrow> (mapping_pair, resource_error) result \<times> 's"

definition pg_steps :: "hash_iter \<Rightarrow> ('db, 'tx) pg_pool \<Rightarrow> 'db resolve_steps" where
  "pg_steps it pg = \<lparr>rs_lookup = pg_lookup_mapping pg, rs_expand = pg_lookup_scopes it pg\<rparr>"

lemma pg_steps_sel [simp]:
  "rs_lookup (pg_steps it pg) = pg_lookup_mapping pg" "rs_expand (pg_steps it pg) = pg_lookup_scopes it pg"
  by (simp_all add: pg_steps_def)

definition exchange_lookup ::
    "'s resolve_steps \<Rightarrow> token_exchange_form \<Rightarrow> token_claims \<Rightarrow> 's
       \<Rightarrow> (resource_mapping, 'g exchange_api_error) result \<times> 's" where
  "exchange_lookup rs form client s =
     bind_io
       (map_err_io (\<lambda>e. ExchangeFailed (exchange_error_of e)) (rs_lookup rs (tc_sub client) (ef_resource form) s))
       (\<lambda>found s1. (case found of None \<Rightarrow> Err (ExchangeFailed Unauthorized) | Some m \<Rightarrow> Ok m, s1))"

text \<open>The rest of the phase is the phase with the second half of the lookup left to do.\<close>

definition exchange_expand ::
    "('v, 's, 'g) token_exchange_service \<Rightarrow> 's resolve_steps \<Rightarrow> token_exchange_form \<Rightarrow> token_claims
       \<Rightarrow> resource_mapping \<Rightarrow> 's \<Rightarrow> (verification_result \<times> str, 'g exchange_api_error) result \<times> 's" where
  "exchange_expand svc rs form client m =
     exchange_resolve
       (svc\<lparr>te_resource_service := (te_resource_service svc)\<lparr>st_resolve_mapping :=
          (\<lambda>_ _ s. bind_io (rs_expand rs m s) (\<lambda>pair s1. (Ok (Some pair), s1)))\<rparr>\<rparr>) form client"

lemma exchange_resolve_in_steps:
  fixes svc :: "('v, 'db, 'g) token_exchange_service"
  assumes "te_resource_service svc = postgres_store it pg"
  shows "exchange_resolve svc form client db =
    (case exchange_lookup (pg_steps it pg) form client db of
       (Err e, db1) \<Rightarrow> (Err e, db1)
     | (Ok m, db1) \<Rightarrow> exchange_expand svc (pg_steps it pg) form client m db1)"
proof -
  obtain r1 db1 where l: "pg_lookup_mapping pg (tc_sub client) (ef_resource form) db = (r1, db1)"
    by (rule prod.exhaust)
  show ?thesis
  proof (cases r1)
    case (Ok found)
    then show ?thesis
      using l assms
      by (cases found)
        (simp_all add: exchange_resolve_def exchange_lookup_def exchange_expand_def svc_verify_def pg_resolve_mapping_def
          unverified_def Let_def cong: if_cong)
  next
    case (Err e)
    with l assms show ?thesis
      by (simp add: exchange_resolve_def exchange_lookup_def svc_verify_def pg_resolve_mapping_def Let_def)
  qed
qed

text \<open>
  What the two steps promise: each reads the policy of its own moment. A store without steps
  promises nothing more than its contract.
\<close>

locale resolve_in_steps =
  fixes steps :: "'s resolve_steps option"
    and policy_of :: "'s \<Rightarrow> policy"
    and invar :: "'s \<Rightarrow> bool"
  assumes lookup_law: "steps = Some rs \<Longrightarrow> invar s \<Longrightarrow> rs_lookup rs c p s = (r1, s') \<Longrightarrow>
        invar s' \<and> policy_of s' = policy_of s
        \<and> (\<forall>m. r1 = Ok (Some m) \<longrightarrow> pol_mappings (policy_of s) (c, p) = Some m)"
    and expand_law: "steps = Some rs \<Longrightarrow> invar s \<Longrightarrow> rs_expand rs m s = (r2, s') \<Longrightarrow>
        invar s' \<and> policy_of s' = policy_of s
        \<and> (\<forall>pair. r2 = Ok pair \<longrightarrow>
             pair = \<lparr>mp_resource_mapping = m, mp_scope_mappings = pol_scopes (policy_of s) |` fset (rm_scopes m)\<rparr>)"
begin

lemma exchange_lookup_found:
  assumes "steps = Some rs" "invar s" "exchange_lookup rs form client s = (r, s')"
  shows "invar s'" "policy_of s' = policy_of s"
    and "r = Ok m \<Longrightarrow> pol_mappings (policy_of s) (tc_sub client, ef_resource form) = Some m"
proof -
  obtain r1 s1 where l: "rs_lookup rs (tc_sub client) (ef_resource form) s = (r1, s1)"
    by (rule prod.exhaust)
  note law = lookup_law [OF assms(1,2) l]
  from assms(3) l have "s' = s1" by (cases r1) (auto simp: exchange_lookup_def)
  with law show "invar s'" "policy_of s' = policy_of s" by simp_all
  show "pol_mappings (policy_of s) (tc_sub client, ef_resource form) = Some m" if "r = Ok m"
    using that assms(3) l law by (cases r1) (auto simp: exchange_lookup_def split: option.splits)
qed

text \<open>
  The claims of a lookup in two steps: the mapping as it was at the first, the scopes as they
  are at the second.
\<close>

lemma exchange_expand_issued:
  fixes svc :: "('v, 's, 'g) token_exchange_service"
  assumes "steps = Some rs" "invar s" "exchange_expand svc rs form client m s = (r, s')"
  shows "invar s'" "policy_of s' = policy_of s"
    and "r = Ok va \<Longrightarrow> pol_mappings pol (tc_sub client, ef_resource form) = Some m \<Longrightarrow>
      issued_claims svc \<lparr>pol_mappings = pol_mappings pol, pol_scopes = pol_scopes (policy_of s)\<rparr> now jti
        (ef_resource form) (requested_scopes form) (ef_audience form) client
        (participant_claims svc now (ef_resource form) (snd va) (token_custom (vr_claims (fst va)) client jti))"
proof -
  define ops where "ops = (te_resource_service svc)\<lparr>st_resolve_mapping :=
    (\<lambda>_ _ s. bind_io (rs_expand rs m s) (\<lambda>pair s1. (Ok (Some pair), s1)))\<rparr>"
  obtain r2 s2 where x: "rs_expand rs m s = (r2, s2)" by (rule prod.exhaust)
  obtain rv s1 where sv: "svc_verify ops (tc_sub client) (ef_resource form) (requested_scopes form) s = (rv, s1)"
    by (rule prod.exhaust)
  note law = expand_law [OF assms(1,2) x]
  have run: "exchange_resolve (svc\<lparr>te_resource_service := ops\<rparr>) form client s = (r, s')"
    using assms(3) by (simp add: exchange_expand_def ops_def)
  have "s' = s1" using run sv by (cases rv) (auto simp: exchange_resolve_def)
  moreover have "s1 = s2"
    using sv x by (cases r2) (auto simp: ops_def svc_verify_def Let_def split: if_splits)
  ultimately show "invar s'" "policy_of s' = policy_of s" using law by simp_all
  assume Ok: "r = Ok va" and m: "pol_mappings pol (tc_sub client, ef_resource form) = Some m"
  let ?pol = "\<lparr>pol_mappings = pol_mappings pol, pol_scopes = pol_scopes (policy_of s)\<rparr>"
  from run [unfolded Ok] sv obtain vr where vr: "rv = Ok vr" "vr_verified vr" and va: "fst va = vr"
      "resolve_audience (ef_audience form) (vr_audiences vr) (te_audience svc) = (Ok (snd va) :: (str, 'g exchange_error) result)"
    by (auto simp: exchange_resolve_def bind_io_Ok_iff map_err_io_Ok_iff and_then_Ok_iff split: if_splits)
  obtain pair where "r2 = Ok pair"
    using sv vr x by (cases r2) (auto simp: ops_def svc_verify_def Let_def)
  with law x m have "st_resolve_mapping ops (tc_sub client) (ef_resource form) s
      = (Ok (spec_resolve ?pol (tc_sub client) (ef_resource form)), s2)"
    by (simp add: ops_def spec_resolve_def)
  note met = svc_verify_resolved(2) [OF this sv, unfolded vr(1)]
  show "issued_claims svc ?pol now jti (ef_resource form) (requested_scopes form) (ef_audience form) client
      (participant_claims svc now (ef_resource form) (snd va) (token_custom (vr_claims (fst va)) client jti))"
    unfolding va(1) by (rule verify_meets_issued [OF met vr(2) va(2)])
qed

end

interpretation no_steps: resolve_in_steps None policy_of invar
  for policy_of :: "'s \<Rightarrow> policy" and invar
  by unfold_locales simp_all

sublocale sql_database \<subseteq> pg_in_steps: resolve_in_steps "Some (pg_steps it pg)" "\<lambda>db. pg_policy (tables db)" db_ok
proof
  fix rs db c p r1 db'
  assume "Some (pg_steps it pg) = Some rs" "db_ok db" "rs_lookup rs c p db = (r1, db')"
  then show "db_ok db' \<and> pg_policy (tables db') = pg_policy (tables db)
      \<and> (\<forall>m. r1 = Ok (Some m) \<longrightarrow> pol_mappings (pg_policy (tables db)) (c, p) = Some m)"
    using lookup_mapping_law [of db c p r1 db'] by (auto simp del: pg_policy_sel)
next
  fix rs db m r2 db'
  assume "Some (pg_steps it pg) = Some rs" "db_ok db" "rs_expand rs m db = (r2, db')"
  then show "db_ok db' \<and> pg_policy (tables db') = pg_policy (tables db)
      \<and> (\<forall>pair. r2 = Ok pair \<longrightarrow> pair = \<lparr>mp_resource_mapping = m,
           mp_scope_mappings = pol_scopes (pg_policy (tables db)) |` fset (rm_scopes m)\<rparr>)"
    using lookup_scopes_law [of db m r2 db'] by (auto simp del: pg_policy_sel)
qed

subsection \<open>A management request\<close>

text \<open>The middleware in front of a handler: the actor and the endpoint, or the status that stops the request.\<close>

definition management_admit ::
    "(mgmt_request \<Rightarrow> 'v \<Rightarrow> nat \<times> 'v) \<Rightarrow> ('v, 's) management_state \<Rightarrow> mgmt_request \<Rightarrow> 'v
       \<Rightarrow> (str \<times> endpoint, nat) result \<times> 'v" where
  "management_admit fb ms req v =
     (case management_routes (mr_method req) (mr_path req) of
        NoRoute \<Rightarrow> (Err 404, v)
      | MethodNotAllowed \<Rightarrow> (case fb req v of (st, v') \<Rightarrow> (Err st, v'))
      | Routed ep role \<Rightarrow>
          (case extract_bearer_token (mr_authorization req) of
             None \<Rightarrow> (Err 401, v)
           | Some token \<Rightarrow>
               (case ms_verifier ms (ms_client_audience ms) token v of
                  (Err _, v') \<Rightarrow> (Err 401, v')
                | (Ok cl, v') \<Rightarrow>
                    (case ms_authorizer ms (tc_sub cl) {|role|} of
                       Ok True \<Rightarrow> (Ok (tc_sub cl, ep), v')
                     | Ok False \<Rightarrow> (Err 403, v')
                     | Err (GeneralError _) \<Rightarrow> (Err 500, v')))))"

definition management_in_phases ::
    "hash_iter \<Rightarrow> (mgmt_request \<Rightarrow> 'v \<Rightarrow> nat \<times> 'v) \<Rightarrow> ('v, 's) management_state \<Rightarrow> mgmt_request \<Rightarrow> 'v \<times> 's
       \<Rightarrow> (mgmt_response \<times> audit_event list) \<times> ('v \<times> 's)" where
  "management_in_phases it fb ms req vs =
     (case management_admit fb ms req (fst vs) of
        (Err st, v') \<Rightarrow> ((status_only st, []), (v', snd vs))
      | (Ok (actor, ep), v') \<Rightarrow>
          (case run_endpoint it (ms_resource_service ms) req actor ep (snd vs) of (out, s') \<Rightarrow> (out, (v', s'))))"

lemma management_in_phases_eq: "management_in_phases it fb ms req vs = handle_management it fb ms req vs"
  by (auto simp: management_in_phases_def management_admit_def handle_management_def authorize_with_role_def
      split: routing.split option.split prod.split result.split bool.split auth_error.split)

lemma management_admit_Ok:
  assumes "management_admit fb ms req v = (Ok (actor, ep), v')"
  obtains tok cl where "management_routes (mr_method req) (mr_path req) = Routed ep (endpoint_role ep)"
    "extract_bearer_token (mr_authorization req) = Some tok"
    "ms_verifier ms (ms_client_audience ms) tok v = (Ok cl, v')"
    "ms_authorizer ms (tc_sub cl) {|endpoint_role ep|} = Ok True" "actor = tc_sub cl"
  using assms
  by (auto simp: management_admit_def dest: management_routes_role
      split: routing.splits option.splits prod.splits result.splits bool.splits auth_error.splits)

subsection \<open>What the phases guarantee\<close>

lemma access_token_body:
  "json_get (lit ''access_token'') (exchange_response_body r) = Some (JString (er_access_token r))"
  by (cases "er_scope r") (simp_all add: exchange_response_body_def json_object_def map_of_fold_insert del: fold.simps)

lemma exchange_answer_Ok:
  fixes svc :: "('v, 's, 'g) token_exchange_service"
  assumes "exchange_answer (exchange_sign svc now jti form client va) = (200, body)"
  obtains jwt where "json_get (lit ''access_token'') body = Some (JString jwt)"
    "te_generator svc (te_jwtlet_participant_context svc)
       (participant_claims svc now (ef_resource form) (snd va) (token_custom (vr_claims (fst va)) client jti)) = Ok jwt"
proof -
  have err: "fst (exchange_error_response e) \<noteq> 200" for e :: "'g exchange_api_error"
    using exchange_error_status_range [of e] by (auto simp: exchange_error_response_def split: prod.split)
  show thesis
    using assms err that
    by (cases "te_generator svc (te_jwtlet_participant_context svc)
         (participant_claims svc now (ef_resource form) (snd va) (token_custom (vr_claims (fst va)) client jti))")
      (auto simp: exchange_answer_def exchange_sign_def access_token_body prod_eq_iff)
qed

context exchange_setting begin

lemma exchange_verify_vouched:
  "exchange_verify svc form v = (Ok client, v') \<Longrightarrow> vouched v (te_client_audience svc) (ef_subject_token form) client"
  by (simp add: exchange_verify_def map_err_io_Ok_iff ver.accepted_vouched)

lemma exchange_resolve_state:
  assumes "invar s" "exchange_resolve svc form client s = (r, s')"
  shows "invar s'" "policy_of s' = policy_of s"
proof -
  obtain rv s1 where sv: "svc_verify (te_resource_service svc) (tc_sub client) (ef_resource form)
      (requested_scopes form) s = (rv, s1)"
    by (rule prod.exhaust)
  with assms(2) have "s' = s1"
    by (cases rv) (auto simp: exchange_resolve_def)
  with store.svc_verify_law(1,2) [OF assms(1) sv] show "invar s'" "policy_of s' = policy_of s" by simp_all
qed

lemma exchange_resolve_issued:
  assumes "invar s" "exchange_resolve svc form client s = (Ok va, s')"
  shows "issued_claims svc (policy_of s) now jti (ef_resource form) (requested_scopes form) (ef_audience form) client
    (participant_claims svc now (ef_resource form) (snd va) (token_custom (vr_claims (fst va)) client jti))"
proof -
  from assms(2) obtain vr s1 where sv: "svc_verify (te_resource_service svc) (tc_sub client) (ef_resource form)
        (requested_scopes form) s = (Ok vr, s1)" "vr_verified vr"
      and va: "fst va = vr"
        "resolve_audience (ef_audience form) (vr_audiences vr) (te_audience svc) = (Ok (snd va) :: (str, 'g exchange_error) result)"
    by (auto simp: exchange_resolve_def bind_io_Ok_iff map_err_io_Ok_iff and_then_Ok_iff split: if_splits)
  from verify_meets_issued [OF store.svc_verify_law(3) [OF assms(1) sv(1)] sv(2) va(2)] show ?thesis
    unfolding va(1) .
qed

end

context management_setting begin

lemma management_admit_role:
  assumes "management_admit fb ms req v = (Ok (actor, ep), v')"
  shows "caller_has_role vouched holds ms req v actor (endpoint_role ep)"
  using assms by (rule management_admit_Ok) (use reached_role in blast)

text \<open>The handler of an endpoint: what it keeps, and where a new entry comes from.\<close>

lemma run_endpoint_invariant:
  assumes "invar s" "run_endpoint it (ms_resource_service ms) req actor ep s = (out, s')"
  shows "invar s'" and "valid_iter it \<Longrightarrow> policy_valid (policy_of s) \<Longrightarrow> policy_valid (policy_of s')"
    and "endpoint_write keep it req ep = None \<Longrightarrow> policy_of s' = policy_of s"
    and "endpoint_write keep it req ep = Some w \<Longrightarrow> \<exists>r. write_meets w (policy_of s) (policy_of s') r"
proof -
  have read: "invar s' \<and> policy_of s' = policy_of s" if "endpoint_write keep it req ep = None"
    using store.run_endpoint_read [OF assms(1) that, of actor "fst out" "snd out" s'] assms(2) by simp
  have wrote: "invar s' \<and> (\<exists>r. write_meets w (policy_of s) (policy_of s') r)"
    if ew: "endpoint_write keep it req ep = Some w" for w
  proof -
    obtain r s1 where "run_endpoint it (ms_resource_service ms) req actor ep s
          = finish (r, s1) (success_status ep) (success_events actor req ep)"
        "invar s1" "write_meets w (policy_of s) (policy_of s1) r"
      by (rule store.run_endpoint_write [OF assms(1) ew, of actor]) blast
    moreover from this(1) assms(2) have "s' = s1" by (metis finish_simps(1) snd_conv)
    ultimately show ?thesis by blast
  qed
  show "invar s'" using read wrote by (cases "endpoint_write keep it req ep") auto
  show "endpoint_write keep it req ep = None \<Longrightarrow> policy_of s' = policy_of s" using read by blast
  show "endpoint_write keep it req ep = Some w \<Longrightarrow> \<exists>r. write_meets w (policy_of s) (policy_of s') r"
    using wrote by blast
  show "policy_valid (policy_of s')" if "valid_iter it" "policy_valid (policy_of s)"
  proof (cases "endpoint_write keep it req ep")
    case None
    with read that show ?thesis by simp
  next
    case (Some w)
    with wrote obtain r where "write_meets w (policy_of s) (policy_of s') r" by blast
    then show ?thesis
      using that endpoint_write_valid [OF Some that] store.keep_valid by (blast intro: write_meets_preserves)
  qed
qed

lemma run_endpoint_mapping_source:
  assumes "invar s" "run_endpoint it (ms_resource_service ms) req actor ep s = (out, s')"
    and "pol_mappings (policy_of s') k = Some m"
  shows "pol_mappings (policy_of s) k = Some m \<or> mr_mapping_body req = Ok m \<and> endpoint_role ep = ROLE_MAPPINGS_WRITE"
proof (cases "endpoint_write keep it req ep")
  case None
  with run_endpoint_invariant(3) [OF assms(1,2)] assms(3) show ?thesis by simp
next
  case (Some w)
  then obtain r where "write_meets w (policy_of s) (policy_of s') r"
    using run_endpoint_invariant(4) [OF assms(1,2)] by blast
  from write_meets_source [OF this, of "\<lambda>pol. pol_mappings pol k = Some m"] assms(3)
  show ?thesis using endpoint_write_source(1) [OF Some] by blast
qed

lemma run_endpoint_scope_source:
  assumes "invar s" "run_endpoint it (ms_resource_service ms) req actor ep s = (out, s')"
    and "pol_scopes (policy_of s') sc = Some sm"
  shows "pol_scopes (policy_of s) sc = Some sm
    \<or> (\<exists>x. sm = keep x \<and> scope_in_body req x) \<and> endpoint_role ep = ROLE_SCOPES_WRITE"
proof (cases "endpoint_write keep it req ep")
  case None
  with run_endpoint_invariant(3) [OF assms(1,2)] assms(3) show ?thesis by simp
next
  case (Some w)
  then obtain r where "write_meets w (policy_of s) (policy_of s') r"
    using run_endpoint_invariant(4) [OF assms(1,2)] by blast
  from write_meets_source [OF this, of "\<lambda>pol. pol_scopes pol sc = Some sm"] assms(3)
  show ?thesis using endpoint_write_source(2) [OF Some] by blast
qed

text \<open>A deletion that was answered with success is in force.\<close>

lemma delete_served_gone:
  assumes "invar s" "run_endpoint it (ms_resource_service ms) req actor (DeleteMapping c p) s = ((resp, evs), s')"
    and "rs_status resp = 204"
  shows "pol_mappings (policy_of s') (c, p) = None"
proof -
  obtain r s1 where d: "st_remove_mapping (ms_resource_service ms) c p s = (r, s1)" by (rule prod.exhaust)
  note law = store.remove_law [OF assms(1) d]
  from assms(2) d have fin: "finish (r, s1) 204 [MappingDeleted actor c p] = ((resp, evs), s')"
    by (simp add: h_delete_mapping_def svc_remove_def)
  have "is_ok r"
  proof (cases r)
    case (Err e)
    with fin have "resp = mgmt_error_response (ResourceFailed e)" by (auto simp: finish_def)
    with assms(3) show ?thesis by (cases e) (auto simp: status_only_def)
  qed simp
  with law fin show ?thesis
    by (cases r) (auto simp: write_meets_def spec_remove_def finish_def)
qed

end

end
