(* ===== verification/Server_Runs.thy ===== *)
theory Server_Runs
  imports Request_Phases
begin

section \<open>Runs of the assembled system\<close>

text \<open>
  Any number of requests to the two servers are in flight at once, each in one of its
  phases; the phases interleave with each other, with the renewal of the two verifiers'
  tokens and with changes of the world (API server, token file). A client may go away, which
  drops its request at an \<^verbatim>\<open>await\<close>; a statement that the database executes nevertheless is
  a served request whose answer nobody reads. A run is a sequence of such steps over one store. With a
  store whose lookup awaits in between (\<open>sp\<close>), the phase that asks the policy is two steps.
  The locale states what holds in every run over any store, any verifiers and any authorizer
  that keep their contracts; it is interpreted on the runtime that assembly builds.
\<close>

subsection \<open>Steps and runs\<close>

datatype request_task =
    ExReceived token_exchange_form
  | ExVerified token_exchange_form token_claims
  | ExLookedUp token_exchange_form token_claims resource_mapping
  | ExResolved token_exchange_form token_claims "verification_result \<times> str"
  | MgReceived mgmt_request
  | MgAdmitted mgmt_request str endpoint

record ('w, 's) system_state = "('w, 's) server_state" +
  sy_tasks :: "request_task multiset"

datatype system_event =
    ExchangeArrived token_exchange_form
  | ExchangeRefused token_exchange_form "nat \<times> json"
  | ExchangeVerified token_exchange_form token_claims
  | ExchangeLookedUp token_exchange_form token_claims resource_mapping
  | ExchangeResolved token_exchange_form token_claims "verification_result \<times> str"
  | TokenAnswered i64 str token_exchange_form token_claims "verification_result \<times> str" "nat \<times> json"
  | ManagementArrived mgmt_request
  | ManagementStopped mgmt_request nat
  | ManagementAdmitted mgmt_request str endpoint
  | ManagementServed mgmt_request str endpoint mgmt_response "audit_event list"
  | RequestDropped
  | TokenRenewed
  | WorldChanged

type_synonym ('w, 's) history = "(('w, 's) system_state \<times> system_event) list"

text \<open>A task takes the place of another.\<close>

definition moves :: "request_task \<Rightarrow> request_task \<Rightarrow> request_task multiset \<Rightarrow> request_task multiset" where
  "moves t t' ts = add_mset t' (ts - {#t#})"

definition ends :: "request_task \<Rightarrow> request_task multiset \<Rightarrow> request_task multiset" where
  "ends t ts = ts - {#t#}"

lemma in_moves: "x \<in># moves t t' ts \<Longrightarrow> x = t' \<or> x \<in># ts"
  by (auto simp: moves_def dest: in_diffD)

lemma in_ends: "x \<in># ends t ts \<Longrightarrow> x \<in># ts"
  by (auto simp: ends_def dest: in_diffD)

inductive system_step ::
    "'s resolve_steps option \<Rightarrow> hash_iter \<Rightarrow> (mgmt_request \<Rightarrow> k8s_verifier \<times> 'w \<Rightarrow> nat \<times> (k8s_verifier \<times> 'w)) \<Rightarrow> 'w k8s_env
       \<Rightarrow> ('w, 's, 'kr, 'g) jwtlet_runtime \<Rightarrow> ('w, 's) system_state \<Rightarrow> system_event \<Rightarrow> ('w, 's) system_state \<Rightarrow> bool"
  for sp it fb env rt where
  exchange_arrives: "exchange_begin form = (Ok () :: (unit, 'g exchange_api_error) result) \<Longrightarrow>
    system_step sp it fb env rt st (ExchangeArrived form)
      (st\<lparr>sy_tasks := add_mset (ExReceived form) (sy_tasks st)\<rparr>)"
| exchange_malformed: "exchange_begin form = (Err e :: (unit, 'g exchange_api_error) result) \<Longrightarrow>
    system_step sp it fb env rt st (ExchangeRefused form (exchange_error_response e)) st"
| exchange_verified: "ExReceived form \<in># sy_tasks st \<Longrightarrow>
    exchange_verify (rt_token_service rt) form (sv_exchange_verifier st, sv_world st) = (Ok client, (kv, w)) \<Longrightarrow>
    system_step sp it fb env rt st (ExchangeVerified form client)
      (st\<lparr>sv_exchange_verifier := kv, sv_world := w,
          sy_tasks := moves (ExReceived form) (ExVerified form client) (sy_tasks st)\<rparr>)"
| exchange_unverified: "ExReceived form \<in># sy_tasks st \<Longrightarrow>
    exchange_verify (rt_token_service rt) form (sv_exchange_verifier st, sv_world st) = (Err e, (kv, w)) \<Longrightarrow>
    system_step sp it fb env rt st (ExchangeRefused form (exchange_error_response e))
      (st\<lparr>sv_exchange_verifier := kv, sv_world := w, sy_tasks := ends (ExReceived form) (sy_tasks st)\<rparr>)"
| exchange_resolved: "sp = None \<Longrightarrow> ExVerified form client \<in># sy_tasks st \<Longrightarrow>
    exchange_resolve (rt_token_service rt) form client (sv_store st) = (Ok va, s) \<Longrightarrow>
    system_step sp it fb env rt st (ExchangeResolved form client va)
      (st\<lparr>sv_store := s, sy_tasks := moves (ExVerified form client) (ExResolved form client va) (sy_tasks st)\<rparr>)"
| exchange_denied: "sp = None \<Longrightarrow> ExVerified form client \<in># sy_tasks st \<Longrightarrow>
    exchange_resolve (rt_token_service rt) form client (sv_store st) = (Err e, s) \<Longrightarrow>
    system_step sp it fb env rt st (ExchangeRefused form (exchange_error_response e))
      (st\<lparr>sv_store := s, sy_tasks := ends (ExVerified form client) (sy_tasks st)\<rparr>)"
| exchange_looked_up: "sp = Some rs \<Longrightarrow> ExVerified form client \<in># sy_tasks st \<Longrightarrow>
    exchange_lookup rs form client (sv_store st) = (Ok m :: (resource_mapping, 'g exchange_api_error) result, s) \<Longrightarrow>
    system_step sp it fb env rt st (ExchangeLookedUp form client m)
      (st\<lparr>sv_store := s, sy_tasks := moves (ExVerified form client) (ExLookedUp form client m) (sy_tasks st)\<rparr>)"
| exchange_not_found: "sp = Some rs \<Longrightarrow> ExVerified form client \<in># sy_tasks st \<Longrightarrow>
    exchange_lookup rs form client (sv_store st) = (Err e :: (resource_mapping, 'g exchange_api_error) result, s) \<Longrightarrow>
    system_step sp it fb env rt st (ExchangeRefused form (exchange_error_response e))
      (st\<lparr>sv_store := s, sy_tasks := ends (ExVerified form client) (sy_tasks st)\<rparr>)"
| exchange_expanded: "sp = Some rs \<Longrightarrow> ExLookedUp form client m \<in># sy_tasks st \<Longrightarrow>
    exchange_expand (rt_token_service rt) rs form client m (sv_store st) = (Ok va, s) \<Longrightarrow>
    system_step sp it fb env rt st (ExchangeResolved form client va)
      (st\<lparr>sv_store := s, sy_tasks := moves (ExLookedUp form client m) (ExResolved form client va) (sy_tasks st)\<rparr>)"
| exchange_not_expanded: "sp = Some rs \<Longrightarrow> ExLookedUp form client m \<in># sy_tasks st \<Longrightarrow>
    exchange_expand (rt_token_service rt) rs form client m (sv_store st) = (Err e, s) \<Longrightarrow>
    system_step sp it fb env rt st (ExchangeRefused form (exchange_error_response e))
      (st\<lparr>sv_store := s, sy_tasks := ends (ExLookedUp form client m) (sy_tasks st)\<rparr>)"
| exchange_signed: "ExResolved form client va \<in># sy_tasks st \<Longrightarrow>
    exchange_answer (exchange_sign (rt_token_service rt) now jti form client va) = out \<Longrightarrow>
    system_step sp it fb env rt st (TokenAnswered now jti form client va out)
      (st\<lparr>sy_tasks := ends (ExResolved form client va) (sy_tasks st)\<rparr>)"
| management_arrives:
    "system_step sp it fb env rt st (ManagementArrived req)
      (st\<lparr>sy_tasks := add_mset (MgReceived req) (sy_tasks st)\<rparr>)"
| management_stopped: "MgReceived req \<in># sy_tasks st \<Longrightarrow>
    management_admit fb (management_state_of rt) req (sv_management_verifier st, sv_world st) = (Err code, (kv, w)) \<Longrightarrow>
    system_step sp it fb env rt st (ManagementStopped req code)
      (st\<lparr>sv_management_verifier := kv, sv_world := w, sy_tasks := ends (MgReceived req) (sy_tasks st)\<rparr>)"
| management_admitted: "MgReceived req \<in># sy_tasks st \<Longrightarrow>
    management_admit fb (management_state_of rt) req (sv_management_verifier st, sv_world st)
      = (Ok (actor, ep), (kv, w)) \<Longrightarrow>
    system_step sp it fb env rt st (ManagementAdmitted req actor ep)
      (st\<lparr>sv_management_verifier := kv, sv_world := w,
          sy_tasks := moves (MgReceived req) (MgAdmitted req actor ep) (sy_tasks st)\<rparr>)"
| management_served: "MgAdmitted req actor ep \<in># sy_tasks st \<Longrightarrow>
    run_endpoint it (ms_resource_service (management_state_of rt)) req actor ep (sv_store st) = ((resp, evs), s) \<Longrightarrow>
    system_step sp it fb env rt st (ManagementServed req actor ep resp evs)
      (st\<lparr>sv_store := s, sy_tasks := ends (MgAdmitted req actor ep) (sy_tasks st)\<rparr>)"
| dropped: "t \<in># sy_tasks st \<Longrightarrow>
    system_step sp it fb env rt st RequestDropped (st\<lparr>sy_tasks := ends t (sy_tasks st)\<rparr>)"
| renew_exchange: "env_read env (kv_token_file (sv_exchange_verifier st)) (sv_world st) = (Ok raw, w) \<Longrightarrow>
    system_step sp it fb env rt st TokenRenewed
      (st\<lparr>sv_exchange_verifier := (sv_exchange_verifier st)\<lparr>kv_state := Some (trim raw)\<rparr>, sv_world := w\<rparr>)"
| renew_management: "env_read env (kv_token_file (sv_management_verifier st)) (sv_world st) = (Ok raw, w) \<Longrightarrow>
    system_step sp it fb env rt st TokenRenewed
      (st\<lparr>sv_management_verifier := (sv_management_verifier st)\<lparr>kv_state := Some (trim raw)\<rparr>, sv_world := w\<rparr>)"
| world: "system_step sp it fb env rt st WorldChanged (st\<lparr>sv_world := w\<rparr>)"

inductive_cases system_stepE: "system_step sp it fb env rt st e st'"

inductive system_run ::
    "'s resolve_steps option \<Rightarrow> hash_iter \<Rightarrow> (mgmt_request \<Rightarrow> k8s_verifier \<times> 'w \<Rightarrow> nat \<times> (k8s_verifier \<times> 'w)) \<Rightarrow> 'w k8s_env
       \<Rightarrow> ('w, 's, 'kr, 'g) jwtlet_runtime \<Rightarrow> ('w, 's) system_state \<Rightarrow> ('w, 's) history \<Rightarrow> ('w, 's) system_state \<Rightarrow> bool"
  for sp it fb env rt st0 where
  run_nil: "system_run sp it fb env rt st0 [] st0"
| run_snoc: "system_run sp it fb env rt st0 h st \<Longrightarrow> system_step sp it fb env rt st e st' \<Longrightarrow>
    system_run sp it fb env rt st0 (h @ [(st, e)]) st'"

text \<open>The state in which the servers start.\<close>

definition initial_state :: "('w, 's, 'kr, 'g) jwtlet_runtime \<Rightarrow> 's \<Rightarrow> 'w \<Rightarrow> ('w, 's) system_state" where
  "initial_state rt s w =
     \<lparr>sv_exchange_verifier = rt_exchange_verifier rt, sv_management_verifier = rt_management_verifier rt,
      sv_world = w, sv_store = s, sy_tasks = {#}\<rparr>"

lemma initial_state_sel [simp]: "sv_store (initial_state rt s w) = s" "sy_tasks (initial_state rt s w) = {#}"
  by (simp_all add: initial_state_def)

lemma run_prefix:
  "system_run sp it fb env rt st0 h st \<Longrightarrow> h = a @ (x, e) # b \<Longrightarrow> system_run sp it fb env rt st0 a x"
proof (induction arbitrary: b rule: system_run.induct)
  case (run_snoc h st e' st')
  show ?case
  proof (cases b rule: rev_cases)
    case Nil
    with run_snoc show ?thesis by simp
  next
    case (snoc b' y)
    with run_snoc.prems have "h = a @ (x, e) # b'" by simp
    then show ?thesis by (rule run_snoc.IH)
  qed
qed simp

lemma run_step_at:
  "system_run sp it fb env rt st0 h st \<Longrightarrow> h = a @ (x, e) # b \<Longrightarrow> \<exists>x'. system_step sp it fb env rt x e x'"
proof (induction arbitrary: b rule: system_run.induct)
  case (run_snoc h st e' st')
  show ?case
  proof (cases b rule: rev_cases)
    case Nil
    with run_snoc show ?thesis by auto
  next
    case (snoc b' y)
    with run_snoc.prems have "h = a @ (x, e) # b'" by simp
    then show ?thesis by (rule run_snoc.IH)
  qed
qed simp

subsection \<open>What a history records\<close>

definition verified_in ::
    "(k8s_verifier \<times> 'w \<Rightarrow> str \<Rightarrow> str \<Rightarrow> token_claims \<Rightarrow> bool) \<Rightarrow> ('w, 's, 'kr, 'g) jwtlet_runtime
       \<Rightarrow> ('w, 's) history \<Rightarrow> token_exchange_form \<Rightarrow> token_claims \<Rightarrow> bool" where
  "verified_in vouched rt h form client \<longleftrightarrow>
     (\<exists>st. (st, ExchangeVerified form client) \<in> set h
        \<and> vouched (sv_exchange_verifier st, sv_world st) (te_client_audience (rt_token_service rt))
            (ef_subject_token form) client)"

definition admitted_in ::
    "(k8s_verifier \<times> 'w \<Rightarrow> str \<Rightarrow> str \<Rightarrow> token_claims \<Rightarrow> bool) \<Rightarrow> (str \<Rightarrow> str \<Rightarrow> bool)
       \<Rightarrow> ('w, 's, 'kr, 'g) jwtlet_runtime \<Rightarrow> ('w, 's) history \<Rightarrow> mgmt_request \<Rightarrow> str \<Rightarrow> endpoint \<Rightarrow> bool" where
  "admitted_in vouched holds rt h req actor ep \<longleftrightarrow>
     (\<exists>st. (st, ManagementAdmitted req actor ep) \<in> set h
        \<and> caller_has_role vouched holds (management_state_of rt) req
            (sv_management_verifier st, sv_world st) actor (endpoint_role ep))"

text \<open>
  The policy answered a verified request: the state of that moment, after the verification.
\<close>

definition resolved_in ::
    "(k8s_verifier \<times> 'w \<Rightarrow> str \<Rightarrow> str \<Rightarrow> token_claims \<Rightarrow> bool) \<Rightarrow> ('w, 's, 'kr, 'g) jwtlet_runtime
       \<Rightarrow> ('w, 's) history \<Rightarrow> token_exchange_form \<Rightarrow> token_claims \<Rightarrow> verification_result \<times> str \<Rightarrow> bool" where
  "resolved_in vouched rt h form client va \<longleftrightarrow>
     (\<exists>a st b. h = a @ (st, ExchangeResolved form client va) # b \<and> verified_in vouched rt a form client)"

definition looked_up_in ::
    "(k8s_verifier \<times> 'w \<Rightarrow> str \<Rightarrow> str \<Rightarrow> token_claims \<Rightarrow> bool) \<Rightarrow> ('w, 's, 'kr, 'g) jwtlet_runtime
       \<Rightarrow> ('w, 's) history \<Rightarrow> token_exchange_form \<Rightarrow> token_claims \<Rightarrow> resource_mapping \<Rightarrow> bool" where
  "looked_up_in vouched rt h form client m \<longleftrightarrow>
     (\<exists>a st b. h = a @ (st, ExchangeLookedUp form client m) # b \<and> verified_in vouched rt a form client)"

text \<open>
  A request of an admitted administrator with the role was served, and in every state since
  then what it wrote was in place.
\<close>

definition granted_since ::
    "(k8s_verifier \<times> 'w \<Rightarrow> str \<Rightarrow> str \<Rightarrow> token_claims \<Rightarrow> bool) \<Rightarrow> (str \<Rightarrow> str \<Rightarrow> bool)
       \<Rightarrow> ('w, 's, 'kr, 'g) jwtlet_runtime \<Rightarrow> ('w, 's) history \<Rightarrow> str \<Rightarrow> (mgmt_request \<Rightarrow> bool)
       \<Rightarrow> (('w, 's) system_state \<Rightarrow> bool) \<Rightarrow> bool" where
  "granted_since vouched holds rt h role P in_place \<longleftrightarrow>
     (\<exists>a st req actor ep resp evs b. h = a @ (st, ManagementServed req actor ep resp evs) # b
        \<and> P req \<and> endpoint_role ep = role \<and> admitted_in vouched holds rt a req actor ep
        \<and> (\<forall>x\<in>set b. in_place (fst x)))"

lemma verified_in_mono: "verified_in vouched rt h form client \<Longrightarrow> verified_in vouched rt (h @ h') form client"
  by (auto simp: verified_in_def)

lemma admitted_in_mono:
  "admitted_in vouched holds rt h req actor ep \<Longrightarrow> admitted_in vouched holds rt (h @ h') req actor ep"
  by (auto simp: admitted_in_def)

lemma resolved_in_mono: "resolved_in vouched rt h form client va \<Longrightarrow> resolved_in vouched rt (h @ h') form client va"
  unfolding resolved_in_def by (metis append.assoc append_Cons)

lemma looked_up_in_mono: "looked_up_in vouched rt h form client m \<Longrightarrow> looked_up_in vouched rt (h @ h') form client m"
  unfolding looked_up_in_def by (metis append.assoc append_Cons)

lemma looked_up_verified: "looked_up_in vouched rt h form client m \<Longrightarrow> verified_in vouched rt h form client"
  by (auto simp: looked_up_in_def intro: verified_in_mono)

lemma granted_since_snoc:
  "granted_since vouched holds rt h role P in_place \<Longrightarrow> in_place st \<Longrightarrow>
     granted_since vouched holds rt (h @ [(st, e)]) role P in_place"
  unfolding granted_since_def
  by (elim exE conjE, intro exI conjI) (assumption | simp | force)+

lemma granted_since_now:
  "admitted_in vouched holds rt h req actor ep \<Longrightarrow> P req \<Longrightarrow> endpoint_role ep = role \<Longrightarrow>
     granted_since vouched holds rt (h @ [(st, ManagementServed req actor ep resp evs)]) role P in_place"
  unfolding granted_since_def by fastforce

text \<open>Every request in flight got where it is through its earlier phases.\<close>

fun task_justified ::
    "(k8s_verifier \<times> 'w \<Rightarrow> str \<Rightarrow> str \<Rightarrow> token_claims \<Rightarrow> bool) \<Rightarrow> (str \<Rightarrow> str \<Rightarrow> bool)
       \<Rightarrow> ('w, 's, 'kr, 'g) jwtlet_runtime \<Rightarrow> ('w, 's) history \<Rightarrow> request_task \<Rightarrow> bool" where
  "task_justified vouched holds rt h (ExReceived form) = True"
| "task_justified vouched holds rt h (ExVerified form client) = verified_in vouched rt h form client"
| "task_justified vouched holds rt h (ExLookedUp form client m) = looked_up_in vouched rt h form client m"
| "task_justified vouched holds rt h (ExResolved form client va) = resolved_in vouched rt h form client va"
| "task_justified vouched holds rt h (MgReceived req) = True"
| "task_justified vouched holds rt h (MgAdmitted req actor ep) = admitted_in vouched holds rt h req actor ep"

lemma task_justified_mono: "task_justified vouched holds rt h t \<Longrightarrow> task_justified vouched holds rt (h @ h') t"
  by (cases t) (auto intro: verified_in_mono looked_up_in_mono resolved_in_mono admitted_in_mono)

subsection \<open>What holds in every run\<close>

locale system_setting =
  ex: exchange_setting "rt_token_service rt" policy_of invar keep vouched +
  mg: management_setting "management_state_of rt" policy_of invar keep vouched holds +
  st: resolve_in_steps sp policy_of invar
  for sp :: "'s resolve_steps option" and rt :: "('w, 's, 'kr, 'g) jwtlet_runtime"
    and policy_of :: "'s \<Rightarrow> policy" and invar :: "'s \<Rightarrow> bool"
    and keep :: "scope_mapping \<Rightarrow> scope_mapping"
    and vouched :: "k8s_verifier \<times> 'w \<Rightarrow> str \<Rightarrow> str \<Rightarrow> token_claims \<Rightarrow> bool"
    and holds :: "str \<Rightarrow> str \<Rightarrow> bool"
begin

text \<open>What a step does to the store: only a served management request changes the policy.\<close>

lemma step_store:
  assumes "invar (sv_store st)" "system_step sp it fb env rt st e st'"
  obtains (same) "invar (sv_store st')" "policy_of (sv_store st') = policy_of (sv_store st)"
    | (served) req actor ep resp evs where "e = ManagementServed req actor ep resp evs"
        "MgAdmitted req actor ep \<in># sy_tasks st"
        "run_endpoint it (ms_resource_service (management_state_of rt)) req actor ep (sv_store st)
           = ((resp, evs), sv_store st')"
proof -
  note reads = ex.exchange_resolve_state [OF assms(1)] st.exchange_lookup_found(1,2) [OF _ assms(1)]
    st.exchange_expand_issued(1,2) [OF _ assms(1)]
  from assms(2) show thesis
  proof (rule system_stepE)
    fix req actor ep resp evs s
    assume "e = ManagementServed req actor ep resp evs" "MgAdmitted req actor ep \<in># sy_tasks st"
      "run_endpoint it (ms_resource_service (management_state_of rt)) req actor ep (sv_store st) = ((resp, evs), s)"
      "st' = st\<lparr>sv_store := s, sy_tasks := ends (MgAdmitted req actor ep) (sy_tasks st)\<rparr>"
    then show thesis by (intro served) simp_all
  qed (rule same; auto simp: assms(1) intro: reads)+
qed

lemma step_invariant:
  assumes "invar (sv_store st)" "system_step sp it fb env rt st e st'"
  shows "invar (sv_store st')"
    and "valid_iter it \<Longrightarrow> policy_valid (policy_of (sv_store st)) \<Longrightarrow> policy_valid (policy_of (sv_store st'))"
  using assms by (rule step_store; use mg.run_endpoint_invariant(1,2) [OF assms(1)] in auto)+

lemma run_invar: "system_run sp it fb env rt st0 h st \<Longrightarrow> invar (sv_store st0) \<Longrightarrow> invar (sv_store st)"
  by (induction rule: system_run.induct) (auto intro: step_invariant(1))

lemma run_valid:
  "system_run sp it fb env rt st0 h st \<Longrightarrow> invar (sv_store st0) \<Longrightarrow> valid_iter it \<Longrightarrow>
     policy_valid (policy_of (sv_store st0)) \<Longrightarrow> policy_valid (policy_of (sv_store st))"
  by (induction rule: system_run.induct) (auto intro: step_invariant(2) run_invar)

text \<open>The requests in flight are justified by the history.\<close>

lemma verified_now:
  "exchange_verify (rt_token_service rt) form (sv_exchange_verifier st, sv_world st) = (Ok client, v') \<Longrightarrow>
     verified_in vouched rt (h @ [(st, ExchangeVerified form client)]) form client"
  by (auto simp: verified_in_def dest: ex.exchange_verify_vouched)

lemma admitted_now:
  "management_admit fb (management_state_of rt) req (sv_management_verifier st, sv_world st) = (Ok (actor, ep), v') \<Longrightarrow>
     admitted_in vouched holds rt (h @ [(st, ManagementAdmitted req actor ep)]) req actor ep"
  by (auto simp: admitted_in_def dest: mg.management_admit_role)

lemma resolved_now:
  "verified_in vouched rt h form client \<Longrightarrow>
     resolved_in vouched rt (h @ [(st, ExchangeResolved form client va)]) form client va"
  by (auto simp: resolved_in_def)

lemma looked_up_now:
  "verified_in vouched rt h form client \<Longrightarrow>
     looked_up_in vouched rt (h @ [(st, ExchangeLookedUp form client m)]) form client m"
  by (auto simp: looked_up_in_def)

lemma step_justified:
  assumes "system_step sp it fb env rt st e st'" "t \<in># sy_tasks st'"
    and "\<forall>t\<in>#sy_tasks st. task_justified vouched holds rt h t"
  shows "task_justified vouched holds rt (h @ [(st, e)]) t"
proof -
  have old: "task_justified vouched holds rt (h @ [(st, e)]) t" if "t \<in># sy_tasks st"
    using that assms(3) by (blast intro: task_justified_mono)
  from assms(1) show ?thesis
  proof (rule system_stepE)
    fix rs form client m s
    assume "e = ExchangeLookedUp form client m" "ExVerified form client \<in># sy_tasks st"
      and st': "st' = st\<lparr>sv_store := s, sy_tasks := moves (ExVerified form client) (ExLookedUp form client m) (sy_tasks st)\<rparr>"
    moreover from this(2) assms(3) have "verified_in vouched rt h form client" by fastforce
    ultimately show ?thesis
      using assms(2) old by (auto dest!: in_moves intro: looked_up_now)
  next
    fix rs form client m va s
    assume "e = ExchangeResolved form client va" "ExLookedUp form client m \<in># sy_tasks st"
      and st': "st' = st\<lparr>sv_store := s, sy_tasks := moves (ExLookedUp form client m) (ExResolved form client va) (sy_tasks st)\<rparr>"
    moreover from this(2) assms(3) have "verified_in vouched rt h form client" by (fastforce intro: looked_up_verified)
    ultimately show ?thesis
      using assms(2) old by (auto dest!: in_moves intro: resolved_now)
  next
    fix form client va s
    assume "e = ExchangeResolved form client va" "ExVerified form client \<in># sy_tasks st"
      and st': "st' = st\<lparr>sv_store := s, sy_tasks := moves (ExVerified form client) (ExResolved form client va) (sy_tasks st)\<rparr>"
    moreover from this(2) assms(3) have "verified_in vouched rt h form client" by fastforce
    ultimately show ?thesis
      using assms(2) old by (auto dest!: in_moves intro: resolved_now)
  qed (use assms(2) old in \<open>auto dest!: in_moves in_ends intro: verified_now admitted_now\<close>)
qed

lemma run_justified:
  "system_run sp it fb env rt st0 h st \<Longrightarrow> sy_tasks st0 = {#} \<Longrightarrow> t \<in># sy_tasks st \<Longrightarrow>
     task_justified vouched holds rt h t"
  by (induction arbitrary: t rule: system_run.induct) (simp, blast intro: step_justified)

text \<open>
  Traceback: an entry of the policy has been there from the start, or an administrator wrote
  it in this run and it has been in place ever since.
\<close>

lemma run_traceback:
  fixes entry :: "policy \<Rightarrow> 'a option"
  assumes "system_run sp it fb env rt st0 h st" "invar (sv_store st0)" "sy_tasks st0 = {#}"
    and source: "\<And>s req actor ep out s'. invar s \<Longrightarrow>
      run_endpoint it (ms_resource_service (management_state_of rt)) req actor ep s = (out, s') \<Longrightarrow>
      entry (policy_of s') = Some m \<Longrightarrow> entry (policy_of s) = Some m \<or> P req \<and> endpoint_role ep = role"
    and "entry (policy_of (sv_store st)) = Some m"
  shows "entry (policy_of (sv_store st0)) = Some m
    \<or> granted_since vouched holds rt h role P (\<lambda>x. entry (policy_of (sv_store x)) = Some m)"
  using assms(1,5)
proof (induction rule: system_run.induct)
  case (run_snoc h st e st')
  show ?case
  proof (cases "entry (policy_of (sv_store st)) = Some m")
    case True
    with run_snoc.IH show ?thesis by (auto intro: granted_since_snoc)
  next
    case False
    note inv = run_invar [OF run_snoc.hyps(1) assms(2)]
    from inv run_snoc.hyps(2) show ?thesis
    proof (rule step_store)
      fix req actor ep resp evs
      assume e: "e = ManagementServed req actor ep resp evs" and task: "MgAdmitted req actor ep \<in># sy_tasks st"
        and run: "run_endpoint it (ms_resource_service (management_state_of rt)) req actor ep (sv_store st)
           = ((resp, evs), sv_store st')"
      have "admitted_in vouched holds rt h req actor ep"
        using run_justified [OF run_snoc.hyps(1) assms(3) task] by simp
      with source [OF inv run run_snoc.prems] False e show ?thesis
        by (auto intro: granted_since_now)
    qed (use False run_snoc.prems in auto)
  qed
qed simp

lemma mapping_traceback:
  assumes "system_run sp it fb env rt st0 h st" "invar (sv_store st0)" "sy_tasks st0 = {#}"
    and "pol_mappings (policy_of (sv_store st)) k = Some m"
  shows "pol_mappings (policy_of (sv_store st0)) k = Some m
    \<or> granted_since vouched holds rt h ROLE_MAPPINGS_WRITE (\<lambda>req. mr_mapping_body req = Ok m)
        (\<lambda>x. pol_mappings (policy_of (sv_store x)) k = Some m)"
  using assms(1-3) mg.run_endpoint_mapping_source assms(4) by (rule run_traceback)

lemma scope_traceback:
  assumes "system_run sp it fb env rt st0 h st" "invar (sv_store st0)" "sy_tasks st0 = {#}"
    and "pol_scopes (policy_of (sv_store st)) sc = Some sm"
  shows "pol_scopes (policy_of (sv_store st0)) sc = Some sm
    \<or> granted_since vouched holds rt h ROLE_SCOPES_WRITE (\<lambda>req. \<exists>x. sm = keep x \<and> scope_in_body req x)
        (\<lambda>x. pol_scopes (policy_of (sv_store x)) sc = Some sm)"
  using assms(1-3) mg.run_endpoint_scope_source assms(4) by (rule run_traceback)

text \<open>
  Conversely, an entry that a step took away is absent in every later state as long as nobody
  writes it again.
\<close>

lemma run_absent:
  fixes entry :: "policy \<Rightarrow> 'a option"
  assumes "system_run sp it fb env rt st0 h st" "invar (sv_store st0)" "h = h1 @ (z, e) # h2"
    and "\<And>z'. system_step sp it fb env rt z e z' \<Longrightarrow> entry (policy_of (sv_store z')) = None"
    and source: "\<And>s req actor ep out s' m. invar s \<Longrightarrow>
      run_endpoint it (ms_resource_service (management_state_of rt)) req actor ep s = (out, s') \<Longrightarrow>
      entry (policy_of s') = Some m \<Longrightarrow> entry (policy_of s) = None \<Longrightarrow> P req"
    and "\<forall>x\<in>set h2. \<forall>req actor ep resp evs. snd x = ManagementServed req actor ep resp evs \<longrightarrow> \<not> P req"
  shows "entry (policy_of (sv_store st)) = None \<and> (\<forall>x\<in>set h2. entry (policy_of (sv_store (fst x))) = None)"
  using assms(1,3,6)
proof (induction arbitrary: h2 rule: system_run.induct)
  case (run_snoc h st e' st')
  show ?case
  proof (cases h2 rule: rev_cases)
    case Nil
    with run_snoc assms(4) show ?thesis by simp
  next
    case (snoc h2' x)
    with run_snoc.prems have h: "h = h1 @ (z, e) # h2'" and x: "x = (st, e')" by simp_all
    then have IH: "entry (policy_of (sv_store st)) = None" "\<forall>x\<in>set h2'. entry (policy_of (sv_store (fst x))) = None"
      using run_snoc.IH [OF h] run_snoc.prems(2) snoc by auto
    note inv = run_invar [OF run_snoc.hyps(1) assms(2)]
    from inv run_snoc.hyps(2) have "entry (policy_of (sv_store st')) = None"
    proof (rule step_store)
      fix req actor ep resp evs
      assume "e' = ManagementServed req actor ep resp evs"
        and "run_endpoint it (ms_resource_service (management_state_of rt)) req actor ep (sv_store st)
           = ((resp, evs), sv_store st')"
      with source [OF inv this(2)] IH(1) run_snoc.prems(2) snoc x show ?thesis
        by (cases "entry (policy_of (sv_store st'))") auto
    qed (use IH(1) in simp)
    with IH snoc x show ?thesis by auto
  qed
qed simp

text \<open>The mapping was there when the policy was asked for it.\<close>

lemma resolved_has_mapping:
  assumes "system_run sp it fb env rt st0 h st" "invar (sv_store st0)" "h = a @ (y, e) # b"
    and "e = ExchangeLookedUp form client m \<or> sp = None \<and> e = ExchangeResolved form client va"
  shows "pol_mappings (policy_of (sv_store y)) (tc_sub client, ef_resource form) \<noteq> None"
proof -
  obtain y' where step: "system_step sp it fb env rt y e y'"
    using run_step_at [OF assms(1,3)] by blast
  have inv: "invar (sv_store y)" by (rule run_invar [OF run_prefix [OF assms(1,3)] assms(2)])
  from assms(4) show ?thesis
  proof
    assume "e = ExchangeLookedUp form client m"
    with step obtain rs s where "sp = Some rs"
        "exchange_lookup rs form client (sv_store y) = (Ok m :: (resource_mapping, 'g exchange_api_error) result, s)"
      by (auto elim: system_stepE)
    from st.exchange_lookup_found(3) [OF this(1) inv this(2) refl] show ?thesis by simp
  next
    assume "sp = None \<and> e = ExchangeResolved form client va"
    with step obtain s where "exchange_resolve (rt_token_service rt) form client (sv_store y) = (Ok va, s)"
      by (auto elim: system_stepE)
    from ex.exchange_resolve_issued [OF inv this, of undefined undefined] show ?thesis
      unfolding issued_claims_def by fastforce
  qed
qed

lemma revoked_mapping_unused:
  assumes run: "system_run sp it fb env rt st0 h st" "invar (sv_store st0)" "h = h1 @ (z, e) # h2"
    and gone: "\<And>z'. system_step sp it fb env rt z e z' \<Longrightarrow> pol_mappings (policy_of (sv_store z')) k = None"
    and quiet: "\<forall>x\<in>set h2. \<forall>req actor ep resp evs m.
       snd x = ManagementServed req actor ep resp evs \<and> mr_mapping_body req = Ok m \<longrightarrow> rm_key m \<noteq> k"
  shows "pol_mappings (policy_of (sv_store st)) k = None"
    and "(y, e') \<in> set h2 \<Longrightarrow> e' = ExchangeLookedUp form client m \<or> sp = None \<and> e' = ExchangeResolved form client va \<Longrightarrow>
      (tc_sub client, ef_resource form) \<noteq> k"
proof -
  have absent: "pol_mappings (policy_of (sv_store st)) k = None
      \<and> (\<forall>x\<in>set h2. pol_mappings (policy_of (sv_store (fst x))) k = None)"
  proof (rule run_absent [OF run, where entry = "\<lambda>pol. pol_mappings pol k"
        and P = "\<lambda>req. \<exists>m. mr_mapping_body req = Ok m \<and> rm_key m = k"])
    fix s req actor ep out s' m
    assume r: "invar s" "run_endpoint it (ms_resource_service (management_state_of rt)) req actor ep s = (out, s')"
      and m: "pol_mappings (policy_of s') k = Some m" "pol_mappings (policy_of s) k = None"
    have "policy_wf (policy_of s')" by (rule ex.store.invar_wf [OF mg.run_endpoint_invariant(1) [OF r]])
    with m(1) have "rm_key m = k" unfolding policy_wf_def by blast
    with m mg.run_endpoint_mapping_source [OF r m(1)] show "\<exists>m. mr_mapping_body req = Ok m \<and> rm_key m = k"
      by simp
  next
    show "pol_mappings (policy_of (sv_store z')) k = None" if "system_step sp it fb env rt z e z'" for z'
      using that by (rule gone)
  qed (use quiet in blast)
  then show "pol_mappings (policy_of (sv_store st)) k = None" by blast
  assume y: "(y, e') \<in> set h2"
    and e': "e' = ExchangeLookedUp form client m \<or> sp = None \<and> e' = ExchangeResolved form client va"
  from split_list [OF y] obtain b1 b2 where "h = (h1 @ (z, e) # b1) @ (y, e') # b2"
    using run(3) by auto
  from resolved_has_mapping [OF run(1,2) this e'] absent y show "(tc_sub client, ef_resource form) \<noteq> k" by fastforce
qed

lemma deleted_mapping_unused:
  assumes "system_run sp it fb env rt st0 h st" "invar (sv_store st0)"
    and h: "h = h1 @ (z, ManagementServed req actor (DeleteMapping c p) resp evs) # h2" and "rs_status resp = 204"
    and "\<forall>x\<in>set h2. \<forall>req actor ep resp evs m.
       snd x = ManagementServed req actor ep resp evs \<and> mr_mapping_body req = Ok m \<longrightarrow> rm_key m \<noteq> (c, p)"
  shows "pol_mappings (policy_of (sv_store st)) (c, p) = None"
    and "(y, e') \<in> set h2 \<Longrightarrow> e' = ExchangeLookedUp form client m \<or> sp = None \<and> e' = ExchangeResolved form client va \<Longrightarrow>
      (tc_sub client, ef_resource form) \<noteq> (c, p)"
proof -
  have inv: "invar (sv_store z)" by (rule run_invar [OF run_prefix [OF assms(1) h] assms(2)])
  have gone: "pol_mappings (policy_of (sv_store z')) (c, p) = None"
    if "system_step sp it fb env rt z (ManagementServed req actor (DeleteMapping c p) resp evs) z'" for z'
    using that assms(4) by (auto elim!: system_stepE intro: mg.delete_served_gone [OF inv])
  show "pol_mappings (policy_of (sv_store st)) (c, p) = None"
    by (rule revoked_mapping_unused(1) [OF assms(1,2) h gone assms(5)])
  show "(tc_sub client, ef_resource form) \<noteq> (c, p)"
    if "(y, e') \<in> set h2" "e' = ExchangeLookedUp form client m \<or> sp = None \<and> e' = ExchangeResolved form client va"
    by (rule revoked_mapping_unused(2) [OF assms(1,2) h gone assms(5) that])
qed

text \<open>An answer with a token, traced back to the step that asked the policy.\<close>

lemma answered:
  assumes "system_run sp it fb env rt st0 h st" "invar (sv_store st0)" "sy_tasks st0 = {#}"
    and "h = a @ (x, TokenAnswered now jti form client va (200, body)) # b"
  obtains a1 y a2 y' jwt where "a = a1 @ (y, ExchangeResolved form client va) # a2"
    "system_run sp it fb env rt st0 a1 y" "invar (sv_store y)" "verified_in vouched rt a1 form client"
    "system_step sp it fb env rt y (ExchangeResolved form client va) y'"
    "json_get (lit ''access_token'') body = Some (JString jwt)"
    "te_generator (rt_token_service rt) (te_jwtlet_participant_context (rt_token_service rt))
       (participant_claims (rt_token_service rt) now (ef_resource form) (snd va) (token_custom (vr_claims (fst va)) client jti))
      = Ok jwt"
proof -
  obtain x' where step: "system_step sp it fb env rt x (TokenAnswered now jti form client va (200, body)) x'"
    using run_step_at [OF assms(1,4)] by blast
  then have task: "ExResolved form client va \<in># sy_tasks x"
      and out: "exchange_answer (exchange_sign (rt_token_service rt) now jti form client va) = (200, body)"
    by (auto elim: system_stepE)
  from run_justified [OF run_prefix [OF assms(1,4)] assms(3) task] obtain a1 y a2 where
      a: "a = a1 @ (y, ExchangeResolved form client va) # a2" and ver: "verified_in vouched rt a1 form client"
    by (auto simp: resolved_in_def)
  have h: "h = a1 @ (y, ExchangeResolved form client va) # (a2 @ (x, TokenAnswered now jti form client va (200, body)) # b)"
    by (simp add: assms(4) a)
  have run: "system_run sp it fb env rt st0 a1 y" by (rule run_prefix [OF assms(1) h])
  obtain y' where "system_step sp it fb env rt y (ExchangeResolved form client va) y'"
    using run_step_at [OF assms(1) h] by blast
  with out show thesis
    by (elim exchange_answer_Ok) (use that [OF a run run_invar [OF run assms(2)] ver] in blast)
qed

text \<open>With an undivided lookup the policy of one moment determines the claims.\<close>

lemma answered_token:
  assumes "system_run sp it fb env rt st0 h st" "invar (sv_store st0)" "sy_tasks st0 = {#}"
    and "h = a @ (x, TokenAnswered now jti form client va (200, body)) # b" and "sp = None"
  obtains a1 y a2 jwt where "a = a1 @ (y, ExchangeResolved form client va) # a2"
    "system_run sp it fb env rt st0 a1 y" "invar (sv_store y)" "verified_in vouched rt a1 form client"
    "json_get (lit ''access_token'') body = Some (JString jwt)"
    "issued_claims (rt_token_service rt) (policy_of (sv_store y)) now jti (ef_resource form) (requested_scopes form)
       (ef_audience form) client
       (participant_claims (rt_token_service rt) now (ef_resource form) (snd va) (token_custom (vr_claims (fst va)) client jti))"
    "te_generator (rt_token_service rt) (te_jwtlet_participant_context (rt_token_service rt))
       (participant_claims (rt_token_service rt) now (ef_resource form) (snd va) (token_custom (vr_claims (fst va)) client jti))
      = Ok jwt"
proof (rule answered [OF assms(1-4)])
  fix a1 y a2 y' jwt
  assume a: "a = a1 @ (y, ExchangeResolved form client va) # a2" "system_run sp it fb env rt st0 a1 y"
      "invar (sv_store y)" "verified_in vouched rt a1 form client"
    and step: "system_step sp it fb env rt y (ExchangeResolved form client va) y'"
    and jwt: "json_get (lit ''access_token'') body = Some (JString jwt)"
      "te_generator (rt_token_service rt) (te_jwtlet_participant_context (rt_token_service rt))
        (participant_claims (rt_token_service rt) now (ef_resource form) (snd va) (token_custom (vr_claims (fst va)) client jti))
       = Ok jwt"
  from step assms(5) obtain s where "exchange_resolve (rt_token_service rt) form client (sv_store y) = (Ok va, s)"
    by (auto elim: system_stepE)
  from that [OF a jwt(1) ex.exchange_resolve_issued [OF a(3) this] jwt(2)] show thesis .
qed

text \<open>
  With a lookup in two steps it is the mapping of the first and the scopes of the second.
\<close>

lemma resolved_in_steps_issued:
  assumes "system_run sp it fb env rt st0 h y" "invar (sv_store st0)" "sy_tasks st0 = {#}"
    and "system_step sp it fb env rt y (ExchangeResolved form client va) y'" "sp = Some rs"
  obtains a x m b where "h = a @ (x, ExchangeLookedUp form client m) # b" "verified_in vouched rt a form client"
    "system_run sp it fb env rt st0 a x" "invar (sv_store x)"
    "pol_mappings (policy_of (sv_store x)) (tc_sub client, ef_resource form) = Some m"
    "\<And>now jti. issued_claims (rt_token_service rt)
       \<lparr>pol_mappings = pol_mappings (policy_of (sv_store x)), pol_scopes = pol_scopes (policy_of (sv_store y))\<rparr>
       now jti (ef_resource form) (requested_scopes form) (ef_audience form) client
       (participant_claims (rt_token_service rt) now (ef_resource form) (snd va) (token_custom (vr_claims (fst va)) client jti))"
proof -
  from assms(4,5) obtain m s where task: "ExLookedUp form client m \<in># sy_tasks y"
      and ex: "exchange_expand (rt_token_service rt) rs form client m (sv_store y) = (Ok va, s)"
    by (auto elim: system_stepE)
  from run_justified [OF assms(1,3) task] obtain a x b where h: "h = a @ (x, ExchangeLookedUp form client m) # b"
      and ver: "verified_in vouched rt a form client"
    by (auto simp: looked_up_in_def)
  note run = run_prefix [OF assms(1) h]
  note inv = run_invar [OF run assms(2)]
  obtain x' where "system_step sp it fb env rt x (ExchangeLookedUp form client m) x'"
    using run_step_at [OF assms(1) h] by blast
  with assms(5) obtain s1 where
      "exchange_lookup rs form client (sv_store x) = (Ok m :: (resource_mapping, 'g exchange_api_error) result, s1)"
    by (auto elim: system_stepE)
  from st.exchange_lookup_found(3) [OF assms(5) inv this refl]
  have m: "pol_mappings (policy_of (sv_store x)) (tc_sub client, ef_resource form) = Some m" .
  show thesis
    by (rule that [OF h ver run inv m st.exchange_expand_issued(3) [OF assms(5) run_invar [OF assms(1,2)] ex refl m]])
qed

end

subsection \<open>The assembled runtime over the memory store\<close>

abbreviation configured_holds :: "jwtlet_config \<Rightarrow> str \<Rightarrow> str \<Rightarrow> bool" where
  "configured_holds cfg \<equiv> account_holds (configured_accounts (jc_service_accounts cfg))"

interpretation memory_exchange: reliable_exchange
  "build_token_service pf cfg memory_store vc aud daud iss" mem_policy mem_invar "\<lambda>m. m" "k8s_vouched (pf_k8s pf)"
  for pf :: "('w, 'c, 'vc, 'kr, 'g) platform" and cfg vc aud daud iss
  using mem.store_contract_axioms mem.reliable_store_axioms k8s.token_verifier_axioms
  by (simp add: reliable_exchange_def exchange_setting_def)

interpretation memory_system: system_setting None
  "build_runtime pf cfg memory_store vc kr aud daud iss kv mv" mem_policy mem_invar "\<lambda>m. m" "k8s_vouched (pf_k8s pf)"
  "configured_holds cfg"
  for pf :: "('w, 'c, 'vc, 'kr, 'g) platform" and cfg vc and kr :: 'kr and aud daud iss kv mv
  using mem.store_contract_axioms k8s.token_verifier_axioms accounts.role_authorizer_axioms
  by (simp add: system_setting_def exchange_setting_def management_setting_def no_steps.resolve_in_steps_axioms)

text \<open>The same over the Postgres store, whose lookup is in two steps.\<close>

sublocale sql_database \<subseteq> pg_system: system_setting "Some (pg_steps it pg)"
  "build_runtime pf cfg (postgres_store it pg) vc kr aud daud iss kv mv" "\<lambda>db. pg_policy (tables db)" db_ok "pg_keep jsonb"
  "k8s_vouched (pf_k8s pf)" "configured_holds cfg"
  for pf :: "('w, 'c, 'vc, 'kr, 'g) platform" and cfg vc and kr :: 'kr and aud daud iss kv mv
  using pg_contract.store_contract_axioms k8s.token_verifier_axioms accounts.role_authorizer_axioms
    pg_in_steps.resolve_in_steps_axioms
  by (simp add: system_setting_def exchange_setting_def management_setting_def)

end
