(* ===== verification/Sample_System.thy ===== *)
theory Sample_System
  imports Server_Runs
begin

section \<open>A concrete system\<close>

text \<open>
  A small closed instance of everything the model leaves open: an API server that knows two
  service accounts, a platform whose calls succeed, a configuration, requests of an
  administrator and of a client. The witnesses of the properties are evaluated on it.
\<close>

definition admin_name :: str where
  "admin_name = lit ''system:serviceaccount:ops:admin''"

definition client_name :: str where
  "client_name = lit ''system:serviceaccount:edc:connector''"

definition sample_user :: "str \<Rightarrow> user_info" where
  "sample_user name = \<lparr>ui_username = name, ui_uid = Some (lit ''uid-1''), ui_groups = [SERVICE_ACCOUNTS_GROUP]\<rparr>"

definition sample_review :: "token_review_request \<Rightarrow> token_review_status" where
  "sample_review rq =
     (if rq_token rq = lit ''admin-token''
      then \<lparr>ts_authenticated = True, ts_user = Some (sample_user admin_name), ts_error = None,
            ts_audiences = rq_audiences rq\<rparr>
      else if rq_token rq = lit ''client-token''
      then \<lparr>ts_authenticated = True, ts_user = Some (sample_user client_name), ts_error = None,
            ts_audiences = rq_audiences rq\<rparr>
      else \<lparr>ts_authenticated = False, ts_user = None, ts_error = None, ts_audiences = []\<rparr>)"

definition sample_env :: "unit k8s_env" where
  "sample_env =
     \<lparr>env_post = (\<lambda>rq w. (if rq_bearer rq = lit ''sa-token'' then Replied 201 (Ok (sample_review rq))
                          else Replied 401 (Err []), w)),
      env_read = (\<lambda>_ w. (Ok (lit ''sa-token'' @ [10]), w)),
      env_new_watcher = (\<lambda>w. (Ok (), w)),
      env_watch = (\<lambda>_ w. (Ok (), w)),
      env_status_text = show_nat\<rparr>"

definition sample_verifier :: k8s_verifier where
  "sample_verifier =
     \<lparr>kv_api_server_url = lit ''https://k8s'', kv_cluster_issuer = lit ''https://issuer'',
      kv_token_file = lit ''/token'', kv_require_service_account = True,
      kv_state = Some (lit ''sa-token''), kv_renewal_handle = True\<rparr>"

definition sample_config :: jwtlet_config where
  "sample_config = default_config\<lparr>
     jc_issuer := Some (lit ''https://jwtlet''),
     jc_k8s := \<lparr>kc_api_server_url = Some (lit ''https://k8s''), kc_cluster_issuer = Some (lit ''https://issuer''),
                kc_token_file = lit ''/token''\<rparr>,
     jc_token := default_token_config\<lparr>tk_client_audience := Some (lit ''jwtlet''), tk_audience := Some (lit ''edc'')\<rparr>,
     jc_vault := \<lparr>vc_url = Some (lit ''https://vault''), vc_token = None, vc_token_file = Some (lit ''/vault'')\<rparr>,
     jc_service_accounts := [(admin_name, [ROLE_MANAGEMENT_READ, ROLE_MAPPINGS_WRITE, ROLE_SCOPES_WRITE])]\<rparr>"

definition sample_platform :: "(unit, unit, unit, unit, unit) platform" where
  "sample_platform =
     \<lparr>pf_k8s = sample_env, pf_temp_dir = lit ''/tmp'', pf_new_uuid = (\<lambda>w. (lit ''0'', w)),
      pf_create_new = (\<lambda>_ _ w. (Ok (), w)), pf_write_all = (\<lambda>_ _ w. (Ok (), w)),
      pf_exists = (\<lambda>_ _. False), pf_read_file = (\<lambda>_ w. (Ok [], w)), pf_parse_cert = (\<lambda>_. Ok ()),
      pf_build_client = (\<lambda>_. Ok ()), pf_vault_new = (\<lambda>_. Ok ()), pf_vault_init = (\<lambda>_ w. (Ok (), w)),
      pf_key_resolver_init = (\<lambda>_ _ w. (Ok (), w)),
      pf_generator = (\<lambda>_ _ _ cl. Ok (lit ''signed:'' @ tc_sub cl))\<rparr>"

definition sample_service :: "(k8s_verifier \<times> unit, inner_store, unit) token_exchange_service" where
  "sample_service = build_token_service sample_platform sample_config memory_store ()
     (lit ''jwtlet'') (lit ''edc'') (lit ''https://jwtlet'')"

definition sample_runtime :: "(unit, inner_store, unit, unit) jwtlet_runtime" where
  "sample_runtime = build_runtime sample_platform sample_config memory_store () ()
     (lit ''jwtlet'') (lit ''edc'') (lit ''https://jwtlet'') sample_verifier sample_verifier"

definition sample_mapping :: resource_mapping where
  "sample_mapping = \<lparr>rm_client_identifier = client_name, rm_participant_context = lit ''ctx'',
     rm_scopes = {|lit ''read''|}, rm_audiences = {||}\<rparr>"

definition sample_scope :: scope_mapping where
  "sample_scope = \<lparr>sm_scope = lit ''read'', sm_claims = [(lit ''role'', JString (lit ''reader''))]\<rparr>"

definition sample_store :: inner_store where
  "sample_store = \<lparr>entries = [(rm_key sample_mapping, sample_mapping)],
     scope_mappings = [(lit ''read'', sample_scope)]\<rparr>"

definition sample_form :: token_exchange_form where
  "sample_form = \<lparr>ef_grant_type = TOKEN_EXCHANGE_GRANT_TYPE, ef_subject_token = lit ''client-token'',
     ef_subject_token_type = ISSUED_TOKEN_TYPE, ef_resource = lit ''ctx'', ef_scope = Some (lit ''read''),
     ef_audience = None\<rparr>"

definition sample_request :: "http_method \<Rightarrow> str list \<Rightarrow> mgmt_request" where
  "sample_request meth path = \<lparr>mr_method = meth, mr_path = path,
     mr_authorization = Some (lit ''Bearer admin-token''),
     mr_mapping_body = Ok sample_mapping, mr_scope_body = Ok sample_scope,
     mr_scopes_body = Ok (Many [sample_scope])\<rparr>"

definition sample_fallback :: "mgmt_request \<Rightarrow> k8s_verifier \<times> unit \<Rightarrow> nat \<times> (k8s_verifier \<times> unit)" where
  "sample_fallback req v = (405, v)"

definition https_scheme :: "str \<Rightarrow> str option" where
  "https_scheme url = Some (lit ''https'')"

lemmas sample_defs = admin_name_def client_name_def sample_user_def sample_review_def sample_env_def
  sample_verifier_def sample_config_def sample_platform_def sample_service_def sample_runtime_def
  sample_mapping_def sample_scope_def sample_store_def sample_form_def sample_request_def
  sample_fallback_def https_scheme_def

lemma sample_store_invar: "mem_invar sample_store"
  by (simp add: mem_invar_def sample_store_def hash_map_ok_def filed_by_def sample_scope_def)

lemma sample_verify:
  "k8s_verify_token sample_env aud (lit ''client-token'') (sample_verifier, ())
     = (Ok \<lparr>tc_sub = client_name, tc_iss = lit ''https://issuer'', tc_aud = aud, tc_iat = 0, tc_exp = 0,
            tc_nbf = None, tc_custom = [(K8S_UID_CLAIM, JString (lit ''uid-1''))]\<rparr>, (sample_verifier, ()))"
  by code_simp

lemma sample_config_valid: "valid_config https_scheme (\<lambda>_. True) sample_config"
  by (simp add: valid_config_def config_rules_def storage_rules_def url_ok_def https_ok_def ttl_ok_def
      sample_config_def default_config_def default_token_config_def https_scheme_def DEFAULT_TOKEN_TTL_SECS_def
      MAX_TOKEN_TTL_SECS_def DEFAULT_PARTICIPANT_CONTEXT_CLAIM_def DEFAULT_TOKEN_EXCHANGE_PORT_def
      DEFAULT_MANAGEMENT_PORT_def)

end
