(* ===== verification/Policy_Properties.thy ===== *)
theory Policy_Properties
  imports Sample_System
begin

section \<open>Properties of the policy, its stores and the resource service\<close>

text \<open>
  The memory store against the abstract policy, the Postgres store against the contract of
  the stores, and the service that admits only valid mappings.
\<close>

subsection \<open>The memory store\<close>

text \<open>C10: Every operation of the memory store refines its counterpart on the abstract policy:
  the same answer, and the policy of the new state is the new policy.\<close>

theorem memory_store_refines_policy:
  "mem_resolve_mapping c p s = (Ok (spec_resolve (mem_policy s) c p), s)
   \<and> (fst (mem_save_mapping m s), mem_policy (snd (mem_save_mapping m s))) = spec_save m (mem_policy s)
   \<and> (fst (mem_update_mapping m s), mem_policy (snd (mem_update_mapping m s))) = spec_update m (mem_policy s)
   \<and> (fst (mem_remove_mapping c p s), mem_policy (snd (mem_remove_mapping c p s))) = spec_remove c p (mem_policy s)
   \<and> (fst (mem_remove_mappings_for c s), mem_policy (snd (mem_remove_mappings_for c s)))
       = spec_remove_for c (mem_policy s)
   \<and> (fst (mem_save_scope_mappings ms s), mem_policy (snd (mem_save_scope_mappings ms s)))
       = spec_save_scopes ms (mem_policy s)
   \<and> (fst (mem_update_scope_mapping sm s), mem_policy (snd (mem_update_scope_mapping sm s)))
       = spec_update_scope sm (mem_policy s)
   \<and> (fst (mem_remove_scope_mapping sc s), mem_policy (snd (mem_remove_scope_mapping sc s)))
       = spec_remove_scope sc (mem_policy s)"
  by (intro conjI mem_resolve_refines mem_save_refines mem_update_refines mem_remove_refines
      mem_remove_for_refines mem_save_scopes_refines mem_update_scope_refines mem_remove_scope_refines)

text \<open>C24: Every operation of the memory store keeps its invariant: keys are distinct and every
  entry is filed under its own client and context, or its own scope.\<close>

theorem memory_store_invariant:
  assumes "mem_invar s"
  shows "mem_invar (snd (mem_save_mapping m s)) \<and> mem_invar (snd (mem_update_mapping m s))
    \<and> mem_invar (snd (mem_remove_mapping c p s)) \<and> mem_invar (snd (mem_remove_mappings_for c s))
    \<and> mem_invar (snd (mem_save_scope_mappings ms s)) \<and> mem_invar (snd (mem_update_scope_mapping sm s))
    \<and> mem_invar (snd (mem_remove_scope_mapping sc s))"
  using assms by (intro conjI mem_invar_save mem_invar_update mem_invar_remove mem_invar_remove_for
      mem_invar_save_scopes mem_invar_update_scope mem_invar_remove_scope)

theorem memory_store_invariant_witness:
  "mem_invar (snd (mem_save_mapping sample_mapping mem_new))
   \<and> entries (snd (mem_save_mapping sample_mapping mem_new)) = [(rm_key sample_mapping, sample_mapping)]"
  using memory_store_invariant [OF mem_invar_new, of sample_mapping]
  by (simp add: mem_save_mapping_def mem_new_def Let_def)

text \<open>A batch of scope mappings is all or nothing: with pairwise different scopes that are
  all new, every one is stored and no other scope is touched; otherwise the answer is a
  conflict on a scope of the batch and nothing changed.\<close>

lemma scope_batch_atomic:
  assumes "mem_save_scope_mappings ms s = (r, s')"
  shows "if distinct (map sm_scope ms) \<and> (\<forall>m\<in>set ms. map_of (scope_mappings s) (sm_scope m) = None)
    then r = Ok () \<and> entries s' = entries s
      \<and> (\<forall>m\<in>set ms. map_of (scope_mappings s') (sm_scope m) = Some m)
      \<and> (\<forall>sc. sc \<notin> sm_scope ` set ms \<longrightarrow> map_of (scope_mappings s') sc = map_of (scope_mappings s) sc)
    else s' = s \<and> (\<exists>m\<in>set ms. r = Err (Conflict (sm_scope m)))"
proof -
  let ?taken = "dom (map_of (scope_mappings s))"
  have free: "distinct (map sm_scope ms) \<and> (\<forall>m\<in>set ms. map_of (scope_mappings s) (sm_scope m) = None)
      \<longleftrightarrow> first_conflict ?taken ms = None"
    unfolding first_conflict_None_iff by (auto simp: domIff)
  show ?thesis
  proof (cases "first_conflict ?taken ms")
    case None
    with assms have "r = Ok ()" "s' = s\<lparr>scope_mappings := fold (\<lambda>m sms. AList.update (sm_scope m) m sms) ms (scope_mappings s)\<rparr>"
      by (simp_all add: mem_save_scope_mappings_def mem_check_batch_eq)
    with None free show ?thesis
      by (auto simp: map_of_fold_update add_scopes_mem add_scopes_other)
  next
    case (Some sc)
    with assms have "r = Err (Conflict sc)" "s' = s"
      by (simp_all add: mem_save_scope_mappings_def mem_check_batch_eq)
    with Some free first_conflict_SomeD [OF Some] show ?thesis by auto
  qed
qed

subsection \<open>The resource service\<close>

text \<open>C23: The service refuses what is not valid and does not touch the store: a resource mapping
  with an empty client, context or audience or a malformed scope name, and a batch or update
  of scope mappings with a malformed scope or a reserved claim name. What it admits reaches
  the store unchanged.\<close>

theorem service_validates_writes:
  assumes "valid_iter it"
  shows "(if valid_resource_mapping m
      then svc_save it ops m s = st_save_mapping ops m s \<and> svc_update it ops m s = st_update_mapping ops m s
      else \<exists>msg. svc_save it ops m s = (Err (InvalidMapping msg), s) \<and> svc_update it ops m s = (Err (InvalidMapping msg), s))
    \<and> (if \<forall>x\<in>set sms. valid_scope_mapping x
      then svc_save_scope_mappings ops sms s = st_save_scope_mappings ops sms s
      else \<exists>x\<in>set sms. \<exists>e. validate_scope_mapping x = Err e \<and> svc_save_scope_mappings ops sms s = (Err e, s))
    \<and> (if valid_scope_mapping sm
      then svc_update_scope_mapping ops sm s = st_update_scope_mapping ops sm s
      else \<exists>e. svc_update_scope_mapping ops sm s = (Err e, s))"
proof (intro conjI)
  show "if valid_resource_mapping m
      then svc_save it ops m s = st_save_mapping ops m s \<and> svc_update it ops m s = st_update_mapping ops m s
      else \<exists>msg. svc_save it ops m s = (Err (InvalidMapping msg), s) \<and> svc_update it ops m s = (Err (InvalidMapping msg), s)"
    using invalid_resource_mapping [OF assms, of m] by (auto simp: svc_save_eq svc_update_eq assms)
  show "if \<forall>x\<in>set sms. valid_scope_mapping x
      then svc_save_scope_mappings ops sms s = st_save_scope_mappings ops sms s
      else \<exists>x\<in>set sms. \<exists>e. validate_scope_mapping x = Err e \<and> svc_save_scope_mappings ops sms s = (Err e, s)"
  proof (cases "\<forall>x\<in>set sms. valid_scope_mapping x")
    case False
    then obtain x e where "x \<in> set sms" "validate_scope_mapping x = Err e" "for_each_check validate_scope_mapping sms = Err e"
      by (rule invalid_scope_batch)
    with False show ?thesis by (auto simp: svc_save_scope_mappings_def)
  qed (simp add: svc_save_scope_mappings_eq)
  show "if valid_scope_mapping sm
      then svc_update_scope_mapping ops sm s = st_update_scope_mapping ops sm s
      else \<exists>e. svc_update_scope_mapping ops sm s = (Err e, s)"
    using invalid_scope_mapping [of sm] by (auto simp: svc_update_scope_mapping_eq)
qed

theorem service_validates_writes_witness:
  "\<exists>e. svc_update_scope_mapping memory_store \<lparr>sm_scope = lit ''read'', sm_claims = [(lit ''sub'', JNull)]\<rparr> sample_store
     = (Err e, sample_store)"
proof -
  have "\<not> valid_scope_mapping \<lparr>sm_scope = lit ''read'', sm_claims = [(lit ''sub'', JNull)]\<rparr>"
    by (simp add: valid_scope_mapping_def is_reserved_claim_iff)
  with service_validates_writes [OF valid_iter_sorted, of undefined memory_store sample_store "[]"
      "\<lparr>sm_scope = lit ''read'', sm_claims = [(lit ''sub'', JNull)]\<rparr>"]
  show ?thesis by argo
qed

lemma service_keeps_policy_valid:
  assumes "mem_invar s" "policy_valid (mem_policy s)" "valid_iter it"
  shows "policy_valid (mem_policy (snd (svc_save it memory_store m s)))
    \<and> policy_valid (mem_policy (snd (svc_update it memory_store m s)))
    \<and> policy_valid (mem_policy (snd (svc_remove memory_store c p s)))
    \<and> policy_valid (mem_policy (snd (svc_remove_for memory_store c s)))
    \<and> policy_valid (mem_policy (snd (svc_save_scope_mappings memory_store ms s)))
    \<and> policy_valid (mem_policy (snd (svc_update_scope_mapping memory_store sm s)))
    \<and> policy_valid (mem_policy (snd (svc_delete_scope_mapping memory_store sc s)))"
  by (intro conjI mem.svc_writes_keep_valid [OF assms])

subsection \<open>The Postgres store\<close>

text \<open>C11: Over any database with the documented behaviour of its statements, primary keys and
  transactions, the Postgres store meets the contract of the stores: every answer is the one
  of the abstract policy, or a database error after which the operation has taken effect
  entirely or not at all.\<close>

theorem postgres_meets_contract:
  assumes "sql_database it pg tables view db_ok tx_ok jsonb"
  shows "store_contract (postgres_store it pg) (\<lambda>db. pg_policy (tables db)) db_ok (pg_keep jsonb)"
  using assms by (rule sql_database.is_store_contract)

theorem postgres_meets_contract_witness:
  "store_contract (postgres_store sorted_list_of_fset ref_pg) (\<lambda>db. pg_policy (ref_tables db)) ref_ok (pg_keep (\<lambda>j. j))"
  by (rule postgres_meets_contract) (rule ref_database.sql_database_axioms)

text \<open>C12: The two stores are interchangeable: driven by the same sequence of writes from the same
  policy, with a database that does not fail and keeps claim values as they are, the Postgres
  store gives the same answers as the memory store and ends in the same policy.\<close>

theorem postgres_and_memory_agree:
  assumes "sql_database it pg tables view db_ok tx_ok jsonb" "\<forall>m. pg_keep jsonb m = m"
    and "db_ok db" "mem_invar s" "pg_policy (tables db) = mem_policy s"
    and "run_writes (postgres_store it pg) ws db = (rs, db')" "list_all no_db_error rs"
    and "run_writes memory_store ws s = (rs', s')"
  shows "rs = rs' \<and> pg_policy (tables db') = mem_policy s'"
proof -
  have keep: "pg_keep jsonb = (\<lambda>m. m)" using assms(2) by blast
  have "(rs, pg_policy (tables db')) = spec_writes (\<lambda>m. m) ws (pg_policy (tables db))"
    using store_contract.run_writes_exact [OF sql_database.is_store_contract [OF assms(1)] assms(3,6,7)]
    unfolding keep .
  moreover have "(rs', mem_policy s') = spec_writes (\<lambda>m. m) ws (mem_policy s)"
    using mem.run_writes_exact [OF assms(4,8)] mem.run_writes_reliable [OF assms(4), of ws] assms(8) by simp
  ultimately show ?thesis using assms(5) by (metis prod.inject)
qed

lemma ref_keep: "pg_keep (\<lambda>j. j) m = m"
  by (simp add: pg_keep_def pg_scope_def row_to_scope_mapping_def scope_row_def)

theorem postgres_and_memory_agree_witness:
  "\<exists>db'. run_writes (postgres_store sorted_list_of_fset ref_pg) [SaveScopes [sample_scope], SaveScopes [sample_scope]]
       \<lparr>rd_mappings = [], rd_scopes = []\<rparr> = ([Ok (), Err (Conflict (lit ''read''))], db')
     \<and> pg_policy (ref_tables db')
       = mem_policy (snd (run_writes memory_store [SaveScopes [sample_scope], SaveScopes [sample_scope]] mem_new))"
proof -
  let ?ws = "[SaveScopes [sample_scope], SaveScopes [sample_scope]]"
  let ?db = "\<lparr>rd_mappings = [], rd_scopes = []\<rparr>"
  obtain rs db' where pg: "run_writes (postgres_store sorted_list_of_fset ref_pg) ?ws ?db = (rs, db')"
    by (rule prod.exhaust)
  obtain rs' s' where mem: "run_writes memory_store ?ws mem_new = (rs', s')"
    by (rule prod.exhaust)
  have ok: "ref_ok ?db" by (simp add: ref_ok_def)
  have pol: "pg_policy (ref_tables ?db) = mem_policy mem_new"
    by (simp add: pg_policy_def ref_tables_def mem_policy_def mem_new_def)
  have "fst (run_writes (postgres_store sorted_list_of_fset ref_pg) ?ws ?db) = [Ok (), Err (Conflict (lit ''read''))]"
    by code_simp
  with pg have rs: "rs = [Ok (), Err (Conflict (lit ''read''))]" by simp
  then have "list_all no_db_error rs" by (simp add: no_db_error_def)
  from postgres_and_memory_agree [OF ref_database.sql_database_axioms _ ok mem_invar_new pol pg this mem]
  show ?thesis using pg mem rs ref_keep by simp
qed

end
