(* ===== verification/Token_Renewal.thy ===== *)
theory Token_Renewal
  imports Jwt_Types
begin

section \<open>Renewal of the service account token\<close>

text \<open>
  \<^verbatim>\<open>crates/jwtlet-core/src/k8s/renewal.rs\<close>, with the concurrent writer
  \<^verbatim>\<open>refresh_sa_token\<close> of \<^verbatim>\<open>k8s/mod.rs\<close>: a watcher puts file events into a
  bounded channel, a task waits for a relevant one, re-reads the file and stores the
  trimmed contents; a refused review makes a request handler do the same. The task and the
  handler read the file and take the write lock in two steps, so the file may change in
  between.
\<close>

subsection \<open>The trigger\<close>

text \<open>The kinds of \<^verbatim>\<open>notify::EventKind\<close>.\<close>

datatype event_kind = AnyEvent | Access | Create | Modify | Remove | OtherEvent

type_synonym watch_event = "(event_kind, str) result"

definition CHANNEL_CAPACITY :: nat where
  "CHANNEL_CAPACITY = 100"

text \<open>\<^verbatim>\<open>try_send\<close> drops the event when the channel is full.\<close>

definition try_send :: "watch_event \<Rightarrow> watch_event list \<Rightarrow> watch_event list" where
  "try_send ev q = (if length q < CHANNEL_CAPACITY then q @ [ev] else q)"

definition fires :: "event_kind \<Rightarrow> bool" where
  "fires k \<longleftrightarrow> k = Modify \<or> k = Create \<or> k = Remove"

text \<open>
  The loop over the channel: \<open>None\<close> when it still waits, with the irrelevant events
  consumed. \<open>closed\<close> says that the sender is gone.
\<close>

fun wait_for_trigger ::
    "bool \<Rightarrow> watch_event list \<Rightarrow> (unit, jwt_verification_error) result option \<times> watch_event list" where
  "wait_for_trigger closed [] =
     (if closed then Some (Err (VerificationFailed (lit ''File watcher channel closed''))) else None, [])"
| "wait_for_trigger closed (Ok k # q) = (if fires k then (Some (Ok ()), q) else wait_for_trigger closed q)"
| "wait_for_trigger closed (Err e # q) = (Some (Err (VerificationFailed (lit ''File watch error: '' @ e))), q)"

definition fires_event :: "watch_event \<Rightarrow> bool" where
  "fires_event ev \<longleftrightarrow> (\<exists>k. ev = Ok k \<and> fires k)"

lemma fires_event_simps [simp]: "fires_event (Ok k) = fires k" "\<not> fires_event (Err e)"
  by (auto simp: fires_event_def)

subsection \<open>The renewal task and its environment\<close>

datatype renewer_phase = NotStarted | Waiting | Reading | Writing str | Stopped

text \<open>
  \<open>rn_file\<close> is the file as a reader finds it now; \<open>rn_watching\<close> says that the watcher has been
  registered; \<open>rn_refreshes\<close> are the tokens that request handlers have read after a refused
  review and not yet stored. The last three fields record the past for the statements: the
  contents the file has had, whether a relevant event has reached the channel since the file
  last changed, and whether the file changed between the read and the write of a refresh.
\<close>

record renewal_state =
  rn_token :: str
  rn_file :: "(str, str) result"
  rn_watching :: bool
  rn_queue :: "watch_event list"
  rn_phase :: renewer_phase
  rn_shutdown :: bool
  rn_refreshes :: "str list"
  rn_contents :: "str set"
  rn_noticed :: bool
  rn_overtaken :: bool

text \<open>
  \<^verbatim>\<open>initialize\<close> has just read the file: the watcher is created after that, and the task
  is started last.
\<close>

definition renewal_start :: "str \<Rightarrow> renewal_state" where
  "renewal_start raw =
     \<lparr>rn_token = trim raw, rn_file = Ok raw, rn_watching = False, rn_queue = [], rn_phase = NotStarted,
      rn_shutdown = False, rn_refreshes = [], rn_contents = {raw}, rn_noticed = True, rn_overtaken = False\<rparr>"

definition pending :: "renewal_state \<Rightarrow> bool" where
  "pending s \<longleftrightarrow> (\<exists>ev\<in>set (rn_queue s). fires_event ev)"

text \<open>
  The callback of the watcher. A relevant event counts as noticed when it enters the channel,
  or when a full channel drops it but holds another relevant one.
\<close>

definition sends :: "watch_event \<Rightarrow> renewal_state \<Rightarrow> renewal_state" where
  "sends ev s = s\<lparr>rn_queue := try_send ev (rn_queue s),
     rn_noticed := (rn_noticed s \<or> fires_event ev \<and> (length (rn_queue s) < CHANNEL_CAPACITY \<or> pending s))\<rparr>"

text \<open>\<^verbatim>\<open>Drop\<close> of the handle tells the task to stop.\<close>

definition drop_handle :: "renewal_state \<Rightarrow> renewal_state" where
  "drop_handle s = s\<lparr>rn_shutdown := True\<rparr>"

text \<open>
  The steps of the task itself: the loop of \<^verbatim>\<open>SaTokenRenewer::start\<close>. Events that do not
  trigger are consumed; with an empty channel the task sleeps.
\<close>

inductive task_step :: "renewal_state \<Rightarrow> renewal_state \<Rightarrow> bool" where
  triggered: "rn_phase s = Waiting \<Longrightarrow> wait_for_trigger False (rn_queue s) = (Some (Ok ()), q) \<Longrightarrow>
    task_step s (s\<lparr>rn_queue := q, rn_phase := Reading\<rparr>)"
| skipped: "rn_phase s = Waiting \<Longrightarrow> rn_queue s \<noteq> [] \<Longrightarrow> wait_for_trigger False (rn_queue s) = (None, q) \<Longrightarrow>
    task_step s (s\<lparr>rn_queue := q\<rparr>)"
| trigger_failed: "rn_phase s = Waiting \<Longrightarrow> wait_for_trigger False (rn_queue s) = (Some (Err e), q) \<Longrightarrow>
    task_step s (s\<lparr>rn_queue := q, rn_phase := Stopped\<rparr>)"
| read_ok: "rn_phase s = Reading \<Longrightarrow> rn_file s = Ok raw \<Longrightarrow>
    task_step s (s\<lparr>rn_phase := Writing (trim raw)\<rparr>)"
| read_failed: "rn_phase s = Reading \<Longrightarrow> rn_file s = Err e \<Longrightarrow> task_step s (s\<lparr>rn_phase := Waiting\<rparr>)"
| written: "rn_phase s = Writing t \<Longrightarrow> task_step s (s\<lparr>rn_token := t, rn_phase := Waiting\<rparr>)"
| shut_down: "rn_phase s = Waiting \<Longrightarrow> rn_shutdown s \<Longrightarrow> task_step s (s\<lparr>rn_phase := Stopped\<rparr>)"

inductive_cases task_stepE: "task_step s s'"

text \<open>
  The task among the others: the rest of \<^verbatim>\<open>initialize\<close>, the kubelet that rotates the file,
  the watcher, the owner of the handle, and the request handlers that refresh after a 401,
  which exist only once \<^verbatim>\<open>initialize\<close> has returned. A change of the file and the event the
  watcher may report for it are separate steps: the event may come late, more than once or
  never (the watch is on the file, and the file may be replaced), and what happens before the
  watcher is registered is not reported.
\<close>

inductive renewal_step :: "renewal_state \<Rightarrow> renewal_state \<Rightarrow> bool" where
  by_task: "task_step s s' \<Longrightarrow> renewal_step s s'"
| watcher_registered: "\<not> rn_watching s \<Longrightarrow> renewal_step s (s\<lparr>rn_watching := True\<rparr>)"
| task_started: "rn_watching s \<Longrightarrow> rn_phase s = NotStarted \<Longrightarrow> renewal_step s (s\<lparr>rn_phase := Waiting\<rparr>)"
| file_changed: "renewal_step s (s\<lparr>rn_file := c,
      rn_contents := (case c of Ok raw \<Rightarrow> insert raw (rn_contents s) | Err _ \<Rightarrow> rn_contents s),
      rn_noticed := False, rn_overtaken := (rn_overtaken s \<or> rn_refreshes s \<noteq> [])\<rparr>)"
| watcher_event: "rn_watching s \<Longrightarrow> renewal_step s (sends ev s)"
| handle_dropped: "rn_phase s \<noteq> NotStarted \<Longrightarrow> renewal_step s (drop_handle s)"
| refresh_read: "rn_phase s \<noteq> NotStarted \<Longrightarrow> rn_file s = Ok raw \<Longrightarrow>
    renewal_step s (s\<lparr>rn_refreshes := trim raw # rn_refreshes s\<rparr>)"
| refresh_written: "t \<in> set (rn_refreshes s) \<Longrightarrow>
    renewal_step s (s\<lparr>rn_token := t, rn_refreshes := remove1 t (rn_refreshes s)\<rparr>)"

inductive_cases renewal_stepE: "renewal_step s s'"

inductive renewal_reach :: "str \<Rightarrow> renewal_state \<Rightarrow> bool" for raw where
  renewal_init: "renewal_reach raw (renewal_start raw)"
| renewal_next: "renewal_reach raw s \<Longrightarrow> renewal_step s s' \<Longrightarrow> renewal_reach raw s'"

subsection \<open>Where the token comes from\<close>

definition token_known :: "renewal_state \<Rightarrow> bool" where
  "token_known s \<longleftrightarrow>
     rn_token s \<in> trim ` rn_contents s
     \<and> (\<forall>t. rn_phase s = Writing t \<longrightarrow> t \<in> trim ` rn_contents s)
     \<and> set (rn_refreshes s) \<subseteq> trim ` rn_contents s
     \<and> (\<forall>raw. rn_file s = Ok raw \<longrightarrow> raw \<in> rn_contents s)"

lemma sends_sel [simp]:
  "rn_token (sends ev s) = rn_token s" "rn_file (sends ev s) = rn_file s" "rn_phase (sends ev s) = rn_phase s"
  "rn_shutdown (sends ev s) = rn_shutdown s" "rn_refreshes (sends ev s) = rn_refreshes s"
  "rn_contents (sends ev s) = rn_contents s" "rn_overtaken (sends ev s) = rn_overtaken s"
  "rn_watching (sends ev s) = rn_watching s"
  by (simp_all add: sends_def)

lemma set_remove1D: "x \<in> set (remove1 t xs) \<Longrightarrow> x \<in> set xs"
  using set_remove1_subset by fastforce

lemma token_known_step: "renewal_step s s' \<Longrightarrow> token_known s \<Longrightarrow> token_known s'"
  by (erule renewal_stepE)
    (auto simp: token_known_def drop_handle_def split: result.splits elim!: task_stepE dest: set_remove1D)

lemma renewal_token_known: "renewal_reach raw s \<Longrightarrow> token_known s"
proof (induction rule: renewal_reach.induct)
  case renewal_init
  show ?case by (simp add: token_known_def renewal_start_def)
qed (rule token_known_step)

subsection \<open>The token is current or about to be\<close>

text \<open>
  Once a relevant event has reached the channel since the last change of the file, a task whose
  token is not the file's has a relevant event queued, and so has a task about to write contents
  that are no longer the file's; unless the task has stopped, a refresh was overtaken by a
  change, or the file is unreadable.
\<close>

definition token_current :: "renewal_state \<Rightarrow> bool" where
  "token_current s \<longleftrightarrow>
     rn_phase s = Stopped \<or> rn_overtaken s
     \<or> (\<forall>raw. rn_file s = Ok raw \<longrightarrow>
          (rn_noticed s \<longrightarrow>
             (rn_phase s \<in> {NotStarted, Waiting} \<longrightarrow> rn_token s = trim raw \<or> pending s)
             \<and> (\<forall>t. rn_phase s = Writing t \<longrightarrow> t = trim raw \<or> pending s))
          \<and> (\<forall>t\<in>set (rn_refreshes s). t = trim raw))"

lemma wait_none: "wait_for_trigger False q = (None, q') \<Longrightarrow> \<not> (\<exists>ev\<in>set q. fires_event ev)"
  by (induction "False" q rule: wait_for_trigger.induct) (auto split: if_splits)

lemma sends_pending: "pending (sends ev s) \<longleftrightarrow> pending s \<or> fires_event ev \<and> length (rn_queue s) < CHANNEL_CAPACITY"
  by (auto simp: pending_def sends_def try_send_def)

lemma sends_noticed:
  "rn_noticed (sends ev s) \<longleftrightarrow> rn_noticed s \<or> fires_event ev \<and> (length (rn_queue s) < CHANNEL_CAPACITY \<or> pending s)"
  by (simp add: sends_def)

lemma pending_update [simp]:
  "pending (s\<lparr>rn_file := c\<rparr>) = pending s" "pending (s\<lparr>rn_contents := X\<rparr>) = pending s"
  "pending (s\<lparr>rn_overtaken := b\<rparr>) = pending s" "pending (s\<lparr>rn_phase := ph\<rparr>) = pending s"
  "pending (s\<lparr>rn_token := tok\<rparr>) = pending s" "pending (s\<lparr>rn_refreshes := r\<rparr>) = pending s"
  "pending (s\<lparr>rn_shutdown := b\<rparr>) = pending s" "pending (s\<lparr>rn_watching := b\<rparr>) = pending s"
  "pending (s\<lparr>rn_noticed := b\<rparr>) = pending s"
  by (simp_all add: pending_def)

lemma token_current_task: "task_step s s' \<Longrightarrow> token_current s \<Longrightarrow> token_current s'"
proof (erule task_stepE)
  fix q
  assume "token_current s" "s' = s\<lparr>rn_queue := q\<rparr>" "rn_phase s = Waiting" "wait_for_trigger False (rn_queue s) = (None, q)"
  moreover from this have "\<not> pending s" by (simp add: pending_def wait_none)
  ultimately show "token_current s'" by (auto simp: token_current_def)
qed (auto simp: token_current_def)

lemma token_current_step: "renewal_step s s' \<Longrightarrow> token_current s \<Longrightarrow> token_current s'"
  by (erule renewal_stepE)
    (auto simp: token_current_def sends_pending sends_noticed drop_handle_def dest: token_current_task set_remove1D)

lemma renewal_token_current: "renewal_reach raw s \<Longrightarrow> token_current s"
proof (induction rule: renewal_reach.induct)
  case renewal_init
  show ?case by (simp add: token_current_def renewal_start_def)
qed (rule token_current_step)

text \<open>The channel never holds more than its capacity.\<close>

lemma wait_shrinks: "length (snd (wait_for_trigger closed q)) \<le> length q"
  by (induction closed q rule: wait_for_trigger.induct) auto

lemma task_queue_shrinks: "task_step s s' \<Longrightarrow> length (rn_queue s') \<le> length (rn_queue s)"
  using wait_shrinks [of False "rn_queue s"] by (auto elim!: task_stepE)

lemma renewal_channel_bounded: "renewal_reach raw s \<Longrightarrow> length (rn_queue s) \<le> CHANNEL_CAPACITY"
proof (induction rule: renewal_reach.induct)
  case renewal_init
  show ?case by (simp add: renewal_start_def)
next
  case (renewal_next s s')
  have send: "length (rn_queue (sends ev x)) \<le> CHANNEL_CAPACITY" if "length (rn_queue x) \<le> CHANNEL_CAPACITY" for ev x
    using that by (auto simp: sends_def try_send_def)
  from renewal_next.hyps(2) renewal_next.IH show ?case
    by (elim renewal_stepE) (auto simp: drop_handle_def intro!: send dest: task_queue_shrinks)
qed

text \<open>
  What the task does when nothing else happens: it comes to rest after a bounded number of
  steps, each event of the channel being worth at most three, and at rest it has caught up.
\<close>

definition task_rank :: "renewal_state \<Rightarrow> nat" where
  "task_rank s = 3 * length (rn_queue s)
     + (case rn_phase s of NotStarted \<Rightarrow> 0 | Waiting \<Rightarrow> 1 | Reading \<Rightarrow> 3 | Writing _ \<Rightarrow> 2 | Stopped \<Rightarrow> 0)"

lemma wait_consumes: "q \<noteq> [] \<Longrightarrow> length (snd (wait_for_trigger closed q)) < length q"
proof (induction closed q rule: wait_for_trigger.induct)
  case (2 closed k q)
  then show ?case by (cases "q = []") (auto simp: less_Suc_eq)
qed auto

lemma wait_answers_consumes:
  "wait_for_trigger False q = (Some x, q') \<Longrightarrow> length q' < length q"
  using wait_consumes [of q False] by (cases q) auto

lemma task_step_rank: "task_step s s' \<Longrightarrow> task_rank s' < task_rank s"
proof (erule task_stepE)
  fix q
  assume "s' = s\<lparr>rn_queue := q\<rparr>" "rn_queue s \<noteq> []" "wait_for_trigger False (rn_queue s) = (None, q)"
  moreover from this wait_consumes [of "rn_queue s" False] have "length q < length (rn_queue s)" by simp
  ultimately show "task_rank s' < task_rank s" by (simp add: task_rank_def)
qed (auto simp: task_rank_def dest!: wait_answers_consumes)

lemma task_steps_rank: "(task_step ^^ n) s s' \<Longrightarrow> n + task_rank s' \<le> task_rank s"
proof (induction n arbitrary: s')
  case (Suc n)
  then obtain s1 where "(task_step ^^ n) s s1" "task_step s1 s'" by auto
  with Suc.IH [of s1] task_step_rank [of s1 s'] show ?case by simp
qed simp

text \<open>What the task's own steps keep when nobody asks it to stop and the watcher reports no error.\<close>

definition task_healthy :: "str \<Rightarrow> renewal_state \<Rightarrow> bool" where
  "task_healthy raw s \<longleftrightarrow>
     rn_phase s \<notin> {NotStarted, Stopped} \<and> \<not> rn_shutdown s \<and> (\<forall>ev\<in>set (rn_queue s). is_ok ev)
     \<and> rn_file s = Ok raw \<and> rn_noticed s \<and> \<not> rn_overtaken s"

lemma wait_remaining: "set (snd (wait_for_trigger closed q)) \<subseteq> set q"
  by (induction closed q rule: wait_for_trigger.induct) auto

lemma wait_ok: "\<forall>ev\<in>set q. is_ok ev \<Longrightarrow> wait_for_trigger False q = (Some (Err e), q') \<Longrightarrow> False"
  by (induction "False" q rule: wait_for_trigger.induct) (auto split: if_splits)

lemma task_healthy_step: "task_step s s' \<Longrightarrow> task_healthy raw s \<Longrightarrow> task_healthy raw s'"
  by (erule task_stepE) (use wait_remaining [of False "rn_queue s"] in \<open>auto simp: task_healthy_def dest: wait_ok\<close>)

lemma task_steps_keep:
  "(task_step ^^ n) s s' \<Longrightarrow> task_healthy raw s \<Longrightarrow> token_current s \<Longrightarrow> task_healthy raw s' \<and> token_current s'"
proof (induction n arbitrary: s')
  case (Suc n)
  then obtain s1 where "(task_step ^^ n) s s1" "task_step s1 s'" by auto
  with Suc show ?case using task_healthy_step [of s1 s' raw] token_current_task [of s1 s'] by blast
qed simp

lemma task_rests:
  assumes "task_healthy raw s" "\<nexists>s'. task_step s s'"
  shows "rn_phase s = Waiting" "rn_queue s = []"
proof -
  have ph: "rn_phase s \<noteq> NotStarted" "rn_phase s \<noteq> Stopped" "rn_file s = Ok raw"
    using assms(1) by (auto simp: task_healthy_def)
  then show w: "rn_phase s = Waiting"
    using assms(2) read_ok [of s raw] written [of s] by (cases "rn_phase s") auto
  show "rn_queue s = []"
  proof (rule ccontr)
    assume ne: "rn_queue s \<noteq> []"
    obtain x q where q: "wait_for_trigger False (rn_queue s) = (x, q)" by (rule prod.exhaust)
    then show False
      using assms(2) w ne triggered [of s q] skipped [of s q] trigger_failed [of s _ q]
      by (cases x; cases "the x") (auto split: result.splits)
  qed
qed

lemma task_catches_up:
  assumes "token_current s" "task_healthy raw s" "(task_step ^^ n) s s'" "\<nexists>s''. task_step s' s''"
  shows "rn_phase s' = Waiting \<and> rn_token s' = trim raw"
proof -
  from task_steps_keep [OF assms(3,2,1)] have h: "task_healthy raw s'" and c: "token_current s'" by auto
  note rest = task_rests [OF h assms(4)]
  then have "\<not> pending s'" by (simp add: pending_def)
  with rest c h show ?thesis by (auto simp: token_current_def task_healthy_def)
qed

end
