(* ===== verification/Access_Properties.thy ===== *)
theory Access_Properties
  imports Sample_System Token_Renewal
begin

section \<open>Properties of authentication and authorization\<close>

text \<open>
  The Kubernetes verifier and the renewal of its token.
\<close>

lemma trim_sample: "trim (lit ''sa-token'' @ [10]) = lit ''sa-token''"
  by code_simp

subsection \<open>The Kubernetes verifier\<close>

text \<open>C13: A token is accepted only when the API server, asked with the pod's cached token or,
  after a 401, with the one just read from the file, answered with success that it
  authenticates a user for the audience asked for; subject and UID are that user's, the
  issuer is the configured one, and with the default setting the user is a service
  account.\<close>

theorem accepted_token_confirmed:
  assumes "k8s_verify_token env aud tok kvw = (Ok cl, kvw')"
  shows "\<exists>sa w code review w' u. review_attempt env kvw aud tok sa w
      \<and> env_post env (review_request (fst kvw) sa aud tok) w = (Replied code (Ok review), w')
      \<and> is_success code \<and> ts_authenticated review \<and> aud \<in> set (ts_audiences review) \<and> ts_user review = Some u
      \<and> (kv_require_service_account (fst kvw) \<longrightarrow> is_service_account u)
      \<and> tc_sub cl = ui_username u \<and> map_of (tc_custom cl) K8S_UID_CLAIM = uid_claim u
      \<and> tc_iss cl = kv_cluster_issuer (fst kvw) \<and> tc_aud cl = aud"
  using k8s.accepted_vouched [OF assms] unfolding k8s_vouched_def confirmed_user_def by blast

theorem accepted_token_confirmed_witness:
  "\<exists>u. is_service_account u \<and> ui_username u = client_name"
proof -
  note accepted_token_confirmed [OF sample_verify [of "lit ''jwtlet''"]]
  then show ?thesis by (auto simp: sample_verifier_def)
qed

text \<open>
  The same environment with a record of the requests sent to the API server.
\<close>

definition recorded :: "'w k8s_env \<Rightarrow> ('w \<times> token_review_request list) k8s_env" where
  "recorded env =
     \<lparr>env_post = (\<lambda>rq wl. case env_post env rq (fst wl) of (r, w') \<Rightarrow> (r, (w', snd wl @ [rq]))),
      env_read = (\<lambda>path wl. case env_read env path (fst wl) of (r, w') \<Rightarrow> (r, (w', snd wl))),
      env_new_watcher = (\<lambda>wl. case env_new_watcher env (fst wl) of (r, w') \<Rightarrow> (r, (w', snd wl))),
      env_watch = (\<lambda>path wl. case env_watch env path (fst wl) of (r, w') \<Rightarrow> (r, (w', snd wl))),
      env_status_text = env_status_text env\<rparr>"

text \<open>The API server refuses the pod's own credential.\<close>

definition credential_refused :: "http_reply \<Rightarrow> bool" where
  "credential_refused reply \<longleftrightarrow> (\<exists>body. reply = Replied 401 body) \<or> (\<exists>e. reply = SendFailed (Some 401) e)"

lemma call_recorded:
  "call_token_review (recorded env) kv sa aud tok (w, l)
     = (fst (call_token_review env kv sa aud tok w),
        (snd (env_post env (review_request kv sa aud tok) w), l @ [review_request kv sa aud tok]))"
  by (auto simp: call_token_review_def recorded_def split: prod.splits http_reply.splits)

lemma call_refused_iff:
  "(\<exists>e. fst (call_token_review env kv sa aud tok w) = Err (401, e))
     \<longleftrightarrow> credential_refused (fst (env_post env (review_request kv sa aud tok) w))"
  by (auto simp: call_token_review_def credential_refused_def is_success_def map_err_def
      split: prod.splits http_reply.splits option.splits result.splits)

lemma refresh_recorded:
  "kv_state kv \<noteq> None \<Longrightarrow> refresh_sa_token (recorded env) (kv, (w, l)) =
     (case env_read env (kv_token_file kv) w of
        (Ok raw, w') \<Rightarrow> (Ok (trim raw), (kv\<lparr>kv_state := Some (trim raw)\<rparr>, (w', l)))
      | (Err e, w') \<Rightarrow>
          (Err (VerificationFailed (lit ''Failed to re-read SA token file '' @ kv_token_file kv @ lit '': '' @ e)), (kv, (w', l))))"
  by (auto simp: refresh_sa_token_def recorded_def ensure_initialized_def ok_or_def Let_def
      split: prod.splits result.splits option.splits)

text \<open>
  What a verification may ask the API server, as the list of credentials it presents: nothing
  before initialisation; else the cached token, and after it the one the file holds exactly when
  the first was refused and the file can be read.
\<close>

definition presented :: "'w k8s_env \<Rightarrow> k8s_verifier \<Rightarrow> str \<Rightarrow> str \<Rightarrow> 'w \<Rightarrow> str list" where
  "presented env kv aud tok w =
     (case kv_state kv of
        None \<Rightarrow> []
      | Some sa \<Rightarrow>
          (let (reply, w1) = env_post env (review_request kv sa aud tok) w in
           sa # (if credential_refused reply
                 then (case fst (env_read env (kv_token_file kv) w1) of Ok raw \<Rightarrow> [trim raw] | Err _ \<Rightarrow> [])
                 else [])))"

text \<open>C31: A refused credential is retried exactly once, with the token just read from the file: a
  verification asks the API server nothing before it is initialised, once with the cached token
  otherwise, and a second time exactly when the answer was 401 and the file can be read; every
  request is for the caller's token and the audience asked for; the token read replaces the
  cached one, and nothing else changes the verifier; and when the first credential is refused
  and the file cannot be read the caller is rejected.\<close>

theorem refused_credential_retried_once:
  assumes "k8s_verify_token (recorded env) aud tok (kv, (w, log)) = (r, (kv', (w', log')))"
  shows "log' = log @ map (\<lambda>sa. review_request kv sa aud tok) (presented env kv aud tok w)
    \<and> kv' = (case presented env kv aud tok w of [_, fresh] \<Rightarrow> kv\<lparr>kv_state := Some fresh\<rparr> | _ \<Rightarrow> kv)
    \<and> (presented env kv aud tok w = [] \<longrightarrow> \<not> is_ok r)
    \<and> (\<forall>sa. presented env kv aud tok w = [sa] \<and> credential_refused (fst (env_post env (review_request kv sa aud tok) w))
         \<longrightarrow> \<not> is_ok r)"
proof (cases "kv_state kv")
  case None
  with assms show ?thesis
    by (auto simp: k8s_verify_token_def ensure_initialized_def presented_def)
next
  case (Some sa)
  obtain reply w1 where post: "env_post env (review_request kv sa aud tok) w = (reply, w1)" by (rule prod.exhaust)
  obtain r1 where r1: "fst (call_token_review env kv sa aud tok w) = r1" by blast
  have run: "k8s_verify_token (recorded env) aud tok (kv, (w, log)) =
      (case review_with_retry (recorded env) sa aud tok (kv, (w, log)) of
         (Err e, kvw') \<Rightarrow> (Err e, kvw')
       | (Ok review, kvw') \<Rightarrow> (claims_of_review (fst kvw') aud review, kvw'))"
    using Some by (simp add: k8s_verify_token_def ensure_initialized_def)
  have call: "call_token_review (recorded env) kv sa aud tok (w, log) = (r1, (w1, log @ [review_request kv sa aud tok]))"
    using r1 post by (simp add: call_recorded)
  show ?thesis
  proof (cases "credential_refused reply")
    case False
    then have p: "presented env kv aud tok w = [sa]" by (simp add: presented_def Some post)
    have "\<nexists>e. r1 = Err (401, e)" using False call_refused_iff [of env kv sa aud tok w] post r1 by simp
    with assms call run p False post show ?thesis
      by (auto simp: review_with_retry_def split: result.splits prod.splits if_splits)
  next
    case True
    then obtain e where e: "r1 = Err (401, e)" using call_refused_iff [of env kv sa aud tok w] post r1 by auto
    obtain rd w2 where rd: "env_read env (kv_token_file kv) w1 = (rd, w2)" by (rule prod.exhaust)
    show ?thesis
    proof (cases rd)
      case (Ok raw)
      then have p: "presented env kv aud tok w = [sa, trim raw]" by (simp add: presented_def Some post True rd)
      have "review_request (kv\<lparr>kv_state := Some (trim raw)\<rparr>) sa' aud tok = review_request kv sa' aud tok" for sa'
        by (simp add: review_request_def)
      with assms call run e Some rd Ok p show ?thesis
        by (auto simp: review_with_retry_def refresh_recorded call_recorded map_err_def split: result.splits prod.splits)
    next
      case (Err e')
      then have p: "presented env kv aud tok w = [sa]" by (simp add: presented_def Some post True rd)
      with assms call run e Some rd Err show ?thesis
        by (auto simp: review_with_retry_def refresh_recorded)
    qed
  qed
qed

theorem refused_credential_retried_once_witness:
  "snd (snd (snd (k8s_verify_token (recorded sample_env) (lit ''jwtlet'') (lit ''client-token'')
      (sample_verifier\<lparr>kv_state := Some (lit ''stale'')\<rparr>, ((), [])))))
   = map (\<lambda>sa. review_request (sample_verifier\<lparr>kv_state := Some (lit ''stale'')\<rparr>) sa (lit ''jwtlet'') (lit ''client-token''))
       [lit ''stale'', lit ''sa-token'']"
proof -
  let ?kv = "sample_verifier\<lparr>kv_state := Some (lit ''stale'')\<rparr>"
  obtain r kv' w' l where run: "k8s_verify_token (recorded sample_env) (lit ''jwtlet'') (lit ''client-token'')
      (?kv, ((), [])) = (r, (kv', (w', l)))"
    by (metis prod.exhaust)
  have "presented sample_env ?kv (lit ''jwtlet'') (lit ''client-token'') () = [lit ''stale'', lit ''sa-token'']"
    by (simp add: presented_def sample_verifier_def sample_env_def review_request_def credential_refused_def trim_sample)
  with refused_credential_retried_once [OF run] run show ?thesis by simp
qed

lemma initialisation_once:
  assumes "k8s_initialize env (kv, w) = (r, (kv', w'))" "kv_state kv = None"
  shows "(case r of
      Ok _ \<Rightarrow> (\<exists>raw w1. env_read env (kv_token_file kv) w = (Ok raw, w1)
        \<and> kv' = kv\<lparr>kv_state := Some (trim raw), kv_renewal_handle := True\<rparr>)
        \<and> k8s_initialize env (kv', w') = (Ok (), (kv', w'))
    | Err _ \<Rightarrow> kv' = kv)"
proof (cases r)
  case (Ok u)
  with k8s_initialize_Ok [of env kv w u kv' w'] assms obtain raw w1 where
      init: "env_read env (kv_token_file kv) w = (Ok raw, w1)"
        "kv' = kv\<lparr>kv_state := Some (trim raw), kv_renewal_handle := True\<rparr>"
    by blast
  then have "k8s_initialize env (kv', w') = (Ok (), (kv', w'))"
    by (simp add: k8s_initialize_def)
  with Ok init show ?thesis by simp
next
  case (Err e)
  with assms show ?thesis
    by (auto simp: k8s_initialize_def Let_def split: prod.splits result.splits)
qed

subsection \<open>Renewal of the pod's token\<close>

text \<open>C30: Whatever the order in which the renewal task, a refresh after a 401 and the file interleave, the
  cached token is always the trimmed form of contents the file has had.\<close>

theorem cached_token_from_file:
  assumes "renewal_reach raw s"
  shows "rn_token s \<in> trim ` rn_contents s \<and> length (rn_queue s) \<le> CHANNEL_CAPACITY"
  using renewal_token_known [OF assms] renewal_channel_bounded [OF assms] by (simp add: token_known_def)

text \<open>The token file is rotated and the watcher reports it.\<close>

definition sample_rotated :: renewal_state where
  "sample_rotated = sends (Ok Modify) ((renewal_start (lit ''one''))\<lparr>rn_watching := True, rn_phase := Waiting,
     rn_file := Ok (lit ''two''), rn_contents := {lit ''two'', lit ''one''}, rn_noticed := False\<rparr>)"

lemma initialised_reach:
  "renewal_reach raw ((renewal_start raw)\<lparr>rn_watching := True, rn_phase := Waiting\<rparr>)"
proof -
  let ?s1 = "(renewal_start raw)\<lparr>rn_watching := True\<rparr>"
  have "renewal_reach raw ?s1"
    by (rule renewal_next [OF renewal_init watcher_registered]) (simp add: renewal_start_def)
  moreover have "renewal_step ?s1 (?s1\<lparr>rn_phase := Waiting\<rparr>)"
    by (rule task_started) (simp_all add: renewal_start_def)
  ultimately show ?thesis using renewal_next by fastforce
qed

lemma sample_renewal: "renewal_reach (lit ''one'') sample_rotated"
proof -
  let ?s = "(renewal_start (lit ''one''))\<lparr>rn_watching := True, rn_phase := Waiting\<rparr>"
  have "renewal_reach (lit ''one'') (?s\<lparr>rn_file := Ok (lit ''two''), rn_contents := {lit ''two'', lit ''one''}, rn_noticed := False\<rparr>)"
    using renewal_next [OF initialised_reach file_changed [of _ "Ok (lit ''two'')"], of "lit ''one''"]
    by (simp add: renewal_start_def)
  from renewal_next [OF this watcher_event, of "Ok Modify"] show ?thesis
    by (simp add: sample_rotated_def renewal_start_def)
qed

theorem cached_token_from_file_witness:
  "rn_token sample_rotated \<in> trim ` {lit ''one'', lit ''two''} \<and> rn_file sample_rotated = Ok (lit ''two'')"
  using cached_token_from_file [OF sample_renewal] by (simp add: sample_rotated_def insert_commute)



text \<open>C20: A rotation during start-up can be missed: \<^verbatim>\<open>initialize\<close> reads the file before it registers the
  watcher. When the file changes in between, then, once the watcher is registered and the task
  started, nothing is queued, the task is at rest and the cached token is the old one, although
  the watcher has not failed to report anything that happened after its registration. The
  refresh after a refused review repairs it.\<close>

theorem startup_rotation_missed:
  assumes "trim new \<noteq> trim raw"
  shows "\<exists>s0 s1 s. renewal_step (renewal_start raw) s0 \<and> \<not> rn_watching s0 \<and> rn_file s0 = Ok new
    \<and> renewal_step s0 s1 \<and> rn_watching s1 \<and> rn_phase s1 = NotStarted \<and> rn_file s1 = Ok new
    \<and> renewal_step s1 s \<and> rn_phase s = Waiting \<and> rn_queue s = [] \<and> rn_file s = Ok new
    \<and> rn_token s = trim raw \<and> rn_token s \<noteq> trim new \<and> (\<nexists>s'. task_step s s')
    \<and> (\<exists>s2 s3. renewal_step s s2 \<and> renewal_step s2 s3 \<and> rn_token s3 = trim new)"
proof -
  define s0 where "s0 = (renewal_start raw)\<lparr>rn_file := Ok new, rn_contents := {new, raw}, rn_noticed := False\<rparr>"
  define s1 where "s1 = s0\<lparr>rn_watching := True\<rparr>"
  define s where "s = s1\<lparr>rn_phase := Waiting\<rparr>"
  define s2 where "s2 = s\<lparr>rn_refreshes := [trim new]\<rparr>"
  note defs = s0_def s1_def s_def renewal_start_def
  have "renewal_step (renewal_start raw) s0"
    using file_changed [of "renewal_start raw" "Ok new"] by (simp add: defs)
  moreover have "renewal_step s0 s1" unfolding s1_def by (rule watcher_registered) (simp add: defs)
  moreover have "renewal_step s1 s" unfolding s_def by (rule task_started) (simp_all add: defs)
  moreover have sel: "rn_phase s = Waiting" "rn_file s = Ok new" "rn_token s = trim raw" "rn_queue s = []"
      "\<not> rn_shutdown s" "rn_refreshes s = []"
    by (simp_all add: defs)
  moreover have "\<nexists>s'. task_step s s'" using sel by (auto elim!: task_stepE)
  moreover have "\<exists>s2 s3. renewal_step s s2 \<and> renewal_step s2 s3 \<and> rn_token s3 = trim new"
  proof (intro exI conjI)
    show "renewal_step s s2" using refresh_read [of s new] sel by (simp add: s2_def)
    show "renewal_step s2 (s2\<lparr>rn_token := trim new, rn_refreshes := []\<rparr>)"
      using refresh_written [of "trim new" s2] by (simp add: s2_def)
  qed simp
  moreover have "\<not> rn_watching s0" "rn_file s0 = Ok new" "rn_watching s1" "rn_phase s1 = NotStarted" "rn_file s1 = Ok new"
    by (simp_all add: defs)
  ultimately show ?thesis using assms by (intro exI [of _ s0] exI [of _ s1] exI [of _ s]) simp
qed

theorem startup_rotation_missed_witness:
  "\<exists>s0 s1 s. renewal_step (renewal_start (lit ''one'')) s0 \<and> renewal_step s0 s1 \<and> renewal_step s1 s
     \<and> rn_file s = Ok (lit ''two'') \<and> rn_token s \<noteq> trim (lit ''two'')"
proof -
  have "trim (lit ''two'') \<noteq> trim (lit ''one'')" by code_simp
  from startup_rotation_missed [OF this] show ?thesis by blast
qed

end
