(* ===== verification/Exchange_Properties.thy ===== *)
theory Exchange_Properties
  imports Sample_System
begin

section \<open>Properties of the token exchange\<close>

text \<open>
  What the exchange promises, stated over the assembled service with the memory store and
  the Kubernetes verifier, and over the routines it is made of. Each property is followed
  by a witness on the concrete system where it has hypotheses.
\<close>

subsection \<open>Soundness and completeness\<close>

text \<open>C2: A token is issued only to a caller whose subject token the API server confirmed for
  the exchange audience, for a participant context the caller has a mapping for, with scopes
  the mapping grants and an audience it permits; the signed claims are exactly those the
  policy determines.\<close>

theorem issued_token_authorized:
  assumes "mem_invar s"
    and "exchange_token (build_token_service pf cfg memory_store vc aud daud iss) now jti context scopes tok
           audience (v, s) = (Ok jwt, vs')"
  shows "\<exists>client cl. k8s_vouched (pf_k8s pf) v aud tok client
    \<and> issued_claims (build_token_service pf cfg memory_store vc aud daud iss) (mem_policy s) now jti context
        scopes audience client cl
    \<and> pf_generator pf vc DEFAULT_SIGNING_KEY_PREFIX (tk_participant_context_claim (jc_token cfg)) cl = Ok jwt"
  using memory_exchange.exchange_sound [OF assms] by (simp add: build_token_service_def)

theorem issued_token_authorized_witness:
  "\<exists>client cl. k8s_vouched (pf_k8s sample_platform) (sample_verifier, ()) (lit ''jwtlet'') (lit ''client-token'') client
    \<and> issued_claims sample_service (mem_policy sample_store) 1000 (lit ''id'') (lit ''ctx'')
        [lit ''read''] None client cl"
proof -
  have run: "exchange_token sample_service 1000 (lit ''id'') (lit ''ctx'') [lit ''read''] (lit ''client-token'') None
      ((sample_verifier, ()), sample_store) = (Ok (lit ''signed:ctx''), ((sample_verifier, ()), sample_store))"
    by code_simp
  show ?thesis
    using issued_token_authorized [OF sample_store_invar run [unfolded sample_service_def]]
    unfolding sample_service_def by blast
qed

text \<open>C3: Every request the policy permits succeeds: when the API server accepts the subject
  token and claims as the policy determines them exist, the exchange returns what the
  generator makes of exactly those claims.\<close>

theorem permitted_request_served:
  assumes "mem_invar s" "k8s_verify_token (pf_k8s pf) aud tok v = (Ok client, v')"
    and "issued_claims (build_token_service pf cfg memory_store vc aud daud iss) (mem_policy s) now jti context
           scopes audience client cl"
  shows "fst (exchange_token (build_token_service pf cfg memory_store vc aud daud iss) now jti context scopes tok
           audience (v, s))
    = map_err Generation (pf_generator pf vc DEFAULT_SIGNING_KEY_PREFIX (tk_participant_context_claim (jc_token cfg)) cl)"
  using memory_exchange.exchange_complete [OF assms(1) _ assms(3)] assms(2) by (simp add: build_token_service_def)

definition sample_client :: token_claims where
  "sample_client = \<lparr>tc_sub = client_name, tc_iss = lit ''https://issuer'', tc_aud = lit ''jwtlet'', tc_iat = 0,
     tc_exp = 0, tc_nbf = None, tc_custom = [(K8S_UID_CLAIM, JString (lit ''uid-1''))]\<rparr>"

lemma sample_contributed:
  "contributed (pol_scopes (mem_policy sample_store)) (btree_set [lit ''read'']) = [(lit ''role'', JString (lit ''reader''))]"
  by (simp add: contributed_def btree_set_def sample_store_def sample_scope_def)

lemma sample_issued:
  "issued_claims sample_service (mem_policy sample_store) 1000 (lit ''id'') (lit ''ctx'') [lit ''read''] None
     sample_client (participant_claims sample_service 1000 (lit ''ctx'') (lit ''edc'')
       (token_custom [(lit ''role'', JString (lit ''reader''))] sample_client (lit ''id'')))"
  by (rule issued_claims_build [where m = sample_mapping], unfold sample_contributed)
    (auto simp: sample_client_def sample_store_def sample_mapping_def values_of_def combinable_def
      hash_map_ok_def resolve_audience_def sample_service_def)

theorem permitted_request_served_witness:
  "fst (exchange_token sample_service 1000 (lit ''id'') (lit ''ctx'') [lit ''read''] (lit ''client-token'') None
     ((sample_verifier, ()), sample_store)) = Ok (lit ''signed:ctx'')"
proof -
  have ver: "k8s_verify_token (pf_k8s sample_platform) (lit ''jwtlet'') (lit ''client-token'') (sample_verifier, ())
      = (Ok sample_client, (sample_verifier, ()))"
    by code_simp
  show ?thesis
    using permitted_request_served [OF sample_store_invar ver sample_issued [unfolded sample_service_def]]
    unfolding sample_service_def by (simp add: sample_platform_def participant_claims_def lit_append [symmetric])
qed

lemma svc_verify_cong: "set scopes = set scopes' \<Longrightarrow> svc_verify ops c p scopes s = svc_verify ops c p scopes' s"
  unfolding svc_verify_def by (simp add: btree_set_cong [of scopes scopes'])

lemma scope_order_irrelevant:
  assumes "set scopes = set scopes'"
  shows "exchange_token svc now jti context scopes tok audience vs
       = exchange_token svc now jti context scopes' tok audience vs"
  unfolding exchange_token_def svc_verify_cong [OF assms] ..

subsection \<open>Claims, audience and lifetime of an issued token\<close>

text \<open>C21: Whatever claims the scopes contribute, of the reserved names exactly \<^verbatim>\<open>act\<close> and
  \<^verbatim>\<open>jti\<close> are among the custom claims, and both are the service's own: the fresh
  identifier, and an actor with the subject, issuer and UID of the authenticated caller.\<close>

theorem reserved_claims_are_the_services:
  "{k \<in> fst ` set (token_custom cs client jti). is_reserved_claim k} = {lit ''act'', lit ''jti''}
   \<and> map_of (token_custom cs client jti) (lit ''jti'') = Some (JString jti)
   \<and> (\<exists>act. map_of (token_custom cs client jti) (lit ''act'') = Some act
        \<and> json_get (lit ''sub'') act = Some (JString (tc_sub client))
        \<and> json_get (lit ''iss'') act = Some (JString (tc_iss client))
        \<and> json_get K8S_UID_CLAIM act = map_of (tc_custom client) K8S_UID_CLAIM)"
  by (simp add: reserved_keys_token_custom actor_claim_sub actor_claim_iss actor_claim_uid)
    (simp add: token_custom_def actor_claim_sub actor_claim_iss actor_claim_uid)

text \<open>C22: The audience of a token is the requested one, else the default; an empty allowlist
  permits the default only, any other permits its members only. Every refusal is
  \<^verbatim>\<open>Unauthorized\<close>.\<close>

theorem resolve_audience_exact:
  "resolve_audience requested allowed dflt =
     (let a = (case requested of None \<Rightarrow> dflt | Some r \<Rightarrow> r) in
      if (if allowed = {||} then a = dflt else a |\<in>| allowed) then Ok a else Err Unauthorized)"
  by (auto simp: resolve_audience_def Let_def split: option.split)

text \<open>C26: Under a validated configuration the expiry of a token never wraps around: it is the
  issue time plus the configured lifetime, after the issue time and at most a day later.\<close>

theorem expiry_within_a_day:
  assumes "valid_config url_scheme path_exists cfg" "sint now < 2 ^ 63 - 86400"
    and cl_def: "cl = participant_claims (build_token_service pf cfg store vc aud daud iss) now context tok_aud custom"
  shows "sint (tc_exp cl) = sint (tc_iat cl) + sint (tk_token_ttl_secs (jc_token cfg))
    \<and> sint (tc_iat cl) < sint (tc_exp cl) \<and> sint (tc_exp cl) \<le> sint (tc_iat cl) + 86400
    \<and> tc_nbf cl = Some (tc_iat cl)"
proof -
  have ttl: "0 < sint (tk_token_ttl_secs (jc_token cfg))"
      "sint (tk_token_ttl_secs (jc_token cfg)) \<le> sint MAX_TOKEN_TTL_SECS"
    using valid_configD(8) [OF assms(1)] by (simp_all add: ttl_ok_def)
  show ?thesis
    using expiry_exact [OF ttl assms(2)] ttl by (simp add: cl_def participant_claims_def MAX_TOKEN_TTL_SECS_def)
qed

theorem expiry_within_a_day_witness:
  "sint (tc_exp (participant_claims sample_service 1000 (lit ''ctx'') (lit ''edc'') [])) = 4600"
proof -
  have "sint (1000 :: i64) < 2 ^ 63 - 86400" by simp
  from expiry_within_a_day [OF sample_config_valid this refl, of sample_platform memory_store "()" "lit ''jwtlet''" "lit ''edc''"
      "lit ''https://jwtlet''" "lit ''ctx''" "lit ''edc''" "[]"]
  show ?thesis
    by (simp add: sample_service_def participant_claims_def sample_config_def default_config_def
        default_token_config_def DEFAULT_TOKEN_TTL_SECS_def)
qed

subsection \<open>The endpoint\<close>

abbreviation oauth_error :: "nat \<Rightarrow> string \<Rightarrow> nat \<times> json" where
  "oauth_error status code \<equiv> (status, oauth_error_body (lit code))"

text \<open>The verdict of the policy on a confirmed caller, by the memory store.\<close>

lemma memory_verdict:
  assumes "mem_invar s"
  obtains (refused) "svc_verify memory_store c p ss s = (Ok unverified, s)"
      "\<nexists>m. map_of (entries s) (c, p) = Some m \<and> set ss \<subseteq> fset (rm_scopes m)"
    | (conflict) m msg where "svc_verify memory_store c p ss s = (Err (ClaimConflict msg), s)"
      "map_of (entries s) (c, p) = Some m" "set ss \<subseteq> fset (rm_scopes m)"
      "\<exists>k. \<not> combinable (values_of k (contributed (map_of (scope_mappings s)) (btree_set ss)))"
    | (granted) m vr where "svc_verify memory_store c p ss s = (Ok vr, s)" "vr_verified vr" "vr_audiences vr = rm_audiences m"
      "map_of (entries s) (c, p) = Some m" "set ss \<subseteq> fset (rm_scopes m)"
      "\<forall>k. combinable (values_of k (contributed (map_of (scope_mappings s)) (btree_set ss)))"
      "verify_meets (mem_policy s) c p ss (Ok vr)"
proof -
  obtain r s' where run: "svc_verify memory_store c p ss s = (r, s')" by (rule prod.exhaust)
  have s': "s' = s"
    using run by (auto simp: svc_verify_def mem_resolve_mapping_def Let_def split: option.splits if_splits)
  note met = mem.svc_verify_law(3) [OF assms run] and rel = mem.svc_verify_reliable [OF assms run]
  show thesis
  proof (cases "\<exists>m. map_of (entries s) (c, p) = Some m \<and> set ss \<subseteq> fset (rm_scopes m)")
    case False
    with met rel have "r = Ok unverified"
      by (auto simp: verify_meets_def no_db_error_def split: option.splits if_splits)
    with run s' False show thesis by (intro refused) simp_all
  next
    case True
    then obtain m where m: "map_of (entries s) (c, p) = Some m" "set ss \<subseteq> fset (rm_scopes m)" by blast
    show thesis
    proof (cases "\<forall>k. combinable (values_of k (contributed (map_of (scope_mappings s)) (btree_set ss)))")
      case True
      with met rel m obtain cs where "r = Ok \<lparr>vr_verified = True, vr_claims = cs, vr_audiences = rm_audiences m\<rparr>"
        by (auto simp: verify_meets_def no_db_error_def)
      with run s' m True met show thesis by (intro granted) simp_all
    next
      case False
      with met rel m obtain msg where "r = Err (ClaimConflict msg)"
        by (auto simp: verify_meets_def no_db_error_def)
      with run s' m False show thesis by (intro conflict) auto
    qed
  qed
qed

text \<open>C28: Every request to \<^verbatim>\<open>POST /token\<close> has its answer. In this order: a foreign grant type is 400
  \<^verbatim>\<open>unsupported_grant_type\<close>, a foreign token type 400 \<^verbatim>\<open>invalid_request\<close>, both before anybody is
  asked; a caller the API server does not confirm is 400 \<^verbatim>\<open>invalid_grant\<close>; without a mapping that
  grants the scopes 403 \<^verbatim>\<open>unauthorized_client\<close>; with scopes whose claims do not go together 400
  \<^verbatim>\<open>invalid_scope\<close>; with an audience the mapping does not permit 403 \<^verbatim>\<open>unauthorized_client\<close>; and
  otherwise the claims that the policy determines are signed, which is 200 with the token, its
  type, its lifetime and the granted scopes, or 500 \<^verbatim>\<open>server_error\<close> when the generator fails. The
  store is never changed.\<close>

theorem token_endpoint_answers:
  fixes svc :: "(k8s_verifier \<times> 'w, inner_store, 'g) token_exchange_service"
  assumes "mem_invar s" "k8s_verify_token (pf_k8s pf) aud (ef_subject_token form) v = (verdict, v1)"
    and "svc = build_token_service pf cfg memory_store vc aud daud iss"
  shows "if ef_grant_type form \<noteq> TOKEN_EXCHANGE_GRANT_TYPE
    then post_token svc now jti form (v, s) = (oauth_error 400 ''unsupported_grant_type'', (v, s))
    else if ef_subject_token_type form \<noteq> ISSUED_TOKEN_TYPE
    then post_token svc now jti form (v, s) = (oauth_error 400 ''invalid_request'', (v, s))
    else snd (post_token svc now jti form (v, s)) = (v1, s)
      \<and> (case verdict of
           Err _ \<Rightarrow> fst (post_token svc now jti form (v, s)) = oauth_error 400 ''invalid_grant''
         | Ok client \<Rightarrow>
             (case map_of (entries s) (tc_sub client, ef_resource form) of
                None \<Rightarrow> fst (post_token svc now jti form (v, s)) = oauth_error 403 ''unauthorized_client''
              | Some m \<Rightarrow>
                  if \<not> set (requested_scopes form) \<subseteq> fset (rm_scopes m)
                  then fst (post_token svc now jti form (v, s)) = oauth_error 403 ''unauthorized_client''
                  else if \<exists>k. \<not> combinable (values_of k (contributed (map_of (scope_mappings s)) (requested_scopes form)))
                  then fst (post_token svc now jti form (v, s)) = oauth_error 400 ''invalid_scope''
                  else if \<nexists>a. audience_permitted m daud (ef_audience form) a
                  then fst (post_token svc now jti form (v, s)) = oauth_error 403 ''unauthorized_client''
                  else (\<exists>cl. issued_claims svc (mem_policy s) now jti (ef_resource form) (requested_scopes form)
                          (ef_audience form) client cl
                        \<and> fst (post_token svc now jti form (v, s)) =
                          (case pf_generator pf vc DEFAULT_SIGNING_KEY_PREFIX (tk_participant_context_claim (jc_token cfg)) cl of
                             Err _ \<Rightarrow> oauth_error 500 ''server_error''
                           | Ok jwt \<Rightarrow> (200, exchange_response_body
                               \<lparr>er_access_token = jwt, er_issued_token_type = ISSUED_TOKEN_TYPE, er_token_type = lit ''Bearer'',
                                er_expires_in = tk_token_ttl_secs (jc_token cfg),
                                er_scope = granted_scope (requested_scopes form)\<rparr>)))))"
proof (cases "ef_grant_type form = TOKEN_EXCHANGE_GRANT_TYPE \<and> ef_subject_token_type form = ISSUED_TOKEN_TYPE")
  case False
  then show ?thesis by (auto simp: post_token_def token_exchange_def exchange_error_response_def)
next
  case True
  have svc: "te_verifier svc = k8s_verify_token (pf_k8s pf)" "te_client_audience svc = aud" "te_audience svc = daud"
      "te_resource_service svc = memory_store" "te_token_ttl_secs svc = tk_token_ttl_secs (jc_token cfg)"
      "te_generator svc = pf_generator pf vc DEFAULT_SIGNING_KEY_PREFIX"
      "te_jwtlet_participant_context svc = tk_participant_context_claim (jc_token cfg)"
    by (simp_all add: assms(3) build_token_service_def)
  note open_defs = post_token_def token_exchange_def exchange_token_def exchange_error_response_def Let_def
  show ?thesis
  proof (cases verdict)
    case (Err e)
    with True assms(2) show ?thesis by (simp add: open_defs svc)
  next
    case (Ok client)
    show ?thesis
    proof (rule memory_verdict [OF assms(1), of "tc_sub client" "ef_resource form" "requested_scopes form"])
      assume v: "svc_verify memory_store (tc_sub client) (ef_resource form) (requested_scopes form) s = (Ok unverified, s)"
        and no: "\<nexists>m. map_of (entries s) (tc_sub client, ef_resource form) = Some m
          \<and> set (requested_scopes form) \<subseteq> fset (rm_scopes m)"
      have "post_token svc now jti form (v, s) = (oauth_error 403 ''unauthorized_client'', (v1, s))"
        using True Ok assms(2) v by (simp add: open_defs svc unverified_def)
      with True Ok no show ?thesis by (auto split: option.split)
    next
      fix m msg
      assume v: "svc_verify memory_store (tc_sub client) (ef_resource form) (requested_scopes form) s
          = (Err (ClaimConflict msg), s)"
        and m: "map_of (entries s) (tc_sub client, ef_resource form) = Some m" "set (requested_scopes form) \<subseteq> fset (rm_scopes m)"
          "\<exists>k. \<not> combinable (values_of k (contributed (map_of (scope_mappings s)) (btree_set (requested_scopes form))))"
      have "post_token svc now jti form (v, s) = (oauth_error 400 ''invalid_scope'', (v1, s))"
        using True Ok assms(2) v by (simp add: open_defs svc)
      with True Ok m show ?thesis by simp
    next
      fix m vr
      assume v: "svc_verify memory_store (tc_sub client) (ef_resource form) (requested_scopes form) s = (Ok vr, s)"
          "vr_verified vr" "vr_audiences vr = rm_audiences m"
        and m: "map_of (entries s) (tc_sub client, ef_resource form) = Some m" "set (requested_scopes form) \<subseteq> fset (rm_scopes m)"
          "\<forall>k. combinable (values_of k (contributed (map_of (scope_mappings s)) (btree_set (requested_scopes form))))"
        and met: "verify_meets (mem_policy s) (tc_sub client) (ef_resource form) (requested_scopes form) (Ok vr)"
      define ra where "ra = (resolve_audience (ef_audience form) (rm_audiences m) daud :: (str, 'g exchange_error) result)"
      have perm: "audience_permitted m daud (ef_audience form) a \<longleftrightarrow> ra = Ok a" for a
        by (auto simp: ra_def resolve_audience_Ok_iff audience_permitted_def)
      show ?thesis
      proof (cases ra)
        case Err': (Err e)
        then have "ra = Err Unauthorized" using resolve_audience_ErrD by (auto simp: ra_def)
        then have "post_token svc now jti form (v, s) = (oauth_error 403 ''unauthorized_client'', (v1, s))"
          using True Ok assms(2) v by (simp add: open_defs svc ra_def)
        with True Ok m perm Err' show ?thesis by simp
      next
        case Ok': (Ok a)
        let ?cl = "participant_claims svc now (ef_resource form) a (token_custom (vr_claims vr) client jti)"
        have iss: "issued_claims svc (mem_policy s) now jti (ef_resource form) (requested_scopes form) (ef_audience form) client ?cl"
          by (rule verify_meets_issued [OF met v(2)]) (use Ok' v(3) svc(3) in \<open>simp add: ra_def\<close>)
        have "post_token svc now jti form (v, s) =
            (case pf_generator pf vc DEFAULT_SIGNING_KEY_PREFIX (tk_participant_context_claim (jc_token cfg)) ?cl of
               Err _ \<Rightarrow> oauth_error 500 ''server_error''
             | Ok jwt \<Rightarrow> (200, exchange_response_body
                 \<lparr>er_access_token = jwt, er_issued_token_type = ISSUED_TOKEN_TYPE, er_token_type = lit ''Bearer'',
                  er_expires_in = tk_token_ttl_secs (jc_token cfg), er_scope = granted_scope (requested_scopes form)\<rparr>), (v1, s))"
          using True Ok assms(2) v Ok' by (simp add: open_defs svc ra_def split: result.split)
        with True Ok m perm Ok' iss show ?thesis by auto
      qed
    qed
  qed
qed

theorem token_endpoint_answers_witness:
  "post_token sample_service 1000 (lit ''id'') (sample_form\<lparr>ef_subject_token := lit ''nobody''\<rparr>) ((sample_verifier, ()), sample_store)
   = (oauth_error 400 ''invalid_grant'', ((sample_verifier, ()), sample_store))"
proof -
  let ?form = "sample_form\<lparr>ef_subject_token := lit ''nobody''\<rparr>"
  have ver: "k8s_verify_token (pf_k8s sample_platform) (lit ''jwtlet'') (ef_subject_token ?form) (sample_verifier, ())
      = (Err (VerificationFailed (lit ''token not authenticated'')), (sample_verifier, ()))"
    by code_simp
  from token_endpoint_answers [OF sample_store_invar ver sample_service_def, of 1000 "lit ''id''"] show ?thesis
    by (simp add: sample_form_def prod_eq_iff)
qed

text \<open>C25: An authenticated caller without a mapping that grants all the requested scopes for the
  participant context is answered 403 \<^verbatim>\<open>unauthorized_client\<close>, and the store is left
  alone.\<close>

theorem unmapped_caller_forbidden:
  assumes "ef_grant_type form = TOKEN_EXCHANGE_GRANT_TYPE" "ef_subject_token_type form = ISSUED_TOKEN_TYPE"
    and "k8s_verify_token (pf_k8s pf) aud (ef_subject_token form) v = (Ok client, v')"
    and "\<forall>m. map_of (entries s) (tc_sub client, ef_resource form) = Some m
           \<longrightarrow> \<not> set (requested_scopes form) \<subseteq> fset (rm_scopes m)"
  shows "post_token (build_token_service pf cfg memory_store vc aud daud iss) now jti form (v, s)
       = ((403, oauth_error_body (lit ''unauthorized_client'')), (v', s))"
proof -
  have "svc_verify memory_store (tc_sub client) (ef_resource form) (requested_scopes form) s = (Ok unverified, s)"
    using assms(4)
    by (cases "map_of (entries s) (tc_sub client, ef_resource form)")
      (auto simp: svc_verify_def mem_resolve_mapping_def Let_def subset_iff)
  with assms(1-3) show ?thesis
    by (simp add: post_token_def token_exchange_def exchange_token_def unverified_def exchange_error_response_def Let_def)
qed

theorem unmapped_caller_forbidden_witness:
  "post_token sample_service 1000 (lit ''id'') (sample_form\<lparr>ef_scope := Some (lit ''write'')\<rparr>)
     ((sample_verifier, ()), sample_store)
   = ((403, oauth_error_body (lit ''unauthorized_client'')), ((sample_verifier, ()), sample_store))"
proof -
  let ?form = "sample_form\<lparr>ef_scope := Some (lit ''write'')\<rparr>"
  have ver: "k8s_verify_token (pf_k8s sample_platform) (lit ''jwtlet'') (ef_subject_token ?form) (sample_verifier, ())
      = (Ok sample_client, (sample_verifier, ()))"
    by code_simp
  have req: "requested_scopes ?form = [lit ''write'']" by code_simp
  have "\<forall>m. map_of (entries sample_store) (tc_sub sample_client, ef_resource ?form) = Some m
      \<longrightarrow> \<not> set (requested_scopes ?form) \<subseteq> fset (rm_scopes m)"
    unfolding req by (simp add: sample_store_def sample_mapping_def)
  from unmapped_caller_forbidden [OF _ _ ver this] show ?thesis
    unfolding sample_service_def by (simp add: sample_form_def)
qed

text \<open>C27: The scope string of a response names exactly the granted scopes: a request that sends it
  back asks for the same scopes and has the same outcome.\<close>

theorem granted_scope_requests_again:
  assumes "token_exchange svc now jti form vs = (Ok (status, resp), vs')"
  shows "requested_scopes (form\<lparr>ef_scope := er_scope resp\<rparr>) = requested_scopes form
    \<and> token_exchange svc now jti (form\<lparr>ef_scope := er_scope resp\<rparr>) vs = (Ok (status, resp), vs')"
proof -
  have same: "requested_scopes (form\<lparr>ef_scope := er_scope resp\<rparr>) = requested_scopes form"
    by (rule granted_scope_roundtrip) (simp add: token_exchange_OkD(5) [OF assms])
  then have "token_exchange svc now jti (form\<lparr>ef_scope := er_scope resp\<rparr>) vs = token_exchange svc now jti form vs"
    by (simp add: token_exchange_def)
  with same assms show ?thesis by simp
qed

theorem granted_scope_requests_again_witness:
  "requested_scopes (sample_form\<lparr>ef_scope := Some (lit ''read'')\<rparr>) = requested_scopes sample_form"
proof -
  have ex: "exchange_token sample_service 1000 (lit ''id'') (lit ''ctx'') [lit ''read''] (lit ''client-token'') None
      ((sample_verifier, ()), sample_store) = (Ok (lit ''signed:ctx''), ((sample_verifier, ()), sample_store))"
    by code_simp
  have req: "requested_scopes sample_form = [lit ''read'']" by code_simp
  have "token_exchange sample_service 1000 (lit ''id'') sample_form ((sample_verifier, ()), sample_store)
      = (Ok (200, \<lparr>er_access_token = lit ''signed:ctx'', er_issued_token_type = ISSUED_TOKEN_TYPE,
          er_token_type = lit ''Bearer'', er_expires_in = te_token_ttl_secs sample_service,
          er_scope = Some (lit ''read'')\<rparr>), ((sample_verifier, ()), sample_store))"
    using ex unfolding token_exchange_def Let_def req by (simp add: sample_form_def granted_scope_def)
  from granted_scope_requests_again [OF this] show ?thesis by simp
qed

subsection \<open>Scopes and claims\<close>

text \<open>C9: Verification against the memory store is what the policy says: refused without a
  mapping or with a scope the mapping does not grant; otherwise each claim is the value its
  scopes contribute, several strings joined by single spaces, and a conflict exactly when a
  claim has several values that are not all strings. The store is not changed.\<close>

theorem verify_matches_policy:
  assumes "mem_invar s" "svc_verify memory_store c p scopes s = (r, s')"
  shows "(case map_of (entries s) (c, p) of
      None \<Rightarrow> r = Ok unverified
    | Some m \<Rightarrow>
        if \<not> set scopes \<subseteq> fset (rm_scopes m) then r = Ok unverified
        else if \<forall>k. combinable (values_of k (contributed (map_of (scope_mappings s)) (btree_set scopes)))
        then (\<exists>cs. r = Ok \<lparr>vr_verified = True, vr_claims = cs, vr_audiences = rm_audiences m\<rparr>
                \<and> hash_map_ok cs
                \<and> (\<forall>k. map_of cs k = combine (values_of k (contributed (map_of (scope_mappings s)) (btree_set scopes)))))
        else (\<exists>msg. r = Err (ClaimConflict msg)))
    \<and> mem_policy s' = mem_policy s"
  using mem.svc_verify_law [OF assms] mem.svc_verify_reliable [OF assms]
  by (cases "map_of (entries s) (c, p)") (simp_all only: verify_meets_def no_db_error_def mem_policy_simps
      option.case, simp_all)

theorem verify_matches_policy_witness:
  "\<exists>cs. fst (svc_verify memory_store client_name (lit ''ctx'') [lit ''read''] sample_store)
      = Ok \<lparr>vr_verified = True, vr_claims = cs, vr_audiences = {||}\<rparr>
    \<and> map_of cs (lit ''role'') = Some (JString (lit ''reader''))"
proof -
  have con: "contributed (map_of (scope_mappings sample_store)) (btree_set [lit ''read''])
      = [(lit ''role'', JString (lit ''reader''))]"
    using sample_contributed by simp
  obtain r s' where run: "svc_verify memory_store client_name (lit ''ctx'') [lit ''read''] sample_store = (r, s')"
    by (cases "svc_verify memory_store client_name (lit ''ctx'') [lit ''read''] sample_store")
  have comb: "\<forall>k. combinable (values_of k [(lit ''role'', JString (lit ''reader''))])"
    by (simp add: values_of_def combinable_def)
  have m: "map_of (entries sample_store) (client_name, lit ''ctx'') = Some sample_mapping"
      "set [lit ''read''] \<subseteq> fset (rm_scopes sample_mapping)" "rm_audiences sample_mapping = {||}"
    by (simp_all add: sample_store_def sample_mapping_def)
  from verify_matches_policy [OF sample_store_invar run] show ?thesis
    using run comb m unfolding con by (auto simp: values_of_def)
qed

end
