(* ===== verification/Management_Properties.thy ===== *)
theory Management_Properties
  imports Sample_System
begin

section \<open>Properties of the management API\<close>

text \<open>
  Stated over the management state that assembly builds on the memory store, the Kubernetes
  verifier and the configured service accounts.
\<close>

abbreviation assembled_management ::
    "('w, 'c, 'vc, 'kr, 'g) platform \<Rightarrow> jwtlet_config \<Rightarrow> 'vc \<Rightarrow> 'kr \<Rightarrow> str \<Rightarrow> str \<Rightarrow> str \<Rightarrow> k8s_verifier \<Rightarrow> k8s_verifier
       \<Rightarrow> (k8s_verifier \<times> 'w, inner_store) management_state" where
  "assembled_management pf cfg vc kr aud daud iss kv mv \<equiv>
     management_state_of (build_runtime pf cfg memory_store vc kr aud daud iss kv mv)"

text \<open>The management state of the concrete system, without the parts a request does not look at.\<close>

definition sample_management :: "(k8s_verifier \<times> unit, inner_store) management_state" where
  "sample_management = \<lparr>ms_resource_service = memory_store,
     ms_authorizer = mem_authorize (configured_accounts (jc_service_accounts sample_config)),
     ms_verifier = k8s_verify_token sample_env, ms_client_audience = lit ''jwtlet''\<rparr>"

lemma sample_management_assembled:
  "assembled_management sample_platform sample_config () () (lit ''jwtlet'') (lit ''edc'') (lit ''https://jwtlet'')
     sample_verifier sample_verifier = sample_management"
  by (simp add: sample_management_def management_state_of_def build_runtime_def build_service_account_authorizer_def
      sample_platform_def management_audience_def sample_config_def default_config_def)

definition sample_written :: inner_store where
  "sample_written = \<lparr>entries = [(rm_key sample_mapping, sample_mapping)], scope_mappings = []\<rparr>"

lemma sample_create:
  "handle_management sorted_list_of_fset sample_fallback
     (assembled_management sample_platform sample_config () () (lit ''jwtlet'') (lit ''edc'') (lit ''https://jwtlet'')
        sample_verifier sample_verifier)
     (sample_request POST [lit ''mappings'']) ((sample_verifier, ()), mem_new)
   = ((status_only 201, [MappingCreated admin_name client_name (lit ''ctx'')]), ((sample_verifier, ()), sample_written))"
  unfolding sample_management_assembled by code_simp

lemma memory_steady: "mem_invar s \<Longrightarrow> store_contract.steady memory_store s"
  by (rule reliable_store.always_steady [OF mem.reliable_store_axioms])

subsection \<open>Who may do what\<close>

text \<open>C4: The policy changes only at the hands of an administrator: a request that changes the
  resource mappings carries a bearer token that the API server confirms for the management
  audience and whose subject is configured with the mappings role; for the scope mappings it
  is the scopes role. Neither role can change the other half.\<close>

theorem policy_change_needs_role:
  assumes "mem_invar s"
    and "handle_management it fb (assembled_management pf cfg vc kr aud daud iss kv mv) req (v, s)
           = ((resp, evs), (v', s'))"
  shows "(map_of (entries s') \<noteq> map_of (entries s) \<longrightarrow>
      (\<exists>sub. caller_has_role (k8s_vouched (pf_k8s pf)) (configured_holds cfg)
         (assembled_management pf cfg vc kr aud daud iss kv mv) req v sub ROLE_MAPPINGS_WRITE))
    \<and> (map_of (scope_mappings s') \<noteq> map_of (scope_mappings s) \<longrightarrow>
      (\<exists>sub. caller_has_role (k8s_vouched (pf_k8s pf)) (configured_holds cfg)
         (assembled_management pf cfg vc kr aud daud iss kv mv) req v sub ROLE_SCOPES_WRITE))"
  using memory_system.mg.management_writes_guarded [OF assms] by simp

theorem policy_change_needs_role_witness:
  "\<exists>sub. caller_has_role (k8s_vouched (pf_k8s sample_platform)) (configured_holds sample_config)
     (assembled_management sample_platform sample_config () () (lit ''jwtlet'') (lit ''edc'') (lit ''https://jwtlet'')
        sample_verifier sample_verifier)
     (sample_request POST [lit ''mappings'']) (sample_verifier, ()) sub ROLE_MAPPINGS_WRITE"
  using policy_change_needs_role [OF mem_invar_new sample_create]
  by (simp add: mem_new_def sample_written_def fun_eq_iff)

text \<open>C16: The policy is disclosed only to a caller with the read role, and then it is complete: the
  response lists every mapping, or every scope, of the store exactly once.\<close>

theorem disclosure_needs_role:
  assumes "mem_invar s"
    and "handle_management it fb (assembled_management pf cfg vc kr aud daud iss kv mv) req (v, s)
           = ((resp, evs), (v', s'))"
    and "rs_body resp = MappingList ms \<or> rs_body resp = ScopeList sms"
  shows "(\<exists>sub. caller_has_role (k8s_vouched (pf_k8s pf)) (configured_holds cfg)
       (assembled_management pf cfg vc kr aud daud iss kv mv) req v sub ROLE_MANAGEMENT_READ)
    \<and> (rs_body resp = MappingList ms \<longrightarrow> distinct (map (\<lambda>m. rm_key m) ms) \<and> set ms = ran (map_of (entries s)))
    \<and> (rs_body resp = ScopeList sms \<longrightarrow> distinct (map sm_scope sms) \<and> set sms = ran (map_of (scope_mappings s)))"
  using memory_system.mg.management_reads_guarded [OF assms(1,2)] assms(3)
  by (auto simp: lists_mappings_def lists_scopes_def)

theorem disclosure_needs_role_witness:
  "\<exists>sub. caller_has_role (k8s_vouched (pf_k8s sample_platform)) (configured_holds sample_config)
     (assembled_management sample_platform sample_config () () (lit ''jwtlet'') (lit ''edc'') (lit ''https://jwtlet'')
        sample_verifier sample_verifier)
     (sample_request GET [lit ''mappings'']) (sample_verifier, ()) sub ROLE_MANAGEMENT_READ"
proof -
  have run: "handle_management sorted_list_of_fset sample_fallback
      (assembled_management sample_platform sample_config () () (lit ''jwtlet'') (lit ''edc'') (lit ''https://jwtlet'')
        sample_verifier sample_verifier)
      (sample_request GET [lit ''mappings'']) ((sample_verifier, ()), sample_store)
    = ((\<lparr>rs_status = 200, rs_body = MappingList [sample_mapping]\<rparr>, []), ((sample_verifier, ()), sample_store))"
    unfolding sample_management_assembled by code_simp
  from disclosure_needs_role [OF sample_store_invar run, of "[sample_mapping]" "[]"] show ?thesis by simp
qed

text \<open>C17: No change goes unrecorded: when a request changed the policy, it reached an endpoint whose
  role its subject holds, its response is that endpoint's success status, 201 or 204, and its
  audit events are exactly that endpoint's, at least one, each with the subject as the actor.\<close>

theorem policy_change_audited:
  assumes "mem_invar s"
    and "handle_management it fb (assembled_management pf cfg vc kr aud daud iss kv mv) req (v, s)
           = ((resp, evs), (v', s'))"
    and "mem_policy s' \<noteq> mem_policy s"
  shows "\<exists>ep sub. management_routes (mr_method req) (mr_path req) = Routed ep (endpoint_role ep)
      \<and> caller_has_role (k8s_vouched (pf_k8s pf)) (configured_holds cfg)
          (assembled_management pf cfg vc kr aud daud iss kv mv) req v sub (endpoint_role ep)
      \<and> rs_status resp = success_status ep \<and> rs_status resp \<in> {201, 204}
      \<and> evs = success_events sub req ep \<and> evs \<noteq> [] \<and> (\<forall>e\<in>set evs. event_actor e = sub)"
  by (rule memory_system.mg.management_audited [OF assms])
    (use memory_steady [OF assms(1)] success_events_actor in auto)

theorem policy_change_audited_witness:
  "\<exists>ep sub. [MappingCreated admin_name client_name (lit ''ctx'')]
       = success_events sub (sample_request POST [lit ''mappings'']) ep \<and> success_status ep = 201"
proof -
  have "mem_policy sample_written \<noteq> mem_policy mem_new"
    by (simp add: mem_policy_def mem_new_def sample_written_def)
  from policy_change_audited [OF mem_invar_new sample_create this] show ?thesis
    unfolding rs_status_only by metis
qed

text \<open>C15: An accepted administrator with the role of a writing endpoint gets exactly the abstract
  effect: the policy becomes what validation and the abstract operation make of it, and the
  response is the endpoint's success status with its audit events, or the response of the
  error.\<close>

theorem authorized_write_performed:
  assumes "mem_invar s"
    and "management_routes (mr_method req) (mr_path req) = Routed ep role"
    and "endpoint_write (\<lambda>m. m) it req ep = Some w"
    and "extract_bearer_token (mr_authorization req) = Some tok"
    and "k8s_verify_token (pf_k8s pf) (management_audience cfg aud) tok v = (Ok cl, v')"
    and "configured_holds cfg (tc_sub cl) role"
  shows "\<exists>s'. handle_management it fb (assembled_management pf cfg vc kr aud daud iss kv mv) req (v, s)
      = ((case fst (w (mem_policy s)) of
            Ok _ \<Rightarrow> (status_only (success_status ep), success_events (tc_sub cl) req ep)
          | Err e \<Rightarrow> (mgmt_error_response (ResourceFailed e), [])), (v', s'))
    \<and> mem_invar s' \<and> mem_policy s' = snd (w (mem_policy s))"
proof -
  obtain r s' where h: "handle_management it fb (assembled_management pf cfg vc kr aud daud iss kv mv) req (v, s)
        = (fst (finish (r, s') (success_status ep) (success_events (tc_sub cl) req ep)), (v', s'))"
      and inv: "mem_invar s'" and eff: "(r, mem_policy s') = w (mem_policy s)"
    by (rule memory_system.mg.management_performs [OF assms(1-4), where pf = pf and cfg = cfg and vc = vc and kr = kr
          and aud = aud and daud = daud and iss = iss and kv = kv and mv = mv and v = v and v' = v' and cl = cl])
      (use assms(5,6) memory_steady [OF assms(1)] in auto)
  from eff have w: "w (mem_policy s) = (r, mem_policy s')" by simp
  with h inv show ?thesis
    by (cases r) auto
qed

theorem authorized_write_performed_witness:
  "\<exists>s'. handle_management sorted_list_of_fset sample_fallback
       (assembled_management sample_platform sample_config () () (lit ''jwtlet'') (lit ''edc'') (lit ''https://jwtlet'')
          sample_verifier sample_verifier)
       (sample_request DELETE [lit ''scopes'', lit ''read'']) ((sample_verifier, ()), sample_store)
     = ((status_only 204, [ScopeDeleted admin_name (lit ''read'')]), ((sample_verifier, ()), s'))
     \<and> map_of (scope_mappings s') (lit ''read'') = None"
proof -
  let ?req = "sample_request DELETE [lit ''scopes'', lit ''read'']"
  have route: "management_routes (mr_method ?req) (mr_path ?req) = Routed (DeleteScope (lit ''read'')) ROLE_SCOPES_WRITE"
    by code_simp
  have ew: "endpoint_write (\<lambda>m. m) sorted_list_of_fset ?req (DeleteScope (lit ''read'')) = Some (spec_remove_scope (lit ''read''))"
    by simp
  have tok: "extract_bearer_token (mr_authorization ?req) = Some (lit ''admin-token'')"
    by code_simp
  have aud: "management_audience sample_config (lit ''jwtlet'') = lit ''jwtlet''"
    by (simp add: management_audience_def sample_config_def default_config_def)
  obtain cl v' where ver: "k8s_verify_token (pf_k8s sample_platform) (lit ''jwtlet'') (lit ''admin-token'') (sample_verifier, ())
      = (Ok cl, (sample_verifier, ()))" "tc_sub cl = admin_name"
  proof -
    have "k8s_verify_token (pf_k8s sample_platform) (lit ''jwtlet'') (lit ''admin-token'') (sample_verifier, ())
        = (Ok \<lparr>tc_sub = admin_name, tc_iss = lit ''https://issuer'', tc_aud = lit ''jwtlet'', tc_iat = 0, tc_exp = 0,
              tc_nbf = None, tc_custom = [(K8S_UID_CLAIM, JString (lit ''uid-1''))]\<rparr>, (sample_verifier, ()))"
      by code_simp
    then show ?thesis using that by simp
  qed
  have ver': "k8s_verify_token (pf_k8s sample_platform) (management_audience sample_config (lit ''jwtlet''))
      (lit ''admin-token'') (sample_verifier, ()) = (Ok cl, (sample_verifier, ()))"
    unfolding aud by (rule ver(1))
  have holds: "configured_holds sample_config (tc_sub cl) ROLE_SCOPES_WRITE"
    by (subst account_holds_configured) (simp_all add: ver(2) sample_config_def hash_map_ok_def)
  from authorized_write_performed [OF sample_store_invar route ew tok ver' holds,
      of sample_fallback "()" "()" "lit ''edc''" "lit ''https://jwtlet''" sample_verifier sample_verifier]
  show ?thesis
    by (auto simp: spec_remove_scope_def ver(2) dest: arg_cong [of _ _ pol_scopes])
qed

subsection \<open>Routing and authentication\<close>

text \<open>C40: The route table is exact: a method and a path reach an endpoint exactly when they are the
  endpoint's and no path segment is empty, and the role demanded is the endpoint's.\<close>

theorem routes_exact:
  "management_routes meth path = Routed ep role \<longleftrightarrow>
     meth \<in> fst (endpoint_request ep) \<and> path = snd (endpoint_request ep) \<and> [] \<notin> set path \<and> role = endpoint_role ep"
  using management_routes_sound [of meth path ep role] management_routes_role [of meth path ep role]
    management_routes_complete [of meth ep]
  by blast

text \<open>C18: A request to an existing endpoint without a bearer token, with a token the API server does
  not confirm, or from a subject without the role is answered 401, 401 or 403; no handler
  runs, the store is untouched and nothing is audited.\<close>

theorem unauthorized_request_stopped:
  assumes "management_routes (mr_method req) (mr_path req) = Routed ep role"
  shows "handle_management it fb (assembled_management pf cfg vc kr aud daud iss kv mv) req (v, s) =
    (case extract_bearer_token (mr_authorization req) of
       None \<Rightarrow> ((status_only 401, []), (v, s))
     | Some tok \<Rightarrow>
         (case k8s_verify_token (pf_k8s pf) (management_audience cfg aud) tok v of
            (Err _, v') \<Rightarrow> ((status_only 401, []), (v', s))
          | (Ok cl, v') \<Rightarrow>
              if configured_holds cfg (tc_sub cl) role
              then (case run_endpoint it memory_store req (tc_sub cl) ep s of (out, s') \<Rightarrow> (out, (v', s')))
              else ((status_only 403, []), (v', s))))"
proof -
  have auth: "mem_authorize store c {|role|} = Ok (account_holds store c role)" for store c
    by (auto simp: mem_authorize_def account_holds_def split: option.split)
  show ?thesis
    using assms
    by (auto simp: handle_management_def authorize_with_role_def auth split: option.split prod.split result.split)
qed

theorem unauthorized_request_stopped_witness:
  "handle_management sorted_list_of_fset sample_fallback
     (assembled_management sample_platform sample_config () () (lit ''jwtlet'') (lit ''edc'') (lit ''https://jwtlet'')
        sample_verifier sample_verifier)
     ((sample_request POST [lit ''mappings''])\<lparr>mr_authorization := None\<rparr>) ((sample_verifier, ()), mem_new)
   = ((status_only 401, []), ((sample_verifier, ()), mem_new))"
proof -
  let ?req = "(sample_request POST [lit ''mappings''])\<lparr>mr_authorization := None\<rparr>"
  have "management_routes (mr_method ?req) (mr_path ?req) = Routed CreateMapping ROLE_MAPPINGS_WRITE"
    by code_simp
  from unauthorized_request_stopped [OF this] show ?thesis
    by (simp add: extract_bearer_token_def)
qed

lemma authorizer_exact:
  assumes "hash_map_ok accounts"
  shows "build_service_account_authorizer accounts c required
    = Ok (\<exists>roles. map_of accounts c = Some roles \<and> fset required \<subseteq> set roles)"
proof -
  have "map_of (configured_accounts accounts) c = map_option fset_of_list (map_of accounts c)"
    by (rule map_of_configured [OF assms])
  then show ?thesis
    by (cases "map_of accounts c")
      (auto simp: build_service_account_authorizer_def mem_authorize_def less_eq_fset.rep_eq fset_of_list.rep_eq)
qed

subsection \<open>Exchange callers and management callers\<close>

text \<open>C19: With a management audience of its own, a token that the API server confirms for the exchange
  audience only cannot be replayed against the management API: whatever the roles of its
  subject, every endpoint answers 401, the store is untouched and nothing is audited.\<close>

theorem audience_separation:
  assumes "management_audience cfg aud \<noteq> aud"
    and bound: "\<And>rq w code review w'. rq_token rq = tok \<Longrightarrow> env_post (pf_k8s pf) rq w = (Replied code (Ok review), w') \<Longrightarrow>
        ts_authenticated review \<Longrightarrow> set (ts_audiences review) \<subseteq> {aud}"
    and "extract_bearer_token (mr_authorization req) = Some tok"
    and "management_routes (mr_method req) (mr_path req) = Routed ep role"
  shows "\<exists>v'. handle_management it fb (assembled_management pf cfg vc kr aud daud iss kv mv) req (v, s)
      = ((status_only 401, []), (v', s))"
proof -
  obtain r v' where ver: "k8s_verify_token (pf_k8s pf) (management_audience cfg aud) tok v = (r, v')"
    by (rule prod.exhaust)
  have "\<not> is_ok r"
  proof
    assume "is_ok r"
    then obtain cl where "r = Ok cl" by (auto simp: is_ok_iff)
    with ver have "k8s_vouched (pf_k8s pf) v (management_audience cfg aud) tok cl"
      using k8s.accepted_vouched by blast
    then obtain sa w code review w' where
        "env_post (pf_k8s pf) (review_request (fst v) sa (management_audience cfg aud) tok) w = (Replied code (Ok review), w')"
        "ts_authenticated review" "management_audience cfg aud \<in> set (ts_audiences review)"
      unfolding k8s_vouched_def confirmed_user_def by blast
    with bound [OF _ this(1,2)] assms(1) show False by (auto simp: review_request_def)
  qed
  with ver assms(3,4) show ?thesis
    by (cases r) (auto simp: handle_management_def authorize_with_role_def management_state_of_def build_runtime_def)
qed

text \<open>The concrete system with a management audience, and an API server that binds every token to one audience.\<close>

definition bound_platform :: "(unit, unit, unit, unit, unit) platform" where
  "bound_platform = sample_platform\<lparr>pf_k8s := sample_env\<lparr>env_post := (\<lambda>rq w.
     (Replied 201 (Ok \<lparr>ts_authenticated = rq_audiences rq = [lit ''jwtlet''], ts_user = Some (sample_user admin_name),
        ts_error = None, ts_audiences = [lit ''jwtlet'']\<rparr>), w))\<rparr>\<rparr>"

definition separated_config :: jwtlet_config where
  "separated_config = sample_config\<lparr>jc_management := \<lparr>mc_client_audience = Some (lit ''jwtlet-admin'')\<rparr>\<rparr>"

theorem audience_separation_witness:
  "\<exists>v'. handle_management sorted_list_of_fset sample_fallback
      (assembled_management bound_platform separated_config () () (lit ''jwtlet'') (lit ''edc'') (lit ''https://jwtlet'')
         sample_verifier sample_verifier)
      (sample_request POST [lit ''mappings'']) ((sample_verifier, ()), mem_new)
    = ((status_only 401, []), (v', mem_new))"
proof (rule audience_separation [where tok = "lit ''admin-token''"])
  show "management_audience separated_config (lit ''jwtlet'') \<noteq> lit ''jwtlet''"
    by (simp add: management_audience_def separated_config_def)
  show "set (ts_audiences review) \<subseteq> {lit ''jwtlet''}"
    if "env_post (pf_k8s bound_platform) rq w = (Replied code (Ok review), w')" for rq w code review w'
    using that by (auto simp: bound_platform_def)
  show "extract_bearer_token (mr_authorization (sample_request POST [lit ''mappings''])) = Some (lit ''admin-token'')"
    by code_simp
  show "management_routes (mr_method (sample_request POST [lit ''mappings''])) (mr_path (sample_request POST [lit ''mappings'']))
      = Routed CreateMapping ROLE_MAPPINGS_WRITE"
    by code_simp
qed

end
