(* ===== verification/Jwtlet_Process.thy ===== *)
theory Jwtlet_Process
  imports Api_Server
begin

section \<open>The process\<close>

text \<open>
  \<^verbatim>\<open>main\<close> of \<^verbatim>\<open>crates/jwtlet-server/src/main.rs\<close> and
  \<^verbatim>\<open>crates/jwtlet-server/src/telemetry/mod.rs\<close>: telemetry is set up, the service runs,
  telemetry is flushed, and the process ends with a status.

  The OpenTelemetry and logging libraries are not part of the program: the exporter, the
  provider and its shutdown are the fields of a telemetry platform. What the program does to
  the process, the global propagator, the global provider and the subscriber, is its state; what
  it does over time, the lines on standard error, the run of the service, the shutdown of the
  provider and the last line of the log, is the list of the events of the process.
\<close>

record ('x, 'p) telemetry_platform =
  tl_env :: "str \<Rightarrow> (str, unit) result option"
  tl_exporter :: "('x, str) result"
  tl_provider :: "str \<Rightarrow> 'x \<Rightarrow> 'p"
  tl_filter :: "(str, unit) result"
  tl_shutdown :: "'p \<Rightarrow> (unit, str) result"

datatype 'p process_event =
    Eprintln str
  | SubscriberInstalled str "'p option"
  | ServiceReturned
  | ProviderShutdown 'p
  | LogInfo str
  | LogError str

record 'p process_state =
  ps_propagator :: bool
  ps_tracer_provider :: "'p option"
  ps_subscriber :: "(str \<times> 'p option) option"
  ps_events :: "'p process_event list"

definition process_start :: "'p process_state" where
  "process_start = \<lparr>ps_propagator = False, ps_tracer_provider = None, ps_subscriber = None, ps_events = []\<rparr>"

definition log_event :: "'p process_event \<Rightarrow> 'p process_state \<Rightarrow> 'p process_state" where
  "log_event ev ps = ps\<lparr>ps_events := ps_events ps @ [ev]\<rparr>"

definition SERVICE_NAME :: str where
  "SERVICE_NAME = lit ''jwtlet''"

text \<open>
  An environment variable is unset, has a value, or has one that is not Unicode:
  \<^verbatim>\<open>var_os\<close> asks whether it is set, \<^verbatim>\<open>var\<close> needs a Unicode value.
\<close>

definition var_os_is_some :: "('x, 'p) telemetry_platform \<Rightarrow> str \<Rightarrow> bool" where
  "var_os_is_some tp name \<longleftrightarrow> tl_env tp name \<noteq> None"

definition env_var :: "('x, 'p) telemetry_platform \<Rightarrow> str \<Rightarrow> str option" where
  "env_var tp name = (case tl_env tp name of Some (Ok v) \<Rightarrow> Some v | _ \<Rightarrow> None)"

definition build_provider ::
    "('x, 'p) telemetry_platform \<Rightarrow> 'p process_state \<Rightarrow> ('p, str) result \<times> 'p process_state" where
  "build_provider tp ps =
     (let ps1 = ps\<lparr>ps_propagator := True\<rparr> in
      bind_io (tl_exporter tp, ps1) (\<lambda>exporter ps2.
        let service_name = (case env_var tp (lit ''OTEL_SERVICE_NAME'') of Some n \<Rightarrow> n | None \<Rightarrow> SERVICE_NAME);
            provider = tl_provider tp service_name exporter
        in (Ok provider, ps2\<lparr>ps_tracer_provider := Some provider\<rparr>)))"

definition telemetry_init ::
    "('x, 'p) telemetry_platform \<Rightarrow> 'p process_state \<Rightarrow> 'p option \<times> 'p process_state" where
  "telemetry_init tp ps =
     (let (provider, ps1) =
        (if var_os_is_some tp (lit ''OTEL_EXPORTER_OTLP_ENDPOINT'')
         then (case build_provider tp ps of
                 (Ok p, ps') \<Rightarrow> (Some p, ps')
               | (Err e, ps') \<Rightarrow>
                   (None, log_event (Eprintln (lit ''jwtlet: failed to initialize OpenTelemetry export ('' @ e
                      @ lit ''); continuing without it'')) ps'))
         else (None, ps));
          env_filter = (case tl_filter tp of Ok f \<Rightarrow> f | Err _ \<Rightarrow> lit ''info'')
      in (provider, log_event (SubscriberInstalled env_filter provider) (ps1\<lparr>ps_subscriber := Some (env_filter, provider)\<rparr>)))"

definition telemetry_shutdown ::
    "('x, 'p) telemetry_platform \<Rightarrow> 'p option \<Rightarrow> 'p process_state \<Rightarrow> 'p process_state" where
  "telemetry_shutdown tp provider ps =
     (case provider of
        None \<Rightarrow> ps
      | Some p \<Rightarrow>
          (case tl_shutdown tp p of
             Ok _ \<Rightarrow> log_event (ProviderShutdown p) ps
           | Err e \<Rightarrow> log_event (Eprintln (lit ''jwtlet: error shutting down tracer provider: '' @ e))
                 (log_event (ProviderShutdown p) ps)))"

text \<open>
  The span of a request (\<^verbatim>\<open>make_http_span\<close> of \<^verbatim>\<open>server/mod.rs\<close>). The global
  propagator reads the caller's trace context from the headers once one is installed; before
  that it reads nothing. The span exists for the subscriber only when the filter enables it, and
  \<^verbatim>\<open>set_parent\<close> has an effect only on a span of the OpenTelemetry layer, which is part of
  the subscriber only together with a provider. How a filter reads a span and how the
  propagator reads headers are parameters.
\<close>

record 'c http_span =
  hs_name :: str
  hs_otel_kind :: str
  hs_otel_name :: str
  hs_method :: str
  hs_path :: str
  hs_parent :: "'c option"

definition make_http_span ::
    "(str \<Rightarrow> bool) \<Rightarrow> ('h \<Rightarrow> 'c option) \<Rightarrow> 'p process_state \<Rightarrow> str \<Rightarrow> str \<Rightarrow> 'h \<Rightarrow> 'c http_span option" where
  "make_http_span enabled extract ps method path headers =
     (let parent_cx = (if ps_propagator ps then extract headers else None) in
      case ps_subscriber ps of
        None \<Rightarrow> None
      | Some (env_filter, otel_layer) \<Rightarrow>
          if enabled env_filter
          then Some \<lparr>hs_name = lit ''http_request'', hs_otel_kind = lit ''server'', hs_otel_name = method @ lit '' '' @ path,
                 hs_method = method, hs_path = path, hs_parent = (if otel_layer = None then None else parent_cx)\<rparr>
          else None)"

text \<open>The status of the process: zero for a success, one after a fatal error.\<close>

fun exit_status :: "('a, 'e) result \<Rightarrow> nat" where
  "exit_status (Ok _) = 0"
| "exit_status (Err _) = 1"

text \<open>
  \<^verbatim>\<open>main\<close> around the result of \<^verbatim>\<open>run_jwtlet\<close>. The result is that of the start-up
  when it fails, and else that of the servers.
\<close>

definition main_result ::
    "('a, 'e) result \<Rightarrow> run_state \<Rightarrow> (unit, 'e + server_error) result option" where
  "main_result startup r =
     (case startup of Err e \<Rightarrow> Some (Err (Inl e)) | Ok _ \<Rightarrow> map_option (map_err Inr) (run_server_result r))"

text \<open>
  \<^verbatim>\<open>main\<close>: the service runs in the process that the initialisation left behind, and its error
  is kept until the provider has been shut down.
\<close>

definition main_jwtlet ::
    "('e \<Rightarrow> str) \<Rightarrow> ('x, 'p) telemetry_platform \<Rightarrow> ('p process_state \<Rightarrow> (unit, 'e) result) \<Rightarrow> nat \<times> 'p process_state" where
  "main_jwtlet show_error tp service =
     (case telemetry_init tp process_start of
        (tracer_provider, ps) \<Rightarrow>
          (let result = service ps;
               ps1 = telemetry_shutdown tp tracer_provider (log_event ServiceReturned ps)
           in (exit_status result,
               log_event (case result of Ok _ \<Rightarrow> LogInfo (lit ''Shutdown complete'')
                          | Err e \<Rightarrow> LogError (lit ''Fatal error: '' @ show_error e)) ps1)))"

subsection \<open>What telemetry leaves behind\<close>

text \<open>The provider that the environment asks for and permits, and the filter of the log.\<close>

definition configured_provider :: "('x, 'p) telemetry_platform \<Rightarrow> 'p option" where
  "configured_provider tp =
     (if var_os_is_some tp (lit ''OTEL_EXPORTER_OTLP_ENDPOINT'')
      then case tl_exporter tp of
             Err _ \<Rightarrow> None
           | Ok x \<Rightarrow> Some (tl_provider tp (case env_var tp (lit ''OTEL_SERVICE_NAME'') of Some n \<Rightarrow> n | None \<Rightarrow> SERVICE_NAME) x)
      else None)"

definition configured_filter :: "('x, 'p) telemetry_platform \<Rightarrow> str" where
  "configured_filter tp = (case tl_filter tp of Ok f \<Rightarrow> f | Err _ \<Rightarrow> lit ''info'')"

definition init_failure :: "('x, 'p) telemetry_platform \<Rightarrow> 'p process_event list" where
  "init_failure tp =
     (case (var_os_is_some tp (lit ''OTEL_EXPORTER_OTLP_ENDPOINT''), tl_exporter tp) of
        (True, Err e) \<Rightarrow> [Eprintln (lit ''jwtlet: failed to initialize OpenTelemetry export ('' @ e @ lit ''); continuing without it'')]
      | _ \<Rightarrow> [])"

definition shutdown_events :: "('x, 'p) telemetry_platform \<Rightarrow> 'p \<Rightarrow> 'p process_event list" where
  "shutdown_events tp p =
     ProviderShutdown p
     # (case tl_shutdown tp p of Ok _ \<Rightarrow> [] | Err e \<Rightarrow> [Eprintln (lit ''jwtlet: error shutting down tracer provider: '' @ e)])"

lemma telemetry_init_exact:
  "telemetry_init tp ps =
     (configured_provider tp,
      ps\<lparr>ps_propagator := ps_propagator ps \<or> var_os_is_some tp (lit ''OTEL_EXPORTER_OTLP_ENDPOINT''),
         ps_tracer_provider := (case configured_provider tp of None \<Rightarrow> ps_tracer_provider ps | Some p \<Rightarrow> Some p),
         ps_subscriber := Some (configured_filter tp, configured_provider tp),
         ps_events := ps_events ps @ init_failure tp @ [SubscriberInstalled (configured_filter tp) (configured_provider tp)]\<rparr>)"
  by (cases "tl_exporter tp")
    (simp_all add: telemetry_init_def build_provider_def configured_provider_def configured_filter_def init_failure_def
      log_event_def Let_def)

lemma telemetry_shutdown_exact:
  "telemetry_shutdown tp provider ps =
     ps\<lparr>ps_events := ps_events ps @ (case provider of None \<Rightarrow> [] | Some p \<Rightarrow> shutdown_events tp p)\<rparr>"
  by (auto simp: telemetry_shutdown_def shutdown_events_def log_event_def split: option.split result.split)

end
