(* ===== verification/Deployment_Properties.thy ===== *)
theory Deployment_Properties
  imports Sample_System Jwtlet_Process
begin

section \<open>Properties of configuration, assembly and life cycle\<close>

text \<open>
  From a configuration to a running process: what validation accepts and reports, what an
  assembled runtime is, and how the process ends.
\<close>

text \<open>C32: Validation accepts exactly the configurations that meet every rule, and otherwise
  reports one message for each violated rule, all of them at once.\<close>

theorem validation_complete:
  "validate url_scheme path_exists cfg =
     (if valid_config url_scheme path_exists cfg then Ok ()
      else Err (Multiple (config_errors url_scheme path_exists cfg)))
   \<and> length (config_errors url_scheme path_exists cfg)
       = length (filter Not (config_rules url_scheme path_exists cfg))"
  using validate_Ok_iff [of url_scheme path_exists cfg] length_config_errors [of url_scheme path_exists cfg]
  by (auto simp: validate_def violated_def Let_def)

text \<open>C33: A started memory backend is what the configuration says, setting by setting. The
  configuration was validated. The exchange demands the configured client audience of its
  callers, issues under the configured issuer, to the configured audience by default and for the
  configured lifetime, and confirms callers by a verifier for the configured cluster that is
  initialised and admits service accounts only; tokens are signed through the client of the
  configured Vault under the configured participant context, and the published keys come from
  the same client. Management has a second verifier of the same kind, demands its own audience,
  or without one that of the exchange, and admits the configured accounts by their roles.
  Exchange and management work on the one memory store, which is empty.\<close>

theorem started_runtime_matches_config:
  assumes "run_jwtlet it pf dr url_scheme path_exists loaded w = (Ok (StartedMemory rt s), w')"
  shows "\<exists>cfg. loaded = Ok cfg \<and> valid_config url_scheme path_exists cfg
    \<and> tk_client_audience (jc_token cfg) = Some (te_client_audience (rt_token_service rt))
    \<and> tk_audience (jc_token cfg) = Some (te_audience (rt_token_service rt))
    \<and> jc_issuer cfg = Some (te_issuer (rt_token_service rt))
    \<and> jc_issuer cfg = Some (am_issuer (rt_metadata rt))
    \<and> te_token_ttl_secs (rt_token_service rt) = tk_token_ttl_secs (jc_token cfg)
    \<and> te_verifier (rt_token_service rt) = k8s_verify_token (pf_k8s pf)
    \<and> verifier_ready (jc_k8s cfg) (rt_exchange_verifier rt)
    \<and> te_jwtlet_participant_context (rt_token_service rt) = tk_participant_context_claim (jc_token cfg)
    \<and> (\<exists>vc w1 w2. create_vault_client pf (jc_vault cfg) (signing_key_name cfg) w = (Ok vc, w1)
         \<and> te_generator (rt_token_service rt) = pf_generator pf vc DEFAULT_SIGNING_KEY_PREFIX
         \<and> create_key_resolver pf vc w1 = (Ok (rt_key_resolver rt), w2))
    \<and> rt_management_verify rt = k8s_verify_token (pf_k8s pf)
    \<and> verifier_ready (jc_k8s cfg) (rt_management_verifier rt)
    \<and> Some (rt_management_client_audience rt) =
        (case mc_client_audience (jc_management cfg) of None \<Rightarrow> tk_client_audience (jc_token cfg) | Some a \<Rightarrow> Some a)
    \<and> rt_service_account_authorizer rt = mem_authorize (configured_accounts (jc_service_accounts cfg))
    \<and> te_resource_service (rt_token_service rt) = memory_store \<and> rt_resource_service rt = memory_store
    \<and> s = mem_new"
proof -
  obtain cfg where cfg: "loaded = Ok cfg" "valid_config url_scheme path_exists cfg"
      and run: "run_backend it pf dr cfg w = (Ok (StartedMemory rt s), w')"
    using assms by (rule run_jwtlet_Ok)
  from run have asm: "assemble pf cfg memory_store w = (Ok rt, w')" and s: "s = mem_new"
    by (auto simp: run_backend_def assemble_memory_def bind_io_Ok_iff split: storage_backend.splits)
  obtain vc kr w1 w2 aud daud iss kv mv where
      vault: "create_vault_client pf (jc_vault cfg) (signing_key_name cfg) w = (Ok vc, w1)"
        "create_key_resolver pf vc w1 = (Ok kr, w2)"
      and rt: "rt = build_runtime pf cfg memory_store vc kr aud daud iss kv mv"
      and set: "tk_client_audience (jc_token cfg) = Some aud" "tk_audience (jc_token cfg) = Some daud"
        "jc_issuer cfg = Some iss"
      and ready: "verifier_ready (jc_k8s cfg) kv" "verifier_ready (jc_k8s cfg) mv"
    using asm by (rule assemble_Ok)
  have "Some (management_audience cfg aud)
      = (case mc_client_audience (jc_management cfg) of None \<Rightarrow> tk_client_audience (jc_token cfg) | Some a \<Rightarrow> Some a)"
    by (simp add: management_audience_def set split: option.split)
  with cfg s vault set ready show ?thesis
    by (intro exI [of _ cfg])
      (simp add: rt build_runtime_def build_token_service_def new_metadata_def build_service_account_authorizer_def)
qed

definition sample_driver :: "(unit, unit, ref_db, ref_db) pg_driver" where
  "sample_driver = \<lparr>dr_parse_url = (\<lambda>_. Ok ()), dr_connect = (\<lambda>_ _ w. (Ok \<lparr>rd_mappings = [], rd_scopes = []\<rparr>, w)),
     dr_pool = ref_pg\<rparr>"

lemma sample_ready:
  "create_k8s_verifier sample_platform (jc_k8s sample_config) () = (Ok sample_verifier, ())"
  by code_simp

lemma sample_vault: "create_vault_client sample_platform (jc_vault sample_config) key () = (Ok (), ())"
  by (simp add: create_vault_client_def sample_config_def sample_platform_def)

lemma sample_assemble:
  fixes b defines "cfg \<equiv> sample_config\<lparr>jc_storage_backend := b\<rparr>"
  shows "assemble sample_platform cfg store () =
    (Ok (build_runtime sample_platform cfg store () () (lit ''jwtlet'') (lit ''edc'') (lit ''https://jwtlet'')
       sample_verifier sample_verifier), ())"
  using sample_ready sample_vault [of "signing_key_name cfg"] unfolding cfg_def
  by (simp add: assemble_def create_key_resolver_def)
    (simp add: sample_config_def default_config_def default_token_config_def sample_platform_def)

lemma sample_start:
  "run_jwtlet sorted_list_of_fset sample_platform sample_driver https_scheme (\<lambda>_. True) (Ok sample_config) ()
     = (Ok (StartedMemory sample_runtime mem_new), ())"
proof -
  have b: "jc_storage_backend sample_config = Memory" by (simp add: sample_config_def default_config_def)
  have same: "sample_config\<lparr>jc_storage_backend := Memory\<rparr> = sample_config" by (simp add: sample_config_def default_config_def)
  have "validate https_scheme (\<lambda>_. True) sample_config = Ok ()"
    using sample_config_valid by (simp add: validate_Ok_iff)
  then show ?thesis
    using b sample_assemble [of Memory memory_store, unfolded same]
    by (simp add: run_jwtlet_def run_backend_def assemble_memory_def sample_runtime_def)
qed

theorem started_runtime_matches_config_witness:
  "valid_config https_scheme (\<lambda>_. True) sample_config
   \<and> te_token_ttl_secs (rt_token_service sample_runtime) = tk_token_ttl_secs (jc_token sample_config)
   \<and> te_client_audience (rt_token_service sample_runtime) = lit ''jwtlet''
   \<and> te_issuer (rt_token_service sample_runtime) = lit ''https://jwtlet''
   \<and> verifier_ready (jc_k8s sample_config) (rt_exchange_verifier sample_runtime)"
proof -
  have "tk_client_audience (jc_token sample_config) = Some (lit ''jwtlet'')" "jc_issuer sample_config = Some (lit ''https://jwtlet'')"
    by (simp_all add: sample_config_def default_config_def default_token_config_def)
  with started_runtime_matches_config [OF sample_start] show ?thesis by auto
qed

text \<open>C34: With a validated configuration, assembly never fails because of a setting: an error is
  one the platform reported, from Vault, the key resolver, the verifier, the file system, the
  cluster certificate or the HTTP client.\<close>

theorem valid_config_assembles:
  assumes "validate url_scheme path_exists cfg = Ok ()" "assemble pf cfg store w = (Err e, w')"
  shows "platform_error e"
  using assms assemble_Err by (simp add: validate_Ok_iff)

definition failing_platform :: "(unit, unit, unit, unit, unit) platform" where
  "failing_platform = sample_platform\<lparr>pf_vault_new := (\<lambda>_. Err (lit ''sealed''))\<rparr>"

theorem valid_config_assembles_witness:
  "\<exists>e w'. assemble failing_platform sample_config memory_store () = (Err e, w') \<and> platform_error e"
proof -
  have run: "assemble failing_platform sample_config memory_store () = (Err (Vault (lit ''sealed'')), ())"
    by (simp add: assemble_def create_vault_client_def failing_platform_def sample_config_def)
  have "validate https_scheme (\<lambda>_. True) sample_config = Ok ()"
    using sample_config_valid by (simp add: validate_Ok_iff)
  from valid_config_assembles [OF this run] run show ?thesis by blast
qed

text \<open>C35: With a validated configuration the options of a Postgres connection can be built whenever
  the driver parses the URL: no SSL mode that passes validation is refused later, and every
  option is handed on.\<close>

theorem validated_pool_options_build:
  assumes "valid_config url_scheme path_exists cfg" "jc_storage_backend cfg = Postgres url pool"
    and "dr_parse_url dr url = Ok base"
  shows "\<exists>ssl. build_connect_options dr url pool
      = Ok \<lparr>co_url = base, co_application_name = pp_application_name pool, co_ssl_mode = ssl,
            co_ssl_root_cert = pp_ssl_root_cert pool, co_statement_cache_capacity = pp_statement_cache_capacity pool\<rparr>
    \<and> (ssl = None \<longleftrightarrow> pp_sslmode pool = None)
    \<and> (\<forall>mode. pp_sslmode pool = Some mode \<longrightarrow> parse_ssl_mode mode = Ok (the ssl))"
proof (cases "pp_sslmode pool")
  case None
  with build_connect_options_valid [OF assms] show ?thesis by auto
next
  case (Some mode)
  then have "is_ok (parse_ssl_mode mode)"
    using valid_config_storage(2) [OF assms(1,2) Some] by (simp add: parse_ssl_mode_Ok_iff)
  then obtain parsed where "parse_ssl_mode mode = Ok parsed" by (auto simp: is_ok_iff)
  with assms(3) Some show ?thesis by (simp add: build_connect_options_def)
qed

definition sample_pg_config :: jwtlet_config where
  "sample_pg_config = sample_config\<lparr>jc_storage_backend := Postgres (lit ''postgres://db'')
     (default_pool_config\<lparr>pp_sslmode := Some (lit ''require'')\<rparr>)\<rparr>"

lemma sample_pg_config_valid: "valid_config https_scheme (\<lambda>_. True) sample_pg_config"
  using sample_config_valid
  by (simp add: valid_config_def config_rules_def storage_rules_def pool_rules_def sample_pg_config_def
      default_pool_config_def VALID_SSL_MODES_def)

theorem validated_pool_options_build_witness:
  "\<exists>opts. build_connect_options sample_driver (lit ''postgres://db'') (default_pool_config\<lparr>pp_sslmode := Some (lit ''require'')\<rparr>)
     = Ok opts \<and> co_ssl_mode opts = Some Require"
proof -
  have "jc_storage_backend sample_pg_config = Postgres (lit ''postgres://db'')
      (default_pool_config\<lparr>pp_sslmode := Some (lit ''require'')\<rparr>)"
    by (simp add: sample_pg_config_def)
  moreover have "dr_parse_url sample_driver (lit ''postgres://db'') = Ok ()"
    by (simp add: sample_driver_def)
  ultimately show ?thesis
    using validated_pool_options_build [OF sample_pg_config_valid, of "lit ''postgres://db''" "default_pool_config\<lparr>pp_sslmode := Some (lit ''require'')\<rparr>"
        sample_driver "()"]
    by (auto simp: parse_ssl_mode_def)
qed

text \<open>C36: The process ends only in good order: \<^verbatim>\<open>run_server\<close> returns only after both servers
  have been cancelled and joined, with the result of each logged exactly once, and only for a
  logged reason, a shutdown signal or a server that failed; after at most eight events it has
  returned, and until then some event is possible.\<close>

theorem orderly_shutdown:
  assumes "(run_step ^^ n) run_start r"
  shows "n \<le> 8
    \<and> (run_phase r = Returned \<longrightarrow> run_cancelled r \<and> run_binding r = [] \<and> run_serving r = [] \<and> run_ended r = []
        \<and> mset (joined_tasks r) = {#ExchangeTask, ManagementTask#} \<and> (\<exists>l\<in>set (run_log r). stop_reason l))
    \<and> (run_phase r = Returned \<longleftrightarrow> (\<nexists>r'. run_step r r'))"
proof -
  have inv: "run_invariant r" by (rule run_reach_invariant [OF run_steps_reach [OF assms]])
  have stuck: "\<not> run_step r r'" if "run_phase r = Returned" for r'
    using that inv by (auto elim!: run_stepE simp: run_invariant_def)
  have "n \<le> 8" using run_length [OF assms] by (simp add: run_measure_def run_start_def)
  moreover have "run_phase r = Returned \<longleftrightarrow> (\<nexists>r'. run_step r r')" using stuck run_progress [OF inv] by blast
  moreover have "run_phase r = Returned \<Longrightarrow> run_cancelled r \<and> run_binding r = [] \<and> run_serving r = [] \<and> run_ended r = []
      \<and> mset (joined_tasks r) = {#ExchangeTask, ManagementTask#} \<and> (\<exists>l\<in>set (run_log r). stop_reason l)"
    using inv by (auto simp: run_invariant_def)
  ultimately show ?thesis by blast
qed

text \<open>Runs in which one server cannot bind its port.\<close>

fun other_task :: "server_task \<Rightarrow> server_task" where
  "other_task ExchangeTask = ManagementTask"
| "other_task ManagementTask = ExchangeTask"

lemma bind_failure_run:
  "\<exists>r. (run_step ^^ 6) run_start r \<and> run_phase r = Returned
     \<and> run_log r = [Listening (other_task t), TaskError t (show_server_error e), TaskCompleted (other_task t)]"
proof -
  let ?e = "TaskFailed e" and ?o = "other_task t"
  define r1 where "r1 = run_start\<lparr>run_binding := [t], run_serving := [?o], run_log := [Listening ?o]\<rparr>"
  define r2 where "r2 = r1\<lparr>run_binding := [], run_ended := [(t, ?e)]\<rparr>"
  define r3 where "r3 = r2\<lparr>run_phase := Draining, run_cancelled := True, run_ended := [],
     run_log := run_log r2 @ [handle_task_result (t, ?e)]\<rparr>"
  define r4 where "r4 = r3\<lparr>run_serving := [], run_ended := [(?o, TaskOk)]\<rparr>"
  define r5 where "r5 = r4\<lparr>run_ended := [], run_log := run_log r4 @ [handle_task_result (?o, TaskOk)]\<rparr>"
  define r6 where "r6 = r5\<lparr>run_phase := Returned\<rparr>"
  note defs = r1_def r2_def r3_def r4_def r5_def r6_def run_start_def
  have "run_step run_start r1" using bound [of ?o run_start] by (cases t) (simp_all add: defs)
  moreover have "run_step r1 r2" using bind_failed [of t r1 ?e] by (simp add: defs)
  moreover have "run_step r2 r3" using first_joined [of r2 "(t, ?e)"] by (simp add: defs)
  moreover have "run_step r3 r4" using served [of ?o r3] by (simp add: defs)
  moreover have "run_step r4 r5" using next_joined [of r4 "(?o, TaskOk)"] by (simp add: defs)
  moreover have "run_step r5 r6" using all_joined [of r5] by (simp add: defs)
  ultimately have "(run_step ^^ Suc (Suc (Suc (Suc (Suc (Suc 0)))))) run_start r6"
    by (blast intro: relpowp_Suc_I2 relpowp_0_I)
  then have "(run_step ^^ 6) run_start r6" by (simp add: numeral_eq_Suc)
  moreover have "run_phase r6 = Returned"
    "run_log r6 = [Listening ?o, TaskError t (show_server_error e), TaskCompleted ?o]" by (simp_all add: defs)
  ultimately show ?thesis by blast
qed

theorem orderly_shutdown_witness:
  "\<exists>r. run_phase r = Returned \<and> run_cancelled r \<and> mset (joined_tasks r) = {#ExchangeTask, ManagementTask#}"
  using bind_failure_run orderly_shutdown by blast

text \<open>C37: The failure of a server is only logged. For either server and for every error of binding its
  port there is a run of \<^verbatim>\<open>run_server\<close> in which the other server comes up, that error is logged,
  the other server is shut down, and the process then reports \<^verbatim>\<open>Shutdown complete\<close> as its last
  event and ends with exit status 0, whatever the telemetry.\<close>

theorem failed_server_exits_cleanly:
  "\<exists>r result ps. run_reach r
     \<and> run_log r = [Listening (other_task t), TaskError t (lit ''IO error: '' @ e), TaskCompleted (other_task t)]
     \<and> main_result (Ok rt) r = Some result
     \<and> main_jwtlet show_error tp (\<lambda>_. result) = (0, ps) \<and> last (ps_events ps) = LogInfo (lit ''Shutdown complete'')"
proof -
  obtain r where r: "(run_step ^^ 6) run_start r" "run_phase r = Returned"
      "run_log r = [Listening (other_task t), TaskError t (lit ''IO error: '' @ e), TaskCompleted (other_task t)]"
    using bind_failure_run [of t "Io e"] by auto
  from r(2) have "main_result (Ok rt) r = Some (Ok ())" by (simp add: main_result_def run_server_result_def)
  with run_steps_reach [OF r(1)] r(3) show ?thesis
    by (intro exI [of _ r] exI [of _ "Ok ()"])
      (simp add: main_jwtlet_def telemetry_init_exact log_event_def Let_def)
qed

text \<open>C38: The life of the process, as a sequence of events. A tracer provider exists exactly when an endpoint
  is configured and the exporter can be built, and it carries the configured service name; a
  failed exporter is one line on standard error, before the subscriber is installed, and not an
  end. Logging is installed in any case, with the provider's layer when there is one. Then the
  service runs; after it has returned, and whether it succeeded or not, the provider is shut
  down, exactly once, a failure of which is again one line on standard error; last the outcome of
  the service is logged, and its exit status is that of the process. While the service runs, the
  span of a request exists when the filter enables it, and it continues the caller's trace
  exactly when there is a provider: not when an endpoint is configured whose exporter failed.\<close>

theorem telemetry_lifecycle:
  fixes tp :: "('x, 'p) telemetry_platform" and service :: "'p process_state \<Rightarrow> (unit, 'e) result"
  defines "provider \<equiv> (case (var_os_is_some tp (lit ''OTEL_EXPORTER_OTLP_ENDPOINT''), tl_exporter tp) of
        (True, Ok x) \<Rightarrow>
          Some (tl_provider tp (case tl_env tp (lit ''OTEL_SERVICE_NAME'') of Some (Ok name) \<Rightarrow> name | _ \<Rightarrow> lit ''jwtlet'') x)
      | _ \<Rightarrow> None)"
    and "env_filter \<equiv> (case tl_filter tp of Ok f \<Rightarrow> f | Err _ \<Rightarrow> lit ''info'')"
    and "running \<equiv> snd (telemetry_init tp process_start)"
  shows "ps_tracer_provider running = provider
    \<and> fst (main_jwtlet show_error tp service) = (case service running of Ok _ \<Rightarrow> 0 | Err _ \<Rightarrow> 1)
    \<and> ps_events (snd (main_jwtlet show_error tp service)) =
        (case (var_os_is_some tp (lit ''OTEL_EXPORTER_OTLP_ENDPOINT''), tl_exporter tp) of
           (True, Err e) \<Rightarrow>
             [Eprintln (lit ''jwtlet: failed to initialize OpenTelemetry export ('' @ e @ lit ''); continuing without it'')]
         | _ \<Rightarrow> [])
        @ [SubscriberInstalled env_filter provider, ServiceReturned]
        @ (case provider of
             None \<Rightarrow> []
           | Some p \<Rightarrow> ProviderShutdown p # (case tl_shutdown tp p of
               Ok _ \<Rightarrow> [] | Err e \<Rightarrow> [Eprintln (lit ''jwtlet: error shutting down tracer provider: '' @ e)]))
        @ [case service running of Ok _ \<Rightarrow> LogInfo (lit ''Shutdown complete'')
           | Err e \<Rightarrow> LogError (lit ''Fatal error: '' @ show_error e)]
    \<and> make_http_span enabled extract running meth path headers =
        (if enabled env_filter
         then Some \<lparr>hs_name = lit ''http_request'', hs_otel_kind = lit ''server'', hs_otel_name = meth @ lit '' '' @ path,
                hs_method = meth, hs_path = path, hs_parent = (if provider = None then None else extract headers)\<rparr>
         else None)"
proof -
  have provider: "configured_provider tp = provider"
    by (auto simp: configured_provider_def provider_def env_var_def SERVICE_NAME_def split: option.split result.split)
  have filter: "configured_filter tp = env_filter" by (simp add: configured_filter_def env_filter_def)
  have exit: "exit_status r = (case r of Ok _ \<Rightarrow> 0 | Err _ \<Rightarrow> 1)" for r :: "(unit, 'e) result" by (cases r) simp_all
  have on: "provider \<noteq> None \<Longrightarrow> var_os_is_some tp (lit ''OTEL_EXPORTER_OTLP_ENDPOINT'')"
    by (auto simp: provider_def split: bool.splits)
  have running: "running = \<lparr>ps_propagator = var_os_is_some tp (lit ''OTEL_EXPORTER_OTLP_ENDPOINT''),
      ps_tracer_provider = provider, ps_subscriber = Some (env_filter, provider),
      ps_events = init_failure tp @ [SubscriberInstalled env_filter provider]\<rparr>"
    by (simp add: running_def telemetry_init_exact provider filter process_start_def split: option.split)
  have init: "telemetry_init tp process_start = (provider, running)"
    by (simp add: running_def prod_eq_iff telemetry_init_exact provider)
  show ?thesis
    using on
    by (simp add: main_jwtlet_def init exit running telemetry_shutdown_exact log_event_def shutdown_events_def
        init_failure_def make_http_span_def Let_def split: option.split)
qed

subsection \<open>Discovery\<close>

text \<open>The path of a URL from its segments.\<close>

definition url_path :: "str list \<Rightarrow> str" where
  "url_path segs = concat (map (\<lambda>seg. lit ''/'' @ seg) segs)"

text \<open>C39: Discovery is consistent: the issuer of the published metadata is the issuer of the tokens; the
  token endpoint and the key set it names are paths under the issuer that the exchange server
  routes to the token handler and to the key set; the grant type it names is the one the token
  handler demands; and a GET of the well-known path answers exactly that document.\<close>

theorem discovery_consistent:
  fixes pf cfg store vc kr aud daud iss kv mv
  defines "rt \<equiv> build_runtime pf cfg store vc kr aud daud iss kv mv"
  shows "am_issuer (rt_metadata rt) = te_issuer (rt_token_service rt)
    \<and> (\<exists>p. am_token_endpoint (rt_metadata rt) = am_issuer (rt_metadata rt) @ url_path p
          \<and> exchange_routes p = Some Token \<and> POST \<in> set (route_methods Token))
    \<and> (\<exists>p. am_jwks_uri (rt_metadata rt) = am_issuer (rt_metadata rt) @ url_path p
          \<and> exchange_routes p = Some Jwks \<and> GET \<in> set (route_methods Jwks))
    \<and> am_grant_types_supported (rt_metadata rt) = [TOKEN_EXCHANGE_GRANT_TYPE]
    \<and> serve_exchange rt jwk_set now jti
        \<lparr>xr_method = GET, xr_path = [lit ''.well-known'', lit ''oauth-authorization-server''], xr_form = form\<rparr> st
      = (\<lparr>ar_status = 200, ar_body = JsonDoc (metadata_json (rt_metadata rt))\<rparr>, st)"
proof (intro conjI)
  show "\<exists>p. am_token_endpoint (rt_metadata rt) = am_issuer (rt_metadata rt) @ url_path p
      \<and> exchange_routes p = Some Token \<and> POST \<in> set (route_methods Token)"
    by (intro exI [of _ "[lit ''token'']"])
      (simp add: rt_def build_runtime_def new_metadata_def url_path_def exchange_routes_def route_methods_def lit_def)
  show "\<exists>p. am_jwks_uri (rt_metadata rt) = am_issuer (rt_metadata rt) @ url_path p
      \<and> exchange_routes p = Some Jwks \<and> GET \<in> set (route_methods Jwks)"
    by (intro exI [of _ "[lit ''.well-known'', lit ''jwks.json'']"])
      (simp add: rt_def build_runtime_def new_metadata_def url_path_def exchange_routes_def route_methods_def lit_def)
qed (simp_all add: rt_def build_runtime_def new_metadata_def build_token_service_def TOKEN_EXCHANGE_GRANT_TYPE_def
    serve_exchange_def exchange_routes_def route_methods_def)

end
