(* ===== verification/Sample_Runs.thy ===== *)
theory Sample_Runs
  imports Exchange_Properties Management_Properties Deployment_Properties
begin

section \<open>Runs of the concrete system\<close>

text \<open>
  A run of the concrete system: the administrator creates the mapping, then the client asks
  for a token.
\<close>

definition sample_at :: "inner_store \<Rightarrow> request_task multiset \<Rightarrow> (unit, inner_store) system_state" where
  "sample_at s ts = (initial_state sample_runtime s ())\<lparr>sy_tasks := ts\<rparr>"

abbreviation sample_step :: "(unit, inner_store) system_state \<Rightarrow> system_event \<Rightarrow> (unit, inner_store) system_state \<Rightarrow> bool" where
  "sample_step \<equiv> system_step None sorted_list_of_fset sample_fallback (pf_k8s sample_platform) sample_runtime"

abbreviation sample_run :: "(unit, inner_store) history \<Rightarrow> (unit, inner_store) system_state \<Rightarrow> bool" where
  "sample_run \<equiv> system_run None sorted_list_of_fset sample_fallback (pf_k8s sample_platform) sample_runtime
     (initial_state sample_runtime mem_new ())"

lemma sample_at_sel [simp]:
  "sv_exchange_verifier (sample_at s ts) = sample_verifier" "sv_management_verifier (sample_at s ts) = sample_verifier"
  "sv_store (sample_at s ts) = s" "sy_tasks (sample_at s ts) = ts" "sv_world (sample_at s ts) = w"
  by (simp_all add: sample_at_def initial_state_def sample_runtime_def)

lemma sample_at_update [simp]:
  "(sample_at s ts)\<lparr>sy_tasks := ts'\<rparr> = sample_at s ts'"
  "(sample_at s ts)\<lparr>sv_store := s', sy_tasks := ts'\<rparr> = sample_at s' ts'"
  "(sample_at s ts)\<lparr>sv_exchange_verifier := sample_verifier, sv_world := w, sy_tasks := ts'\<rparr> = sample_at s ts'"
  "(sample_at s ts)\<lparr>sv_management_verifier := sample_verifier, sv_world := w, sy_tasks := ts'\<rparr> = sample_at s ts'"
  by (simp_all add: sample_at_def initial_state_def sample_runtime_def)

lemma sample_initial: "initial_state sample_runtime mem_new () = sample_at mem_new {#}"
  by (simp add: sample_at_def initial_state_def)

lemma sample_service_runtime: "rt_token_service sample_runtime = sample_service"
  by (simp add: sample_runtime_def sample_service_def)

lemma sample_management_runtime: "management_state_of sample_runtime = sample_management"
  by (simp add: sample_runtime_def sample_management_assembled)

text \<open>The administrator's request, from its arrival to its answer.\<close>

lemma sample_management_steps:
  assumes "management_admit sample_fallback sample_management req (sample_verifier, ()) = (Ok (admin_name, ep), (sample_verifier, ()))"
    and "run_endpoint sorted_list_of_fset memory_store req admin_name ep s = ((resp, evs), s')"
    and "sample_run h (sample_at s {#})"
  shows "sample_run (h @ [(sample_at s {#}, ManagementArrived req),
      (sample_at s {#MgReceived req#}, ManagementAdmitted req admin_name ep),
      (sample_at s {#MgAdmitted req admin_name ep#}, ManagementServed req admin_name ep resp evs)]) (sample_at s' {#})"
proof -
  have "sample_step (sample_at s {#}) (ManagementArrived req) (sample_at s {#MgReceived req#})"
    using management_arrives [of None sorted_list_of_fset sample_fallback "pf_k8s sample_platform" sample_runtime "sample_at s {#}" req]
    by simp
  moreover have "sample_step (sample_at s {#MgReceived req#}) (ManagementAdmitted req admin_name ep)
      (sample_at s {#MgAdmitted req admin_name ep#})"
    using management_admitted [of req "sample_at s {#MgReceived req#}" sample_fallback sample_runtime admin_name ep
        sample_verifier "()" None sorted_list_of_fset "pf_k8s sample_platform"] assms(1)
    by (simp add: sample_management_runtime moves_def)
  moreover have "sample_step (sample_at s {#MgAdmitted req admin_name ep#}) (ManagementServed req admin_name ep resp evs)
      (sample_at s' {#})"
    using management_served [of req admin_name ep "sample_at s {#MgAdmitted req admin_name ep#}" sorted_list_of_fset
        sample_runtime resp evs s' None sample_fallback "pf_k8s sample_platform"] assms(2)
    by (simp add: sample_management_runtime ends_def sample_management_def)
  ultimately show ?thesis
    using assms(3) by (metis (no_types, lifting) run_snoc append.assoc append_Cons append_Nil)
qed

text \<open>The client's request, from its arrival to its answer.\<close>

lemma sample_exchange_steps:
  assumes "exchange_begin form = (Ok () :: (unit, unit exchange_api_error) result)"
    and "exchange_verify sample_service form (sample_verifier, ()) = (Ok client, (sample_verifier, ()))"
    and "exchange_resolve sample_service form client s = (Ok va, s)"
    and "exchange_answer (exchange_sign sample_service now jti form client va) = out"
    and "sample_run h (sample_at s {#})"
  shows "sample_run (h @ [(sample_at s {#}, ExchangeArrived form),
      (sample_at s {#ExReceived form#}, ExchangeVerified form client),
      (sample_at s {#ExVerified form client#}, ExchangeResolved form client va),
      (sample_at s {#ExResolved form client va#}, TokenAnswered now jti form client va out)]) (sample_at s {#})"
proof -
  have "sample_step (sample_at s {#}) (ExchangeArrived form) (sample_at s {#ExReceived form#})"
    using exchange_arrives [OF assms(1), of None sorted_list_of_fset sample_fallback "pf_k8s sample_platform" sample_runtime "sample_at s {#}"]
    by simp
  moreover have "sample_step (sample_at s {#ExReceived form#}) (ExchangeVerified form client) (sample_at s {#ExVerified form client#})"
    using exchange_verified [of form "sample_at s {#ExReceived form#}" sample_runtime client sample_verifier "()"
        None sorted_list_of_fset sample_fallback "pf_k8s sample_platform"] assms(2)
    by (simp add: sample_service_runtime moves_def)
  moreover have "sample_step (sample_at s {#ExVerified form client#}) (ExchangeResolved form client va)
      (sample_at s {#ExResolved form client va#})"
    using exchange_resolved [OF refl, of form client "sample_at s {#ExVerified form client#}" sample_runtime va s
        sorted_list_of_fset sample_fallback "pf_k8s sample_platform"] assms(3)
    by (simp add: sample_service_runtime moves_def)
  moreover have "sample_step (sample_at s {#ExResolved form client va#}) (TokenAnswered now jti form client va out) (sample_at s {#})"
    using exchange_signed [of form client va "sample_at s {#ExResolved form client va#}" sample_runtime now jti out
        None sorted_list_of_fset sample_fallback "pf_k8s sample_platform"] assms(4)
    by (simp add: sample_service_runtime ends_def)
  ultimately show ?thesis
    using assms(5) by (metis (no_types, lifting) run_snoc append.assoc append_Cons append_Nil)
qed

definition sample_scope_store :: inner_store where
  "sample_scope_store = \<lparr>entries = [], scope_mappings = [(lit ''read'', sample_scope)]\<rparr>"

definition sample_answer :: "verification_result \<times> str" where
  "sample_answer = (\<lparr>vr_verified = True, vr_claims = [(lit ''role'', JString (lit ''reader''))], vr_audiences = {||}\<rparr>, lit ''edc'')"

definition sample_body :: json where
  "sample_body = exchange_response_body
     \<lparr>er_access_token = lit ''signed:ctx'', er_issued_token_type = ISSUED_TOKEN_TYPE, er_token_type = lit ''Bearer'',
      er_expires_in = 3600, er_scope = Some (lit ''read'')\<rparr>"

abbreviation post_scope :: mgmt_request where
  "post_scope \<equiv> sample_request POST [lit ''scopes'']"

abbreviation post_mapping :: mgmt_request where
  "post_mapping \<equiv> sample_request POST [lit ''mappings'']"

definition sample_setup :: "(unit, inner_store) history" where
  "sample_setup =
     [(sample_at mem_new {#}, ManagementArrived post_scope),
      (sample_at mem_new {#MgReceived post_scope#}, ManagementAdmitted post_scope admin_name CreateScopes),
      (sample_at mem_new {#MgAdmitted post_scope admin_name CreateScopes#},
         ManagementServed post_scope admin_name CreateScopes (status_only 201) [ScopeCreated admin_name (lit ''read'')]),
      (sample_at sample_scope_store {#}, ManagementArrived post_mapping),
      (sample_at sample_scope_store {#MgReceived post_mapping#}, ManagementAdmitted post_mapping admin_name CreateMapping),
      (sample_at sample_scope_store {#MgAdmitted post_mapping admin_name CreateMapping#},
         ManagementServed post_mapping admin_name CreateMapping (status_only 201)
           [MappingCreated admin_name client_name (lit ''ctx'')])]"

lemma sample_setup_run: "sample_run sample_setup (sample_at sample_store {#})"
proof -
  have admit: "management_admit sample_fallback sample_management post_scope (sample_verifier, ())
      = (Ok (admin_name, CreateScopes), (sample_verifier, ()))"
    "management_admit sample_fallback sample_management post_mapping (sample_verifier, ())
      = (Ok (admin_name, CreateMapping), (sample_verifier, ()))"
    by code_simp+
  have serve: "run_endpoint sorted_list_of_fset memory_store post_scope admin_name CreateScopes mem_new
      = ((status_only 201, [ScopeCreated admin_name (lit ''read'')]), sample_scope_store)"
    "run_endpoint sorted_list_of_fset memory_store post_mapping admin_name CreateMapping sample_scope_store
      = ((status_only 201, [MappingCreated admin_name client_name (lit ''ctx'')]), sample_store)"
    by code_simp+
  have start: "sample_run [] (sample_at mem_new {#})" unfolding sample_initial [symmetric] by (rule run_nil)
  from sample_management_steps [OF admit(2) serve(2) sample_management_steps [OF admit(1) serve(1) start]]
  show ?thesis by (simp add: sample_setup_def)
qed

abbreviation sample_before :: "(unit, inner_store) history" where
  "sample_before \<equiv> sample_setup @ [(sample_at sample_store {#}, ExchangeArrived sample_form),
     (sample_at sample_store {#ExReceived sample_form#}, ExchangeVerified sample_form sample_client),
     (sample_at sample_store {#ExVerified sample_form sample_client#}, ExchangeResolved sample_form sample_client sample_answer)]"

lemma sample_token_run:
  "sample_run (sample_before @ [(sample_at sample_store {#ExResolved sample_form sample_client sample_answer#},
     TokenAnswered 1000 (lit ''id'') sample_form sample_client sample_answer (200, sample_body))]) (sample_at sample_store {#})"
proof -
  have phases: "exchange_begin sample_form = (Ok () :: (unit, unit exchange_api_error) result)"
    "exchange_verify sample_service sample_form (sample_verifier, ()) = (Ok sample_client, (sample_verifier, ()))"
    "exchange_resolve sample_service sample_form sample_client sample_store = (Ok sample_answer, sample_store)"
    "exchange_answer (exchange_sign sample_service 1000 (lit ''id'') sample_form sample_client sample_answer) = (200, sample_body)"
    by code_simp+
  from sample_exchange_steps [OF phases sample_setup_run] show ?thesis by simp
qed

end
