(* ===== verification/Postgres_Runs.thy ===== *)
theory Postgres_Runs
  imports Sample_Runs
begin

section \<open>Runs over Postgres\<close>

text \<open>
  The system started on the Postgres backend. The lookup of an exchange sends two statements,
  between which other requests change the tables; the properties say what a token is worth
  nevertheless. Each is followed by a witness on the reference database.
\<close>

lemma started_postgres:
  assumes "run_jwtlet it pf dr url_scheme path_exists loaded w = (Ok (StartedPostgres rt db0), w0)"
  obtains cfg vc kr aud daud iss kv mv opts copts w1 db w2 where "loaded = Ok cfg"
      "rt = build_runtime pf cfg (postgres_store it (dr_pool dr)) vc kr aud daud iss kv mv"
      "dr_connect dr opts copts w1 = (Ok db, w2)"
      "db0 = db \<or> (\<exists>u. pg_initialize (dr_pool dr) db = (Ok u, db0))"
proof -
  obtain cfg where cfg: "loaded = Ok cfg" and run: "run_backend it pf dr cfg w = (Ok (StartedPostgres rt db0), w0)"
    using assms by (rule run_jwtlet_Ok)
  from run obtain url pool w1 where con: "connect_postgres dr url pool w = (Ok db0, w1)"
      and asm: "assemble pf cfg (postgres_store it (dr_pool dr)) w1 = (Ok rt, w0)"
    by (auto simp: run_backend_def assemble_postgres_def bind_io_Ok_iff split: storage_backend.splits if_splits)
  from asm obtain vc kr aud daud iss kv mv where
      rt: "rt = build_runtime pf cfg (postgres_store it (dr_pool dr)) vc kr aud daud iss kv mv"
    by (rule assemble_Ok)
  from con obtain opts copts db w2 where "dr_connect dr opts copts w = (Ok db, w2)"
      "db0 = db \<or> (\<exists>u. pg_initialize (dr_pool dr) db = (Ok u, db0))"
    by (auto simp: connect_postgres_def bind_io_Ok_iff map_err_io_Ok_iff split: if_splits prod.splits result.splits)
  with that cfg rt show thesis by blast
qed

context sql_database begin

text \<open>The database in which the servers start is the one the driver opened, with its data.\<close>

lemma started_database:
  assumes "dr_pool dr = pg"
    and "run_jwtlet it pf dr url_scheme path_exists (Ok cfg) w = (Ok (StartedPostgres rt db0), w0)"
    and "\<forall>opts copts w db w'. dr_connect dr opts copts w = (Ok db, w') \<longrightarrow> db_ok db"
  obtains vc kr aud daud iss kv mv where
    "rt = build_runtime pf cfg (postgres_store it pg) vc kr aud daud iss kv mv" "db_ok db0"
  using assms(2)
proof (rule started_postgres)
  fix cfg' vc kr aud daud iss kv mv opts copts w1 db w2
  assume "Ok cfg = Ok cfg'" "rt = build_runtime pf cfg' (postgres_store it (dr_pool dr)) vc kr aud daud iss kv mv"
    and con: "dr_connect dr opts copts w1 = (Ok db, w2)" "db0 = db \<or> (\<exists>u. pg_initialize (dr_pool dr) db = (Ok u, db0))"
  moreover have "db_ok db" using assms(3) con(1) by blast
  with con(2) have "db_ok db0" using initialize_keeps [of db] assms(1) by auto
  ultimately show thesis using that assms(1) by simp
qed

lemma token_provenance_in_steps:
  assumes "rt = build_runtime pf cfg (postgres_store it pg) vc kr aud daud iss kv mv" "db_ok db0"
    and run: "system_run (Some (pg_steps it pg)) it fb (pf_k8s pf) rt (initial_state rt db0 w0) h st"
    and h: "h = a @ (x, TokenAnswered now jti form client va (200, body)) # b"
  shows "\<exists>a1 y a2 z a3 m jwt cl.
    a = a1 @ (y, ExchangeLookedUp form client m) # a2 @ (z, ExchangeResolved form client va) # a3
    \<and> verified_in (k8s_vouched (pf_k8s pf)) rt a1 form client
    \<and> pol_mappings (pg_policy (tables (sv_store y))) (tc_sub client, ef_resource form) = Some m
    \<and> json_get (lit ''access_token'') body = Some (JString jwt)
    \<and> te_generator (rt_token_service rt) (te_jwtlet_participant_context (rt_token_service rt)) cl = Ok jwt
    \<and> issued_claims (rt_token_service rt)
        \<lparr>pol_mappings = pol_mappings (pg_policy (tables (sv_store y))), pol_scopes = pol_scopes (pg_policy (tables (sv_store z)))\<rparr>
        now jti (ef_resource form) (requested_scopes form) (ef_audience form) client cl
    \<and> (pol_mappings (pg_policy (tables db0)) (tc_sub client, ef_resource form) = Some m
       \<or> granted_since (k8s_vouched (pf_k8s pf)) (configured_holds cfg) rt a1 ROLE_MAPPINGS_WRITE
           (\<lambda>req. mr_mapping_body req = Ok m)
           (\<lambda>u. pol_mappings (pg_policy (tables (sv_store u))) (tc_sub client, ef_resource form) = Some m))"
proof -
  note run' = run [unfolded assms(1)]
  have inv0: "db_ok (sv_store (initial_state rt db0 w0))" by (simp add: assms(2))
  obtain c1 z a3 z' jwt where c: "a = c1 @ (z, ExchangeResolved form client va) # a3"
      and runz: "system_run (Some (pg_steps it pg)) it fb (pf_k8s pf) rt (initial_state rt db0 w0) c1 z"
      and step: "system_step (Some (pg_steps it pg)) it fb (pf_k8s pf) rt z (ExchangeResolved form client va) z'"
      and jwt: "json_get (lit ''access_token'') body = Some (JString jwt)"
        "te_generator (rt_token_service rt) (te_jwtlet_participant_context (rt_token_service rt))
          (participant_claims (rt_token_service rt) now (ef_resource form) (snd va) (token_custom (vr_claims (fst va)) client jti))
         = Ok jwt"
    by (rule pg_system.answered [OF run' _ _ h]) (simp_all add: assms(1,2))
  obtain a1 y m a2 where y: "c1 = a1 @ (y, ExchangeLookedUp form client m) # a2"
      "verified_in (k8s_vouched (pf_k8s pf)) rt a1 form client"
      "system_run (Some (pg_steps it pg)) it fb (pf_k8s pf) rt (initial_state rt db0 w0) a1 y"
      "pol_mappings (pg_policy (tables (sv_store y))) (tc_sub client, ef_resource form) = Some m"
      and iss: "\<And>now jti. issued_claims (rt_token_service rt)
        \<lparr>pol_mappings = pol_mappings (pg_policy (tables (sv_store y))), pol_scopes = pol_scopes (pg_policy (tables (sv_store z)))\<rparr>
        now jti (ef_resource form) (requested_scopes form) (ef_audience form) client
        (participant_claims (rt_token_service rt) now (ef_resource form) (snd va) (token_custom (vr_claims (fst va)) client jti))"
    by (rule pg_system.resolved_in_steps_issued [OF runz [unfolded assms(1)] _ _ step [unfolded assms(1)] refl])
      (simp_all add: assms(1,2) del: pg_policy_sel)
  have "pol_mappings (pg_policy (tables db0)) (tc_sub client, ef_resource form) = Some m
      \<or> granted_since (k8s_vouched (pf_k8s pf)) (configured_holds cfg) rt a1 ROLE_MAPPINGS_WRITE
           (\<lambda>req. mr_mapping_body req = Ok m)
           (\<lambda>u. pol_mappings (pg_policy (tables (sv_store u))) (tc_sub client, ef_resource form) = Some m)"
    using pg_system.mapping_traceback [OF y(3) [unfolded assms(1)] _ _ y(4)] assms(2)
    by (simp add: assms(1) del: pg_policy_sel)
  moreover have "a = a1 @ (y, ExchangeLookedUp form client m) # a2 @ (z, ExchangeResolved form client va) # a3"
    using c y(1) by simp
  ultimately show ?thesis using y(2,4) jwt iss by blast
qed

lemma revocation_in_steps:
  assumes "rt = build_runtime pf cfg (postgres_store it pg) vc kr aud daud iss kv mv" "db_ok (sv_store (initial_state rt db0 w0))"
    and "system_run (Some (pg_steps it pg)) it fb (pf_k8s pf) rt (initial_state rt db0 w0) h st"
    and "h = h1 @ (z, ManagementServed req actor (DeleteMapping c p) resp evs) # h2" "rs_status resp = 204"
    and "\<forall>x\<in>set h2. \<forall>req' actor' ep resp' evs' m.
           snd x = ManagementServed req' actor' ep resp' evs' \<and> mr_mapping_body req' = Ok m \<longrightarrow> rm_key m \<noteq> (c, p)"
  shows "pol_mappings (pg_policy (tables (sv_store st))) (c, p) = None
    \<and> (\<forall>y form client m. (y, ExchangeLookedUp form client m) \<in> set h2 \<longrightarrow> (tc_sub client, ef_resource form) \<noteq> (c, p))"
  using pg_system.deleted_mapping_unused [OF assms(3) [unfolded assms(1)] assms(2) [unfolded assms(1)] assms(4-6)] by blast

text \<open>The scope mappings that were in force when the claims were collected.\<close>

lemma scope_provenance_in_steps:
  assumes "rt = build_runtime pf cfg (postgres_store it pg) vc kr aud daud iss kv mv" "db_ok db0"
    and "system_run (Some (pg_steps it pg)) it fb (pf_k8s pf) rt (initial_state rt db0 w0) h z"
    and "pol_scopes (pg_policy (tables (sv_store z))) sc = Some sm"
  shows "pol_scopes (pg_policy (tables db0)) sc = Some sm
    \<or> granted_since (k8s_vouched (pf_k8s pf)) (configured_holds cfg) rt h ROLE_SCOPES_WRITE
        (\<lambda>req. \<exists>x. sm = pg_keep jsonb x \<and> scope_in_body req x)
        (\<lambda>u. pol_scopes (pg_policy (tables (sv_store u))) sc = Some sm)"
  using pg_system.scope_traceback [OF assms(3) [unfolded assms(1)] _ _ assms(4)] assms(2)
  by (simp add: assms(1) del: pg_policy_sel)

end

subsection \<open>A run of the concrete system\<close>

text \<open>
  The database holds a mapping and a scope; the client's request has read the mapping when
  the administrator deletes the scope, and collects its claims afterwards.
\<close>

definition sample_rows :: ref_db where
  "sample_rows = \<lparr>rd_mappings = [((client_name, lit ''ctx''), ([lit ''read''], []))],
     rd_scopes = [(lit ''read'', JObject [(lit ''role'', JString (lit ''reader''))])]\<rparr>"

definition sample_rows_left :: ref_db where
  "sample_rows_left = sample_rows\<lparr>rd_scopes := []\<rparr>"

definition opened_driver :: "(unit, unit, ref_db, ref_db) pg_driver" where
  "opened_driver = sample_driver\<lparr>dr_connect := (\<lambda>_ _ w. (Ok sample_rows, w))\<rparr>"

definition sample_pg_runtime :: "(unit, ref_db, unit, unit) jwtlet_runtime" where
  "sample_pg_runtime = build_runtime sample_platform sample_pg_config (postgres_store sorted_list_of_fset ref_pg) () ()
     (lit ''jwtlet'') (lit ''edc'') (lit ''https://jwtlet'') sample_verifier sample_verifier"

lemma sample_pg_start:
  "run_jwtlet sorted_list_of_fset sample_platform opened_driver https_scheme (\<lambda>_. True) (Ok sample_pg_config) ()
     = (Ok (StartedPostgres sample_pg_runtime sample_rows), ())"
proof -
  let ?pool = "default_pool_config\<lparr>pp_sslmode := Some (lit ''require'')\<rparr>"
  have "pg_initialize ref_pg sample_rows = (Ok (), sample_rows)" by code_simp
  moreover obtain opts where "build_connect_options opened_driver (lit ''postgres://db'') ?pool = Ok opts"
    by (simp add: build_connect_options_def opened_driver_def sample_driver_def parse_ssl_mode_def default_pool_config_def)
  ultimately have "connect_postgres opened_driver (lit ''postgres://db'') ?pool () = (Ok sample_rows, ())"
    by (simp add: connect_postgres_def opened_driver_def sample_driver_def default_pool_config_def)
  moreover have "validate https_scheme (\<lambda>_. True) sample_pg_config = Ok ()"
    using sample_pg_config_valid by (simp add: validate_Ok_iff)
  moreover have "jc_storage_backend sample_pg_config = Postgres (lit ''postgres://db'') ?pool"
    by (simp add: sample_pg_config_def)
  ultimately show ?thesis
    using sample_assemble [of "Postgres (lit ''postgres://db'') ?pool" "postgres_store sorted_list_of_fset ref_pg",
        folded sample_pg_config_def]
    by (simp add: run_jwtlet_def run_backend_def assemble_postgres_def sample_pg_runtime_def opened_driver_def sample_driver_def)
qed

definition pg_at :: "ref_db \<Rightarrow> request_task multiset \<Rightarrow> (unit, ref_db) system_state" where
  "pg_at db ts = (initial_state sample_pg_runtime db ())\<lparr>sy_tasks := ts\<rparr>"

lemma pg_at_sel [simp]:
  "sv_exchange_verifier (pg_at db ts) = sample_verifier" "sv_management_verifier (pg_at db ts) = sample_verifier"
  "sv_store (pg_at db ts) = db" "sy_tasks (pg_at db ts) = ts" "sv_world (pg_at db ts) = w"
  by (simp_all add: pg_at_def initial_state_def sample_pg_runtime_def)

lemma pg_at_update [simp]:
  "(pg_at db ts)\<lparr>sy_tasks := ts'\<rparr> = pg_at db ts'"
  "(pg_at db ts)\<lparr>sv_store := db', sy_tasks := ts'\<rparr> = pg_at db' ts'"
  "(pg_at db ts)\<lparr>sv_exchange_verifier := sample_verifier, sv_world := w, sy_tasks := ts'\<rparr> = pg_at db ts'"
  "(pg_at db ts)\<lparr>sv_management_verifier := sample_verifier, sv_world := w, sy_tasks := ts'\<rparr> = pg_at db ts'"
  by (simp_all add: pg_at_def initial_state_def sample_pg_runtime_def)

abbreviation pg_step :: "(unit, ref_db) system_state \<Rightarrow> system_event \<Rightarrow> (unit, ref_db) system_state \<Rightarrow> bool" where
  "pg_step \<equiv> system_step (Some (pg_steps sorted_list_of_fset ref_pg)) sorted_list_of_fset sample_fallback
     (pf_k8s sample_platform) sample_pg_runtime"

abbreviation pg_run :: "(unit, ref_db) history \<Rightarrow> (unit, ref_db) system_state \<Rightarrow> bool" where
  "pg_run \<equiv> system_run (Some (pg_steps sorted_list_of_fset ref_pg)) sorted_list_of_fset sample_fallback
     (pf_k8s sample_platform) sample_pg_runtime (initial_state sample_pg_runtime sample_rows ())"

abbreviation delete_scope :: mgmt_request where
  "delete_scope \<equiv> sample_request DELETE [lit ''scopes'', lit ''read'']"

abbreviation scope_deletion :: request_task where
  "scope_deletion \<equiv> MgAdmitted delete_scope admin_name (DeleteScope (lit ''read''))"

definition bare_answer :: "verification_result \<times> str" where
  "bare_answer = (\<lparr>vr_verified = True, vr_claims = [], vr_audiences = {||}\<rparr>, lit ''edc'')"

definition sample_pg_service :: "(k8s_verifier \<times> unit, ref_db, unit) token_exchange_service" where
  "sample_pg_service = build_token_service sample_platform sample_pg_config (postgres_store sorted_list_of_fset ref_pg) ()
     (lit ''jwtlet'') (lit ''edc'') (lit ''https://jwtlet'')"

definition sample_pg_management :: "(k8s_verifier \<times> unit, ref_db) management_state" where
  "sample_pg_management = \<lparr>ms_resource_service = postgres_store sorted_list_of_fset ref_pg,
     ms_authorizer = mem_authorize (configured_accounts (jc_service_accounts sample_config)),
     ms_verifier = k8s_verify_token sample_env, ms_client_audience = lit ''jwtlet''\<rparr>"

lemma sample_pg_runtime_sel:
  "rt_token_service sample_pg_runtime = sample_pg_service"
  "management_state_of sample_pg_runtime = sample_pg_management"
  by (simp_all add: sample_pg_runtime_def sample_pg_service_def sample_pg_management_def management_state_of_def
      build_runtime_def build_service_account_authorizer_def management_audience_def sample_pg_config_def sample_config_def default_config_def sample_platform_def)

lemma sample_pg_exchange_phases:
  "exchange_begin sample_form = (Ok () :: (unit, unit exchange_api_error) result)"
  "exchange_verify sample_pg_service sample_form (sample_verifier, ()) = (Ok sample_client, (sample_verifier, ()))"
  "exchange_lookup (pg_steps sorted_list_of_fset ref_pg) sample_form sample_client sample_rows
     = (Ok sample_mapping :: (resource_mapping, unit exchange_api_error) result, sample_rows)"
  by code_simp+

lemma sample_pg_expand:
  "exchange_expand sample_pg_service (pg_steps sorted_list_of_fset ref_pg) sample_form sample_client
     sample_mapping sample_rows_left = (Ok bare_answer, sample_rows_left)"
  by code_simp

lemma sample_pg_answer:
  "exchange_answer (exchange_sign sample_pg_service 1000 (lit ''id'') sample_form sample_client bare_answer)
     = (200, sample_body)"
  by code_simp

lemma sample_pg_management_phases:
  "management_admit sample_fallback sample_pg_management delete_scope (sample_verifier, ())
     = (Ok (admin_name, DeleteScope (lit ''read'')), (sample_verifier, ()))"
  "run_endpoint sorted_list_of_fset (postgres_store sorted_list_of_fset ref_pg) delete_scope admin_name
     (DeleteScope (lit ''read'')) sample_rows
     = ((status_only 204, [ScopeDeleted admin_name (lit ''read'')]), sample_rows_left)"
  by code_simp+

lemma ms_resource_service_sample [simp]:
  "ms_resource_service sample_pg_management = postgres_store sorted_list_of_fset ref_pg"
  by (simp add: sample_pg_management_def)

lemmas sample_pg_phases = sample_pg_exchange_phases sample_pg_expand sample_pg_answer sample_pg_management_phases

definition sample_pg_before :: "(unit, ref_db) history" where
  "sample_pg_before =
     [(pg_at sample_rows {#}, ExchangeArrived sample_form),
      (pg_at sample_rows {#ExReceived sample_form#}, ExchangeVerified sample_form sample_client),
      (pg_at sample_rows {#ExVerified sample_form sample_client#}, ManagementArrived delete_scope),
      (pg_at sample_rows {#MgReceived delete_scope, ExVerified sample_form sample_client#},
         ManagementAdmitted delete_scope admin_name (DeleteScope (lit ''read''))),
      (pg_at sample_rows {#scope_deletion, ExVerified sample_form sample_client#},
         ExchangeLookedUp sample_form sample_client sample_mapping),
      (pg_at sample_rows {#ExLookedUp sample_form sample_client sample_mapping, scope_deletion#},
         ManagementServed delete_scope admin_name (DeleteScope (lit ''read'')) (status_only 204)
           [ScopeDeleted admin_name (lit ''read'')]),
      (pg_at sample_rows_left {#ExLookedUp sample_form sample_client sample_mapping#},
         ExchangeResolved sample_form sample_client bare_answer)]"

lemma sample_pg_empty_run: "pg_run [] (pg_at sample_rows {#})"
  using run_nil [of "Some (pg_steps sorted_list_of_fset ref_pg)" _ _ _ sample_pg_runtime
      "initial_state sample_pg_runtime sample_rows ()"]
  by (simp add: pg_at_def initial_state_def)

lemma sample_pg_run:
  "pg_run (sample_pg_before @ [(pg_at sample_rows_left {#ExResolved sample_form sample_client bare_answer#},
     TokenAnswered 1000 (lit ''id'') sample_form sample_client bare_answer (200, sample_body))]) (pg_at sample_rows_left {#})"
proof -
  let ?sp = "Some (pg_steps sorted_list_of_fset ref_pg)"
  note phases = sample_pg_phases
  have "pg_run [] (pg_at sample_rows {#})" by (rule sample_pg_empty_run)
  moreover have "pg_step (pg_at sample_rows {#}) (ExchangeArrived sample_form) (pg_at sample_rows {#ExReceived sample_form#})"
    using exchange_arrives [OF phases(1), of ?sp _ _ _ sample_pg_runtime "pg_at sample_rows {#}"] by simp
  moreover have "pg_step (pg_at sample_rows {#ExReceived sample_form#}) (ExchangeVerified sample_form sample_client)
      (pg_at sample_rows {#ExVerified sample_form sample_client#})"
    using exchange_verified [of sample_form "pg_at sample_rows {#ExReceived sample_form#}" sample_pg_runtime sample_client
        sample_verifier "()" ?sp] phases(2)
    by (simp add: sample_pg_runtime_sel moves_def)
  moreover have "pg_step (pg_at sample_rows {#ExVerified sample_form sample_client#}) (ManagementArrived delete_scope)
      (pg_at sample_rows {#MgReceived delete_scope, ExVerified sample_form sample_client#})"
    using management_arrives [of ?sp _ _ _ sample_pg_runtime "pg_at sample_rows {#ExVerified sample_form sample_client#}"] by simp
  moreover have "pg_step (pg_at sample_rows {#MgReceived delete_scope, ExVerified sample_form sample_client#})
      (ManagementAdmitted delete_scope admin_name (DeleteScope (lit ''read'')))
      (pg_at sample_rows {#scope_deletion, ExVerified sample_form sample_client#})"
    using management_admitted [of delete_scope "pg_at sample_rows {#MgReceived delete_scope, ExVerified sample_form sample_client#}"
        sample_fallback sample_pg_runtime admin_name "DeleteScope (lit ''read'')" sample_verifier "()" ?sp] phases(6)
    by (simp add: sample_pg_runtime_sel moves_def)
  moreover have "pg_step (pg_at sample_rows {#scope_deletion, ExVerified sample_form sample_client#})
      (ExchangeLookedUp sample_form sample_client sample_mapping)
      (pg_at sample_rows {#ExLookedUp sample_form sample_client sample_mapping, scope_deletion#})"
    using exchange_looked_up [OF refl, of sample_form sample_client "pg_at sample_rows {#scope_deletion, ExVerified sample_form sample_client#}"]
      phases(3) by (simp add: moves_def add_mset_commute)
  moreover have "pg_step (pg_at sample_rows {#ExLookedUp sample_form sample_client sample_mapping, scope_deletion#})
      (ManagementServed delete_scope admin_name (DeleteScope (lit ''read'')) (status_only 204) [ScopeDeleted admin_name (lit ''read'')])
      (pg_at sample_rows_left {#ExLookedUp sample_form sample_client sample_mapping#})"
    using management_served [of delete_scope admin_name "DeleteScope (lit ''read'')"
        "pg_at sample_rows {#ExLookedUp sample_form sample_client sample_mapping, scope_deletion#}"
        sorted_list_of_fset sample_pg_runtime "status_only 204" "[ScopeDeleted admin_name (lit ''read'')]" sample_rows_left ?sp]
      phases(7)
    by (simp add: sample_pg_runtime_sel ends_def add_mset_commute)
  moreover have "pg_step (pg_at sample_rows_left {#ExLookedUp sample_form sample_client sample_mapping#})
      (ExchangeResolved sample_form sample_client bare_answer)
      (pg_at sample_rows_left {#ExResolved sample_form sample_client bare_answer#})"
    using exchange_expanded [OF refl, of sample_form sample_client sample_mapping
        "pg_at sample_rows_left {#ExLookedUp sample_form sample_client sample_mapping#}" sample_pg_runtime] phases(4)
    by (simp add: sample_pg_runtime_sel moves_def)
  moreover have "pg_step (pg_at sample_rows_left {#ExResolved sample_form sample_client bare_answer#})
      (TokenAnswered 1000 (lit ''id'') sample_form sample_client bare_answer (200, sample_body)) (pg_at sample_rows_left {#})"
    using exchange_signed [of sample_form sample_client bare_answer
        "pg_at sample_rows_left {#ExResolved sample_form sample_client bare_answer#}" sample_pg_runtime] phases(5)
    by (simp add: sample_pg_runtime_sel ends_def)
  ultimately show ?thesis
    unfolding sample_pg_before_def by (metis (no_types, lifting) run_snoc append_Cons append_Nil)
qed

subsection \<open>Properties\<close>

text \<open>C7: Tokens are accounted for with Postgres too, although the lookup of a mapping and of its scopes
  are two statements with other requests in between: when a request is answered with a token,
  the API server had confirmed the caller before the first statement; the claims are exactly
  those of the policy made of the mapping at the first statement and the scopes at the second;
  that mapping was in the database at the start, or an administrator with the mappings role
  wrote it in this run and it was in place until the first statement; and so for every scope
  at the second, as far as the column type keeps its claims.\<close>

theorem postgres_token_provenance:
  assumes "sql_database it (dr_pool dr) tables view db_ok tx_ok jsonb"
    and "\<forall>opts copts w db w'. dr_connect dr opts copts w = (Ok db, w') \<longrightarrow> db_ok db"
    and "run_jwtlet it pf dr url_scheme path_exists (Ok cfg) w = (Ok (StartedPostgres rt db0), w0)"
    and "system_run (Some (pg_steps it (dr_pool dr))) it fb (pf_k8s pf) rt (initial_state rt db0 w0) h st"
    and "h = a @ (x, TokenAnswered now jti form client va (200, body)) # b"
  shows "\<exists>a1 y a2 z a3 m jwt cl.
    a = a1 @ (y, ExchangeLookedUp form client m) # a2 @ (z, ExchangeResolved form client va) # a3
    \<and> verified_in (k8s_vouched (pf_k8s pf)) rt a1 form client
    \<and> pol_mappings (pg_policy (tables (sv_store y))) (tc_sub client, ef_resource form) = Some m
    \<and> json_get (lit ''access_token'') body = Some (JString jwt)
    \<and> te_generator (rt_token_service rt) (te_jwtlet_participant_context (rt_token_service rt)) cl = Ok jwt
    \<and> issued_claims (rt_token_service rt)
        \<lparr>pol_mappings = pol_mappings (pg_policy (tables (sv_store y))), pol_scopes = pol_scopes (pg_policy (tables (sv_store z)))\<rparr>
        now jti (ef_resource form) (requested_scopes form) (ef_audience form) client cl
    \<and> (pol_mappings (pg_policy (tables db0)) (tc_sub client, ef_resource form) = Some m
       \<or> granted_since (k8s_vouched (pf_k8s pf)) (configured_holds cfg) rt a1 ROLE_MAPPINGS_WRITE
           (\<lambda>req. mr_mapping_body req = Ok m)
           (\<lambda>u. pol_mappings (pg_policy (tables (sv_store u))) (tc_sub client, ef_resource form) = Some m))
    \<and> (\<forall>sc sm. pol_scopes (pg_policy (tables (sv_store z))) sc = Some sm \<longrightarrow>
         pol_scopes (pg_policy (tables db0)) sc = Some sm
         \<or> granted_since (k8s_vouched (pf_k8s pf)) (configured_holds cfg) rt
             (a1 @ (y, ExchangeLookedUp form client m) # a2) ROLE_SCOPES_WRITE
             (\<lambda>req. \<exists>s. sm = pg_keep jsonb s \<and> scope_in_body req s)
             (\<lambda>u. pol_scopes (pg_policy (tables (sv_store u))) sc = Some sm))"
proof -
  obtain vc kr aud daud iss kv mv where
      rt: "rt = build_runtime pf cfg (postgres_store it (dr_pool dr)) vc kr aud daud iss kv mv" and ok: "db_ok db0"
    by (rule sql_database.started_database [OF assms(1) refl assms(3,2)])
  obtain a1 y a2 z a3 m jwt cl where
      a: "a = a1 @ (y, ExchangeLookedUp form client m) # a2 @ (z, ExchangeResolved form client va) # a3"
      and rest: "verified_in (k8s_vouched (pf_k8s pf)) rt a1 form client"
        "pol_mappings (pg_policy (tables (sv_store y))) (tc_sub client, ef_resource form) = Some m"
        "json_get (lit ''access_token'') body = Some (JString jwt)"
        "te_generator (rt_token_service rt) (te_jwtlet_participant_context (rt_token_service rt)) cl = Ok jwt"
        "issued_claims (rt_token_service rt)
          \<lparr>pol_mappings = pol_mappings (pg_policy (tables (sv_store y))), pol_scopes = pol_scopes (pg_policy (tables (sv_store z)))\<rparr>
          now jti (ef_resource form) (requested_scopes form) (ef_audience form) client cl"
        "pol_mappings (pg_policy (tables db0)) (tc_sub client, ef_resource form) = Some m
         \<or> granted_since (k8s_vouched (pf_k8s pf)) (configured_holds cfg) rt a1 ROLE_MAPPINGS_WRITE
             (\<lambda>req. mr_mapping_body req = Ok m)
             (\<lambda>u. pol_mappings (pg_policy (tables (sv_store u))) (tc_sub client, ef_resource form) = Some m)"
    using sql_database.token_provenance_in_steps [OF assms(1) rt ok assms(4,5)] by blast
  have "h = (a1 @ (y, ExchangeLookedUp form client m) # a2) @ (z, ExchangeResolved form client va)
      # (a3 @ (x, TokenAnswered now jti form client va (200, body)) # b)"
    using assms(5) a by simp
  from sql_database.scope_provenance_in_steps [OF assms(1) rt ok run_prefix [OF assms(4) this]] a rest
  show ?thesis by blast
qed

lemma opened_pool: "dr_pool opened_driver = ref_pg"
  by (simp add: opened_driver_def sample_driver_def)

lemma sample_database:
  "sql_database sorted_list_of_fset (dr_pool opened_driver) ref_tables ref_tables ref_ok (\<lambda>_. ref_ok) (\<lambda>j. j)"
  "\<forall>opts copts w db w'. dr_connect opened_driver opts copts w = (Ok db, w') \<longrightarrow> ref_ok db"
proof -
  show "sql_database sorted_list_of_fset (dr_pool opened_driver) ref_tables ref_tables ref_ok (\<lambda>_. ref_ok) (\<lambda>j. j)"
    unfolding opened_pool by (rule ref_database.sql_database_axioms)
  show "\<forall>opts copts w db w'. dr_connect opened_driver opts copts w = (Ok db, w') \<longrightarrow> ref_ok db"
    by (simp add: opened_driver_def ref_ok_def sample_rows_def hash_map_ok_def)
qed

theorem postgres_token_provenance_witness:
  "\<exists>a1 y a2 z a3 m. sample_pg_before
      = a1 @ (y, ExchangeLookedUp sample_form sample_client m) # a2 @ (z, ExchangeResolved sample_form sample_client bare_answer) # a3
    \<and> pol_mappings (pg_policy (ref_tables (sv_store y))) (tc_sub sample_client, ef_resource sample_form) = Some m"
  using postgres_token_provenance [OF sample_database sample_pg_start sample_pg_run [folded opened_pool] refl] by blast

text \<open>C8: Revocation works with Postgres: once the deletion of the mapping of a client for a participant
  context has been answered with 204, the mapping is gone, and no exchange of that client for
  that context finds one until a request that brings such a mapping is served. (A deletion that
  fails may or may not have happened, and an exchange that had read the mapping before may still
  collect its scopes.)\<close>

theorem postgres_revocation_effective:
  assumes "sql_database it (dr_pool dr) tables view db_ok tx_ok jsonb"
    and "\<forall>opts copts w db w'. dr_connect dr opts copts w = (Ok db, w') \<longrightarrow> db_ok db"
    and "run_jwtlet it pf dr url_scheme path_exists (Ok cfg) w = (Ok (StartedPostgres rt db0), w0)"
    and "system_run (Some (pg_steps it (dr_pool dr))) it fb (pf_k8s pf) rt (initial_state rt db0 w0) h st"
    and "h = h1 @ (z, ManagementServed req actor (DeleteMapping c p) resp evs) # h2" "rs_status resp = 204"
    and "\<forall>x\<in>set h2. \<forall>req' actor' ep resp' evs' m.
           snd x = ManagementServed req' actor' ep resp' evs' \<and> mr_mapping_body req' = Ok m \<longrightarrow> rm_key m \<noteq> (c, p)"
  shows "pol_mappings (pg_policy (tables (sv_store st))) (c, p) = None
    \<and> (\<forall>y form client m. (y, ExchangeLookedUp form client m) \<in> set h2 \<longrightarrow> (tc_sub client, ef_resource form) \<noteq> (c, p))"
proof -
  obtain vc kr aud daud iss kv mv where
      rt: "rt = build_runtime pf cfg (postgres_store it (dr_pool dr)) vc kr aud daud iss kv mv" and ok: "db_ok db0"
    by (rule sql_database.started_database [OF assms(1) refl assms(3,2)])
  from ok have "db_ok (sv_store (initial_state rt db0 w0))" by simp
  from sql_database.revocation_in_steps [OF assms(1) rt this assms(4-7)] show ?thesis by blast
qed

abbreviation delete_mapping :: mgmt_request where
  "delete_mapping \<equiv> (sample_request DELETE [lit ''mappings'', client_name, lit ''ctx''])\<lparr>mr_mapping_body := Err 400\<rparr>"

abbreviation mapping_deletion :: endpoint where
  "mapping_deletion \<equiv> DeleteMapping client_name (lit ''ctx'')"

definition sample_rows_revoked :: ref_db where
  "sample_rows_revoked = sample_rows\<lparr>rd_mappings := []\<rparr>"

definition mapping_deleted :: system_event where
  "mapping_deleted = ManagementServed delete_mapping admin_name mapping_deletion (status_only 204)
     [MappingDeleted admin_name client_name (lit ''ctx'')]"

lemma sample_pg_revocation_run:
  "pg_run ([(pg_at sample_rows {#}, ManagementArrived delete_mapping),
      (pg_at sample_rows {#MgReceived delete_mapping#}, ManagementAdmitted delete_mapping admin_name mapping_deletion)]
      @ [(pg_at sample_rows {#MgAdmitted delete_mapping admin_name mapping_deletion#}, mapping_deleted)])
    (pg_at sample_rows_revoked {#})"
proof -
  let ?sp = "Some (pg_steps sorted_list_of_fset ref_pg)"
  have phases: "management_admit sample_fallback sample_pg_management delete_mapping (sample_verifier, ())
        = (Ok (admin_name, mapping_deletion), (sample_verifier, ()))"
      "run_endpoint sorted_list_of_fset (postgres_store sorted_list_of_fset ref_pg) delete_mapping admin_name mapping_deletion sample_rows
        = ((status_only 204, [MappingDeleted admin_name client_name (lit ''ctx'')]), sample_rows_revoked)"
    by code_simp+
  have "pg_run [] (pg_at sample_rows {#})" by (rule sample_pg_empty_run)
  moreover have "pg_step (pg_at sample_rows {#}) (ManagementArrived delete_mapping) (pg_at sample_rows {#MgReceived delete_mapping#})"
    using management_arrives [of ?sp _ _ _ sample_pg_runtime "pg_at sample_rows {#}"] by simp
  moreover have "pg_step (pg_at sample_rows {#MgReceived delete_mapping#}) (ManagementAdmitted delete_mapping admin_name mapping_deletion)
      (pg_at sample_rows {#MgAdmitted delete_mapping admin_name mapping_deletion#})"
    using management_admitted [of delete_mapping "pg_at sample_rows {#MgReceived delete_mapping#}"
        sample_fallback sample_pg_runtime admin_name mapping_deletion sample_verifier "()" ?sp] phases(1)
    by (simp add: sample_pg_runtime_sel moves_def)
  moreover have "pg_step (pg_at sample_rows {#MgAdmitted delete_mapping admin_name mapping_deletion#}) mapping_deleted
      (pg_at sample_rows_revoked {#})"
    using management_served [of delete_mapping admin_name mapping_deletion
        "pg_at sample_rows {#MgAdmitted delete_mapping admin_name mapping_deletion#}" sorted_list_of_fset sample_pg_runtime
        "status_only 204" "[MappingDeleted admin_name client_name (lit ''ctx'')]" sample_rows_revoked ?sp] phases(2)
    by (simp add: sample_pg_runtime_sel ends_def mapping_deleted_def)
  ultimately show ?thesis by (metis (no_types, lifting) run_snoc append_Cons append_Nil)
qed

theorem postgres_revocation_effective_witness:
  "pol_mappings (pg_policy (ref_tables sample_rows_revoked)) (client_name, lit ''ctx'') = None"
  using postgres_revocation_effective [OF sample_database sample_pg_start
      sample_pg_revocation_run [folded opened_pool, unfolded mapping_deleted_def] refl]
  by simp

end
