(* ===== verification/Spec2Isabelle.thy ===== *)
theory Spec2Isabelle
  imports Policy_Properties Access_Properties Postgres_Runs
begin

text \<open>
  \<^bold>\<open>Jwtlet.\<close> The program is an OAuth 2.0 token exchange service for Kubernetes workloads. A
  client presents its service account token and the name of a participant context; the service
  asks the Kubernetes API server to review the token, looks up which scopes and audiences the
  client may use for that context, expands the scopes into claims and signs a new token with a
  key held in Vault. A second server lets administrators maintain the policy.

  \<^bold>\<open>Parts and theories.\<close> Paths are under \<^verbatim>\<open>src/crates\<close>.

  \<^item> \<open>Jwtlet_Prelude\<close>, \<open>Json_Value\<close>, \<open>Jwt_Types\<close>: Rust strings, \<^verbatim>\<open>Result\<close>, hash maps and B-tree
    sets, the JSON values, the claims of a token and the contract of a verifier
    (locale \<open>token_verifier\<close>).
  \<^item> \<open>Resource_Model\<close>, \<open>Resource_Service\<close> (\<^verbatim>\<open>jwtlet-core/src/resource/mod.rs\<close>): mappings, errors,
    validation, and the service \<^verbatim>\<open>ResourceService\<close> over a record of store operations that stands
    for \<^verbatim>\<open>dyn ResourceStore\<close>. \<open>Store_Contract\<close> is the abstract specification: a policy of two
    finite maps, the effect of each operation, and the locales \<open>store_contract\<close> (a call may fail
    with a database error, all or nothing) and \<open>reliable_store\<close>.
  \<^item> \<open>Memory_Store\<close> (\<^verbatim>\<open>resource/mem.rs\<close>) and \<open>Postgres_Store\<close> (\<^verbatim>\<open>jwtlet-postgres\<close>): the two stores.
    Both interpret the contract, the second under the documented laws of the database
    (locale \<open>sql_database\<close>, itself interpreted on a small reference database).
  \<^item> \<open>K8s_Verifier\<close> and \<open>Token_Renewal\<close> (\<^verbatim>\<open>jwtlet-core/src/k8s\<close>): the review of a token with its one
    retry, and the task that follows the rotation of the pod's own token, as step relations.
    \<open>Service_Account\<close> (\<^verbatim>\<open>saccount\<close>): the roles of administrators (locale \<open>role_authorizer\<close>).
  \<^item> \<open>Token_Exchange\<close> (\<^verbatim>\<open>token/mod.rs\<close>) and \<open>Exchange_Api\<close> (\<^verbatim>\<open>jwtlet-server/src/exchange\<close>): the
    exchange and its endpoint. \<open>Management_Api\<close> (\<^verbatim>\<open>management\<close>): routes, middleware, handlers.
  \<^item> \<open>Server_Config\<close> (\<^verbatim>\<open>config\<close>), \<open>Server_Assembly\<close> (\<^verbatim>\<open>assembly\<close>, \<^verbatim>\<open>meta\<close>, start-up in \<^verbatim>\<open>main.rs\<close>),
    \<open>Api_Server\<close> (\<^verbatim>\<open>server\<close>: both routers, shutdown signals, \<^verbatim>\<open>run_server\<close> as a step relation),
    \<open>Jwtlet_Process\<close> (\<^verbatim>\<open>main\<close> and \<^verbatim>\<open>telemetry\<close>).
  \<^item> \<open>Request_Phases\<close> cuts the handlers at their \<^verbatim>\<open>await\<close> points; \<open>Server_Runs\<close> interleaves the phases
    of any number of requests with token renewal, dropped requests and changes of the
    environment, and proves in locale \<open>system_setting\<close> what holds in every run, for any store,
    verifier and authorizer with their contracts; it is interpreted on the assembled runtime
    with either store. The lookup of the Postgres store awaits between two statements
    (locale \<open>resolve_in_steps\<close>), so there asking the policy is two steps.
  \<^item> \<open>Exchange_Properties\<close>, \<open>Policy_Properties\<close>, \<open>Access_Properties\<close>, \<open>Management_Properties\<close>,
    \<open>Deployment_Properties\<close>, \<open>Postgres_Runs\<close> and this theory hold the properties; \<open>Sample_System\<close> and \<open>Sample_Runs\<close>
    a closed concrete system on which the witnesses are evaluated.

  \<^bold>\<open>State and operations.\<close> Each Rust struct is a record and each enum a datatype with the fields
  and constructors of the source. An operation takes the state it mutates and returns it beside
  its \<^verbatim>\<open>Result\<close>; \<^verbatim>\<open>?\<close> is \<open>bind_io\<close>. The memory store holds its lock during an operation, which is
  therefore one step. A \<^verbatim>\<open>HashMap\<close> is an association list with distinct keys, whose iteration
  order is not fixed: where it matters the order is a parameter (\<open>hash_iter\<close>) and the properties
  hold for each. Times are 64-bit words and add with wrap-around; \<open>expiry_within_a_day\<close> shows that
  no wrap-around happens for validated lifetimes and current clocks. Error messages are those of
  the code.

  \<^bold>\<open>What is shown.\<close>

  \<^item> Exchange: a token is issued exactly for what the policy permits to a caller the API server
    confirmed, with exactly the claims the policy determines; reserved claims are the service's
    own; the lifetime is at most a day; the answer of the token endpoint is determined case by
    case, each refusal with its status and OAuth error.
  \<^item> Policy: the memory store refines the abstract policy operation by operation, the Postgres
    store meets the contract, both answer alike; only valid entries are written; batches are
    atomic.
  \<^item> Access: an accepted token was confirmed for the audience asked for; a review whose credential
    the API server refuses is repeated exactly once, with the credential of the file, and no
    other is repeated; the cached token comes from the file. Every run of the renewal task after a
    change that the watcher reports ends with the token of the file; a rotation between the first
    read of the file and the registration of the watcher is missed until a review is refused.
  \<^item> Management: policy is changed and disclosed only to a confirmed caller with the role of the
    endpoint, each change with its audit event; with a management audience of its own, tokens for
    the exchange are of no use there.
  \<^item> Deployment: validation is complete, a validated configuration assembles what it says, setting
    by setting, and the process shuts down in order, the tracer provider after the service. A
    server that cannot bind its port is only logged and the exit status is then zero.
  \<^item> Whole system (here and in \<open>Postgres_Runs\<close>): in every interleaving a token is traced back to an administrator's write
    of the mapping and of each scope, which was in place until the policy was asked; a revoked
    mapping is of no use; the policy stays valid. (That the phases run back to back are the
    handlers is shown in \<open>Request_Phases\<close>.)

  \<^bold>\<open>Bounds.\<close> No fuel is used: loops are structural recursions. The watcher's channel holds
  \<open>CHANNEL_CAPACITY\<close> = 100 events as in the code; \<^verbatim>\<open>run_server\<close> returns after at most eight events by a
  measure; the renewal task, left to itself, is at rest after at most 303 steps, three for each event of a full
  channel and three to finish.

  \<^bold>\<open>Not modelled, or a parameter.\<close> The API server, the file system and its watcher, Vault and the
  token generator, the HTTP client, the URL and certificate parsers, the database engine and the
  telemetry libraries are parameters, with laws only where a property needs them. Of the HTTP
  framework, the decoding of forms, paths and JSON bodies and the fallback for a wrong method
  are parameters, and that a \<^verbatim>\<open>HEAD\<close> answer is sent without its body is left out. A path is given by its decoded
  segments: that the framework compares the static segments of a route before decoding, and that
  its path extractor refuses segments that do not decode, is left out. Nothing is assumed of the
  watcher's reliability: a change of the file and its report are separate steps, and a report may
  never come. No step takes time, so how long the shutdown of the provider blocks is left out. Reading and
  parsing the configuration file is a library's. Log lines are left out other than the
  audit events, those of the life cycle of the servers and of the process, and the warnings
  about the configuration. In the runs
  a dropped request ends before its next phase; a statement that the database executes although the
  request was dropped is a served request whose answer nobody reads. A verification is one
  phase; how it interleaves with renewals is in \<open>Token_Renewal\<close>. Writes of other processes to the same database are not part of a run. JSON objects
  are kept sorted by key. The end-to-end tests are not part of the service.
\<close>

section \<open>Runs of the whole system\<close>

lemma started_memory:
  assumes "run_jwtlet it pf dr url_scheme path_exists loaded w = (Ok (StartedMemory rt s0), w0)"
  obtains cfg vc kr aud daud iss kv mv where
    "loaded = Ok cfg" "rt = build_runtime pf cfg memory_store vc kr aud daud iss kv mv" "s0 = mem_new"
proof -
  obtain cfg where "loaded = Ok cfg" and run: "run_backend it pf dr cfg w = (Ok (StartedMemory rt s0), w0)"
    using assms by (rule run_jwtlet_Ok)
  from run have asm: "assemble pf cfg memory_store w = (Ok rt, w0)" and s0: "s0 = mem_new"
    by (auto simp: run_backend_def assemble_memory_def bind_io_Ok_iff split: storage_backend.splits)
  from asm obtain vc kr aud daud iss kv mv where "rt = build_runtime pf cfg memory_store vc kr aud daud iss kv mv"
    by (rule assemble_Ok)
  with that \<open>loaded = Ok cfg\<close> s0 show thesis by blast
qed

lemma started_memory_invar: "mem_invar (sv_store (initial_state rt mem_new w))"
  by (simp add: mem_invar_new)

text \<open>C1: Nobody gets a token by himself, however the requests interleave: in every run of a started
  server with the memory store, when a request is answered with a token, the policy was asked
  at an earlier moment, after the API server had confirmed the caller's token; at that moment
  the policy had a mapping of the caller for the participant context that grants all the
  requested scopes and permits the audience; and that mapping was written earlier in the run by
  a request that the middleware had admitted, whose bearer token the API server confirmed and
  whose subject is configured with the mappings role, and it was in place in every state in
  between.\<close>

theorem token_provenance:
  assumes "run_jwtlet it pf dr url_scheme path_exists (Ok cfg) w = (Ok (StartedMemory rt s0), w0)"
    and "system_run None it fb (pf_k8s pf) rt (initial_state rt s0 w0) h st"
    and "h = a @ (x, TokenAnswered now jti form client va (200, body)) # b"
  shows "\<exists>a1 y a2 m. a = a1 @ (y, ExchangeResolved form client va) # a2
    \<and> verified_in (k8s_vouched (pf_k8s pf)) rt a1 form client
    \<and> map_of (entries (sv_store y)) (tc_sub client, ef_resource form) = Some m
    \<and> set (requested_scopes form) \<subseteq> fset (rm_scopes m)
    \<and> audience_permitted m (te_audience (rt_token_service rt)) (ef_audience form) (snd va)
    \<and> granted_since (k8s_vouched (pf_k8s pf)) (configured_holds cfg) rt a1 ROLE_MAPPINGS_WRITE
        (\<lambda>req. mr_mapping_body req = Ok m)
        (\<lambda>z. map_of (entries (sv_store z)) (tc_sub client, ef_resource form) = Some m)"
proof -
  obtain vc kr aud daud iss kv mv where rt: "rt = build_runtime pf cfg memory_store vc kr aud daud iss kv mv"
      and s0: "s0 = mem_new"
    using assms(1) by (rule started_memory) auto
  note run = assms(2) [unfolded rt s0]
  obtain a1 y a2 where a: "a = a1 @ (y, ExchangeResolved form client va) # a2"
      and pre: "system_run None it fb (pf_k8s pf) rt (initial_state rt s0 w0) a1 y"
      and ver: "verified_in (k8s_vouched (pf_k8s pf)) rt a1 form client"
      and iss: "issued_claims (rt_token_service rt) (mem_policy (sv_store y)) now jti (ef_resource form)
        (requested_scopes form) (ef_audience form) client
        (participant_claims (rt_token_service rt) now (ef_resource form) (snd va) (token_custom (vr_claims (fst va)) client jti))"
    by (rule memory_system.answered_token [OF run started_memory_invar _ assms(3)]) (simp_all add: rt s0)
  then obtain m where m: "map_of (entries (sv_store y)) (tc_sub client, ef_resource form) = Some m"
      "set (requested_scopes form) \<subseteq> fset (rm_scopes m)"
      "audience_permitted m (te_audience (rt_token_service rt)) (ef_audience form) (snd va)"
    by (auto simp: issued_claims_def participant_claims_def)
  have "granted_since (k8s_vouched (pf_k8s pf)) (configured_holds cfg) rt a1 ROLE_MAPPINGS_WRITE
      (\<lambda>req. mr_mapping_body req = Ok m)
      (\<lambda>z. map_of (entries (sv_store z)) (tc_sub client, ef_resource form) = Some m)"
    using memory_system.mapping_traceback [OF pre [unfolded rt s0] started_memory_invar,
        of "(tc_sub client, ef_resource form)" m] m(1)
    by (simp add: rt mem_new_def)
  with a ver m show ?thesis by blast
qed

theorem token_provenance_witness:
  "\<exists>a1 y a2 m. sample_before = a1 @ (y, ExchangeResolved sample_form sample_client sample_answer) # a2
    \<and> map_of (entries (sv_store y)) (tc_sub sample_client, ef_resource sample_form) = Some m
    \<and> granted_since (k8s_vouched (pf_k8s sample_platform)) (configured_holds sample_config) sample_runtime a1
        ROLE_MAPPINGS_WRITE (\<lambda>req. mr_mapping_body req = Ok m)
        (\<lambda>z. map_of (entries (sv_store z)) (tc_sub sample_client, ef_resource sample_form) = Some m)"
  using token_provenance [OF sample_start sample_token_run refl] by blast

text \<open>C5: Every claim of a token beyond the service's own was granted by an administrator: in every run
  of a started server with the memory store, each custom claim of an issued token other than
  \<^verbatim>\<open>act\<close> and \<^verbatim>\<open>jti\<close> has an unreserved name and comes from a requested scope; the mapping of
  that scope was written earlier in the run by an admitted request of a subject with the scopes
  role, and was in place from then until the policy was asked.\<close>

theorem claim_provenance:
  assumes "run_jwtlet it pf dr url_scheme path_exists (Ok cfg) w = (Ok (StartedMemory rt s0), w0)"
    and "system_run None it fb (pf_k8s pf) rt (initial_state rt s0 w0) h st"
    and "h = a @ (x, TokenAnswered now jti form client va (200, body)) # b"
  shows "\<exists>a1 y a2 jwt cl. a = a1 @ (y, ExchangeResolved form client va) # a2
    \<and> json_get (lit ''access_token'') body = Some (JString jwt)
    \<and> te_generator (rt_token_service rt) (te_jwtlet_participant_context (rt_token_service rt)) cl = Ok jwt
    \<and> (\<forall>k v. map_of (tc_custom cl) k = Some v \<and> k \<noteq> lit ''act'' \<and> k \<noteq> lit ''jti'' \<longrightarrow>
        \<not> is_reserved_claim k
        \<and> (\<exists>sm. k \<in> fst ` set (sm_claims sm) \<and> sm_scope sm \<in> set (requested_scopes form)
            \<and> granted_since (k8s_vouched (pf_k8s pf)) (configured_holds cfg) rt a1 ROLE_SCOPES_WRITE
                (\<lambda>req. scope_in_body req sm) (\<lambda>z. map_of (scope_mappings (sv_store z)) (sm_scope sm) = Some sm)))"
proof -
  obtain vc kr aud daud iss kv mv where rt: "rt = build_runtime pf cfg memory_store vc kr aud daud iss kv mv"
      and s0: "s0 = mem_new"
    using assms(1) by (rule started_memory) auto
  note run = assms(2) [unfolded rt s0]
  define cl where "cl = participant_claims (rt_token_service rt) now (ef_resource form) (snd va)
    (token_custom (vr_claims (fst va)) client jti)"
  obtain a1 y a2 jwt where a: "a = a1 @ (y, ExchangeResolved form client va) # a2"
      and pre: "system_run None it fb (pf_k8s pf) rt (initial_state rt s0 w0) a1 y" and inv: "mem_invar (sv_store y)"
      and jwt: "json_get (lit ''access_token'') body = Some (JString jwt)"
        "te_generator (rt_token_service rt) (te_jwtlet_participant_context (rt_token_service rt)) cl = Ok jwt"
      and cl: "issued_claims (rt_token_service rt) (mem_policy (sv_store y)) now jti (ef_resource form)
        (requested_scopes form) (ef_audience form) client cl"
    by (rule memory_system.answered_token [OF run started_memory_invar _ assms(3)]) (simp_all add: rt s0 cl_def)
  have prov: "granted_since (k8s_vouched (pf_k8s pf)) (configured_holds cfg) rt a1 ROLE_SCOPES_WRITE
      (\<lambda>req. scope_in_body req sm) (\<lambda>z. map_of (scope_mappings (sv_store z)) sc = Some sm)"
    if "map_of (scope_mappings (sv_store y)) sc = Some sm" for sc sm
    using memory_system.scope_traceback [OF pre [unfolded rt s0] started_memory_invar, of sc sm] that
    by (simp add: rt mem_new_def)
  have "\<not> is_reserved_claim k \<and> (\<exists>sm. k \<in> fst ` set (sm_claims sm) \<and> sm_scope sm \<in> set (requested_scopes form)
      \<and> granted_since (k8s_vouched (pf_k8s pf)) (configured_holds cfg) rt a1 ROLE_SCOPES_WRITE
          (\<lambda>req. scope_in_body req sm) (\<lambda>z. map_of (scope_mappings (sv_store z)) (sm_scope sm) = Some sm))"
    if k: "map_of (tc_custom cl) k = Some v" "k \<noteq> lit ''act''" "k \<noteq> lit ''jti''" for k v
  proof -
    have cc: "custom_claim (mem_policy (sv_store y)) (requested_scopes form) client jti k = Some v"
      using cl k(1) by (simp add: issued_claims_def)
    then have res: "\<not> is_reserved_claim k" using k(2,3) by (auto simp: custom_claim_def split: if_splits)
    with cc k(2,3) have "values_of k (contributed (map_of (scope_mappings (sv_store y))) (btree_set (requested_scopes form))) \<noteq> []"
      by (auto simp: custom_claim_def)
    then obtain sc sm where sc: "sc \<in> set (requested_scopes form)" "map_of (scope_mappings (sv_store y)) sc = Some sm"
        "k \<in> fst ` set (sm_claims sm)"
      by (rule contributed_key)
    moreover have "sm_scope sm = sc"
      using mem_invar_wf [OF inv] sc(2) by (auto simp: policy_wf_def)
    ultimately show ?thesis using res prov by blast
  qed
  with a jwt show ?thesis by blast
qed

theorem claim_provenance_witness:
  "\<exists>a1 y a2 jwt. sample_before = a1 @ (y, ExchangeResolved sample_form sample_client sample_answer) # a2
     \<and> json_get (lit ''access_token'') sample_body = Some (JString jwt)"
  using claim_provenance [OF sample_start sample_token_run refl] by blast

text \<open>C6: A revoked mapping is of no use: once a request that deletes the mapping of a client for a
  participant context has been served, no exchange of that client for that context passes the
  policy, in any interleaving, until a request that brings such a mapping is served again.
  (An exchange that the policy had answered before may still be signed.)\<close>

theorem revocation_effective:
  assumes "run_jwtlet it pf dr url_scheme path_exists (Ok cfg) w = (Ok (StartedMemory rt s0), w0)"
    and "system_run None it fb (pf_k8s pf) rt (initial_state rt s0 w0) h st"
    and "h = h1 @ (z, ManagementServed req actor (DeleteMapping c p) resp evs) # h2"
    and "\<forall>x\<in>set h2. \<forall>req' actor' ep resp' evs' m.
           snd x = ManagementServed req' actor' ep resp' evs' \<and> mr_mapping_body req' = Ok m \<longrightarrow> rm_key m \<noteq> (c, p)"
  shows "map_of (entries (sv_store st)) (c, p) = None
    \<and> (\<forall>y form client va. (y, ExchangeResolved form client va) \<in> set h2 \<longrightarrow> (tc_sub client, ef_resource form) \<noteq> (c, p))"
proof -
  obtain vc kr aud daud iss kv mv where rt: "rt = build_runtime pf cfg memory_store vc kr aud daud iss kv mv"
      and s0: "s0 = mem_new"
    using assms(1) by (rule started_memory) auto
  have gone: "pol_mappings (mem_policy (sv_store z')) (c, p) = None"
    if "system_step None it fb (pf_k8s pf) (build_runtime pf cfg memory_store vc kr aud daud iss kv mv) z
      (ManagementServed req actor (DeleteMapping c p) resp evs) z'" for z'
    using that by (auto elim!: system_stepE simp: management_state_of_def build_runtime_def h_delete_mapping_def
        svc_remove_def memory_store_def mem_remove_mapping_def finish_def delete_conv')
  from memory_system.revoked_mapping_unused [OF assms(2) [unfolded rt s0] started_memory_invar assms(3) gone assms(4)]
  show ?thesis by auto
qed

definition sample_delete :: mgmt_request where
  "sample_delete = (sample_request DELETE [lit ''mappings'', client_name, lit ''ctx''])\<lparr>mr_mapping_body := Err 400\<rparr>"

lemma sample_revocation_run:
  "sample_run (sample_setup @ [(sample_at sample_store {#}, ManagementArrived sample_delete),
      (sample_at sample_store {#MgReceived sample_delete#},
         ManagementAdmitted sample_delete admin_name (DeleteMapping client_name (lit ''ctx''))),
      (sample_at sample_store {#MgAdmitted sample_delete admin_name (DeleteMapping client_name (lit ''ctx''))#},
         ManagementServed sample_delete admin_name (DeleteMapping client_name (lit ''ctx'')) (status_only 204)
           [MappingDeleted admin_name client_name (lit ''ctx'')]),
      (sample_at sample_scope_store {#}, ExchangeArrived sample_form)])
    (sample_at sample_scope_store {#ExReceived sample_form#})"
proof -
  have admit: "management_admit sample_fallback sample_management sample_delete (sample_verifier, ())
      = (Ok (admin_name, DeleteMapping client_name (lit ''ctx'')), (sample_verifier, ()))"
    by code_simp
  have serve: "run_endpoint sorted_list_of_fset memory_store sample_delete admin_name (DeleteMapping client_name (lit ''ctx'')) sample_store
      = ((status_only 204, [MappingDeleted admin_name client_name (lit ''ctx'')]), sample_scope_store)"
    by code_simp
  have "exchange_begin sample_form = (Ok () :: (unit, unit exchange_api_error) result)" by code_simp
  from exchange_arrives [OF this, of None sorted_list_of_fset sample_fallback "pf_k8s sample_platform" sample_runtime "sample_at sample_scope_store {#}"]
  have "sample_step (sample_at sample_scope_store {#}) (ExchangeArrived sample_form) (sample_at sample_scope_store {#ExReceived sample_form#})"
    by simp
  from run_snoc [OF sample_management_steps [OF admit serve sample_setup_run] this] show ?thesis by simp
qed

theorem revocation_effective_witness:
  "map_of (entries (sv_store (sample_at sample_scope_store {#ExReceived sample_form#}))) (client_name, lit ''ctx'') = None"
  using revocation_effective [OF sample_start sample_revocation_run, of "sample_setup @ [(sample_at sample_store {#}, ManagementArrived sample_delete),
      (sample_at sample_store {#MgReceived sample_delete#},
         ManagementAdmitted sample_delete admin_name (DeleteMapping client_name (lit ''ctx'')))]"]
  by simp

text \<open>C14: In every run of a started server with the memory store the store is well formed and the
  policy is valid: no interleaving of requests leaves a reserved claim, a malformed scope or
  an entry under a foreign key in it.\<close>

theorem policy_valid_in_every_run:
  assumes "run_jwtlet it pf dr url_scheme path_exists (Ok cfg) w = (Ok (StartedMemory rt s0), w0)"
    and "system_run None it fb (pf_k8s pf) rt (initial_state rt s0 w0) h st" "valid_iter it"
  shows "mem_invar (sv_store st) \<and> policy_valid (mem_policy (sv_store st))"
proof -
  obtain vc kr aud daud iss kv mv where rt: "rt = build_runtime pf cfg memory_store vc kr aud daud iss kv mv"
      and s0: "s0 = mem_new"
    using assms(1) by (rule started_memory) auto
  note run = assms(2) [unfolded rt s0]
  from memory_system.run_invar [OF run started_memory_invar] memory_system.run_valid [OF run started_memory_invar assms(3)]
  show ?thesis by (simp add: mem_policy_new)
qed

theorem policy_valid_in_every_run_witness:
  "mem_invar sample_store \<and> policy_valid (mem_policy sample_store)"
  using policy_valid_in_every_run [OF sample_start sample_setup_run valid_iter_sorted] by simp

end
